theory Spec2Isabelle
  imports Complex_Main "HOL-Library.Word" "HOL-Library.Log_Nat"
begin

unbundle bit_operations_syntax

section \<open>Machine types\<close>

text \<open>
  The sketch runs on an 8-bit AVR (timer registers TCCR2B, OCR2A, ...): \<open>byte\<close> is an
  unsigned 8-bit value and \<open>unsigned long\<close> an unsigned 32-bit value, both with
  wrap-around arithmetic.
\<close>

type_synonym byte = "8 word"
type_synonym ulong = "32 word"

text \<open>
  Behaviour that C leaves undefined is a value of the model: an array access outside
  the declared array (with the array's name and the index), and a conversion of a
  floating-point value to \<open>unsigned long\<close> that does not fit.
\<close>

datatype fault = OutOfBounds string nat | FloatRange

section \<open>Wavetable library\<close>

text \<open>
  \<open>const byte *waveTable[] = {sine256, ramp256, saw256, tri256, pulse8, pulse16,
  pulse64, sq256, noise256}\<close>. A pointer to a table is the table's name; the samples
  themselves (the headers under wave/) are read through a parameter
  \<open>pgm table offset\<close>, which stands for \<open>pgm_read_byte_near(table + offset)\<close>.
\<close>

datatype wave = sine256 | ramp256 | saw256 | tri256 | pulse8 | pulse16 | pulse64 | sq256 | noise256

definition waveTable :: "wave list" where
  "waveTable = [sine256, ramp256, saw256, tri256, pulse8, pulse16, pulse64, sq256, noise256]"

definition NUM_WAVES :: nat where
  "NUM_WAVES = length waveTable"

definition NUM_LFO :: nat where
  "NUM_LFO = 4"

text \<open>
  The wave number after a press, \<open>(waveNum + 1) % NUM_WAVES\<close>: the sum is an \<open>int\<close>,
  the remainder is stored back into the byte.
\<close>

definition next_wave :: "byte \<Rightarrow> byte" where
  "next_wave n = of_nat ((unat n + 1) mod NUM_WAVES)"

section \<open>Floating point: the tuning word\<close>

text \<open>
  On the AVR target \<open>double\<close> is the 32-bit IEEE 754 format. A finite value is a
  rational; every operation returns the exact result rounded to the nearest value with
  a 24-bit significand, ties to even (\<open>fl\<close>), with gradual underflow below the
  smallest normal number \<open>2 powi - 126\<close>. A result of magnitude \<open>2 ^ 128\<close> or more is an
  infinity: it stays infinite (or becomes a NaN) through the rest of the expression, and
  its conversion to an integer is undefined.
\<close>

definition rne :: "rat \<Rightarrow> int" where
  "rne x = (let n = \<lfloor>x\<rfloor>; d = x - of_int n in
      if d < 1 / 2 then n else if 1 / 2 < d then n + 1 else if even n then n else n + 1)"

definition ilog2 :: "rat \<Rightarrow> int" where
  "ilog2 x = (case quotient_of x of (p, q) \<Rightarrow>
      let e = bitlen p - bitlen q in
      if of_int p < (2 :: rat) powi e * of_int q then e - 1 else e)"

definition fl :: "rat \<Rightarrow> rat" where
  "fl x = (if x = 0 then 0 else
      let e = max (ilog2 \<bar>x\<bar>) (- 126); u = 2 powi (e - 23)
      in sgn x * of_int (rne (\<bar>x\<bar> / u)) * u)"

definition finite32 :: "rat \<Rightarrow> bool" where
  "finite32 x = (\<bar>x\<bar> < 2 ^ 128)"

text \<open>Conversion of a double to \<open>unsigned long\<close>: truncation towards zero.\<close>

definition to_ulong :: "rat \<Rightarrow> fault + ulong" where
  "to_ulong x = (let n = (if 0 \<le> x then \<lfloor>x\<rfloor> else \<lceil>x\<rceil>) in
      if 0 \<le> n \<and> n < 2 ^ 32 then Inr (word_of_int n) else Inl FloatRange)"

text \<open>\<open>const unsigned long long POW2TO32 = pow(2, 32)\<close> and \<open>const double clock = 31372.549\<close>.\<close>

definition POW2TO32 :: int where
  "POW2TO32 = 2 ^ 32"

definition clock :: rat where
  "clock = fl (31372549 / 1000)"

text \<open>
  The right-hand side of the tuning-word assignment, for a control reading \<open>r\<close>:
  \<open>POW2TO32 * (((((double)r * FREQ_RANGE) / 1023L) + FREQ_MIN) / clock)\<close>, every operand
  converted to \<open>double\<close> and every operation rounded; \<open>None\<close> when a result is infinite.
\<close>

definition tuning_double :: "rat \<Rightarrow> rat \<Rightarrow> int \<Rightarrow> rat option" where
  "tuning_double frange fmin r =
     (let a = fl (fl (of_int r) * frange);
          b = fl (a / fl 1023);
          c = fl (b + fmin);
          d = fl (c / clock);
          e = fl (fl (of_int POW2TO32) * d)
      in if finite32 a \<and> finite32 b \<and> finite32 c \<and> finite32 d \<and> finite32 e
         then Some e else None)"

text \<open>The assignment converts the double to \<open>unsigned long\<close>.\<close>

definition tuning :: "rat \<Rightarrow> rat \<Rightarrow> int \<Rightarrow> fault + ulong" where
  "tuning frange fmin r =
     (case tuning_double frange fmin r of None \<Rightarrow> Inl FloatRange | Some e \<Rightarrow> to_ulong e)"

section \<open>State, settings and inputs\<close>

text \<open>The counters, the scratch variable and the two timer-2 registers both sketches have.\<close>

record avr =
  tickCounter :: byte
  fourMilliCounter :: byte
  pinState :: byte
  OCR2A :: byte
  OCR2B :: byte

text \<open>The four-channel sketch: every per-channel array is declared with four elements.\<close>

record quad = avr +
  OCR0A :: byte
  OCR0B :: byte
  accumulator :: "ulong list"
  tuningWord :: "ulong list"
  waveform :: "wave list"
  waveNum :: "byte list"
  lastSync :: "byte list"

definition quad_ok :: "quad \<Rightarrow> bool" where
  "quad_ok s = (length (accumulator s) = NUM_LFO \<and> length (tuningWord s) = NUM_LFO \<and>
     length (waveform s) = NUM_LFO \<and> length (waveNum s) = NUM_LFO \<and>
     length (lastSync s) = NUM_LFO)"

text \<open>
  The two-channel sketch. Its wave numbers are declared \<open>LFO_WaveNum1\<close>, \<open>LFO_WaveNum2\<close>
  and used as \<open>LFO1_WaveNum\<close>, \<open>LFO2_WaveNum\<close>; the model keeps the names of the uses.
  The variables of LFO 3 and 4 are declared and never used.
\<close>

record dual = avr +
  accumulatorA :: ulong
  LFO1_TuningWord :: ulong
  LFO1_Depth :: ulong
  accumulatorB :: ulong
  LFO2_TuningWord :: ulong
  LFO2_Depth :: ulong
  LFO1_WaveTable :: wave
  LFO2_WaveTable :: wave
  LFO1_WaveNum :: byte
  LFO2_WaveNum :: byte
  lastSYNC1 :: byte
  lastSYNC2 :: byte

text \<open>
  The macros of Settings.h, which is not part of the sources, are parameters. A
  frequency macro stands for its value as a \<open>double\<close>; \<open>SYNC\<close> and \<open>SYNC_COMMON\<close> say
  whether the macro is defined.
\<close>

record settings =
  SYNC :: bool
  SYNC1_PIN :: nat
  SYNC2_PIN :: nat
  LFO1_FREQ_MIN :: rat
  LFO1_FREQ_MAX :: rat
  LFO2_FREQ_MIN :: rat
  LFO2_FREQ_MAX :: rat

record quad_settings = settings +
  SYNC3_PIN :: nat
  SYNC4_PIN :: nat
  SYNC_TRIGGER :: int
  LFO3_FREQ_MIN :: rat
  LFO3_FREQ_MAX :: rat
  LFO4_FREQ_MIN :: rat
  LFO4_FREQ_MAX :: rat

record dual_settings = settings +
  SYNC_COMMON :: bool
  SYNC1_TRIGGER :: int
  SYNC2_TRIGGER :: int

definition SYNC_PIN :: "quad_settings \<Rightarrow> nat list" where
  "SYNC_PIN cfg = [SYNC1_PIN cfg, SYNC2_PIN cfg, SYNC3_PIN cfg, SYNC4_PIN cfg]"

definition FREQ_RANGE :: "quad_settings \<Rightarrow> rat list" where
  "FREQ_RANGE cfg = [fl (LFO1_FREQ_MAX cfg - LFO1_FREQ_MIN cfg),
     fl (LFO2_FREQ_MAX cfg - LFO2_FREQ_MIN cfg),
     fl (LFO3_FREQ_MAX cfg - LFO3_FREQ_MIN cfg),
     fl (LFO4_FREQ_MAX cfg - LFO4_FREQ_MIN cfg)]"

definition FREQ_MIN :: "quad_settings \<Rightarrow> rat list" where
  "FREQ_MIN cfg = [LFO1_FREQ_MIN cfg, LFO2_FREQ_MIN cfg, LFO3_FREQ_MIN cfg, LFO4_FREQ_MIN cfg]"

definition LFO1_FREQ_RANGE :: "dual_settings \<Rightarrow> rat" where
  "LFO1_FREQ_RANGE cfg = fl (LFO1_FREQ_MAX cfg - LFO1_FREQ_MIN cfg)"

definition LFO2_FREQ_RANGE :: "dual_settings \<Rightarrow> rat" where
  "LFO2_FREQ_RANGE cfg = fl (LFO2_FREQ_MAX cfg - LFO2_FREQ_MIN cfg)"

text \<open>
  Frequency bounds of a configuration: on every channel the minimum frequency is not
  negative and not above the maximum, and the maximum is at most 31372.5, just below
  the tick rate 31372.549.
\<close>

definition freq_ok :: "quad_settings \<Rightarrow> bool" where
  "freq_ok cfg =
     (0 \<le> LFO1_FREQ_MIN cfg \<and> LFO1_FREQ_MIN cfg \<le> LFO1_FREQ_MAX cfg \<and> LFO1_FREQ_MAX cfg \<le> 62745 / 2 \<and>
      0 \<le> LFO2_FREQ_MIN cfg \<and> LFO2_FREQ_MIN cfg \<le> LFO2_FREQ_MAX cfg \<and> LFO2_FREQ_MAX cfg \<le> 62745 / 2 \<and>
      0 \<le> LFO3_FREQ_MIN cfg \<and> LFO3_FREQ_MIN cfg \<le> LFO3_FREQ_MAX cfg \<and> LFO3_FREQ_MAX cfg \<le> 62745 / 2 \<and>
      0 \<le> LFO4_FREQ_MIN cfg \<and> LFO4_FREQ_MIN cfg \<le> LFO4_FREQ_MAX cfg \<and> LFO4_FREQ_MAX cfg \<le> 62745 / 2)"

definition freq_ok2 :: "dual_settings \<Rightarrow> bool" where
  "freq_ok2 cfg =
     (0 \<le> LFO1_FREQ_MIN cfg \<and> LFO1_FREQ_MIN cfg \<le> LFO1_FREQ_MAX cfg \<and> LFO1_FREQ_MAX cfg \<le> 62745 / 2 \<and>
      0 \<le> LFO2_FREQ_MIN cfg \<and> LFO2_FREQ_MIN cfg \<le> LFO2_FREQ_MAX cfg \<and> LFO2_FREQ_MAX cfg \<le> 62745 / 2)"

text \<open>
  What the outside world answers during one pass of \<open>loop()\<close>: the level of each
  digital pin, and for the controls of the framework (CS_Switch, CS_Pot, not part of
  the sources) the debounced state with its changed flag, and the reading.
\<close>

record inputs =
  digitalRead :: "nat \<Rightarrow> int"

record quad_inputs = inputs +
  waveCtrl :: "(byte \<times> bool) list"
  freqCtrl :: "int list"

record dual_inputs = inputs +
  LFO1_WaveSwitch :: "byte \<times> bool"
  LFO2_WaveSwitch :: "byte \<times> bool"
  LFO1_FreqKnob :: int
  LFO1_DepthKnob :: int
  LFO2_FreqKnob :: int
  LFO2_DepthKnob :: int

section \<open>The timer interrupt\<close>

text \<open>\<open>if (tickCounter++ == 125) { fourMilliCounter++; tickCounter = 0; }\<close>\<close>

definition tick_count :: "'a avr_scheme \<Rightarrow> 'a avr_scheme" where
  "tick_count s =
     (let old = tickCounter s; s1 = s\<lparr>tickCounter := old + 1\<rparr> in
      if old = 125 then s1\<lparr>fourMilliCounter := fourMilliCounter s1 + 1, tickCounter := 0\<rparr>
      else s1)"

text \<open>The body of the sample loop of the four-channel interrupt, for channel \<open>i\<close>.\<close>

definition lfo_tick :: "(wave \<Rightarrow> byte \<Rightarrow> byte) \<Rightarrow> nat \<Rightarrow> quad \<Rightarrow> quad" where
  "lfo_tick pgm i s =
     (let s1 = s\<lparr>accumulator := (accumulator s)[i := accumulator s ! i + tuningWord s ! i]\<rparr>;
          offset = (ucast (drop_bit 24 (accumulator s1 ! i)) :: byte);
          sample = pgm (waveform s1 ! i) offset
      in if i = 0 then s1\<lparr>OCR2A := sample\<rparr>
         else if i = 1 then s1\<lparr>OCR2B := sample\<rparr>
         else if i = 2 then s1\<lparr>OCR0A := sample\<rparr>
         else if i = 3 then s1\<lparr>OCR0B := sample\<rparr>
         else s1)"

function isr_loop :: "(wave \<Rightarrow> byte \<Rightarrow> byte) \<Rightarrow> nat \<Rightarrow> quad \<Rightarrow> quad" where
  "isr_loop pgm i s = (if i < NUM_LFO then isr_loop pgm (i + 1) (lfo_tick pgm i s) else s)"
  by pat_completeness auto
termination
  by (relation "measure (\<lambda>(pgm, i, s). NUM_LFO - i)") auto

definition ISR :: "(wave \<Rightarrow> byte \<Rightarrow> byte) \<Rightarrow> quad \<Rightarrow> quad" where
  "ISR pgm s = isr_loop pgm 0 (tick_count s)"

text \<open>
  The two-channel interrupt scales the sample by the depth:
  \<open>OCR2A = (pgm_read_byte_near(LFO1_WaveTable + offset) * LFO1_Depth) / 1024L\<close>, an
  \<open>unsigned long\<close> product and quotient stored into the 8-bit register.
\<close>

definition depth_scale :: "byte \<Rightarrow> ulong \<Rightarrow> byte" where
  "depth_scale sample depth = ucast ((ucast sample * depth) div 1024)"

definition ISR2 :: "(wave \<Rightarrow> byte \<Rightarrow> byte) \<Rightarrow> dual \<Rightarrow> dual" where
  "ISR2 pgm s =
     (let s1 = tick_count s;
          s2 = s1\<lparr>accumulatorA := accumulatorA s1 + LFO1_TuningWord s1\<rparr>;
          offsetA = (ucast (drop_bit 24 (accumulatorA s2)) :: byte);
          s3 = s2\<lparr>OCR2A := depth_scale (pgm (LFO1_WaveTable s2) offsetA) (LFO1_Depth s2)\<rparr>;
          s4 = s3\<lparr>accumulatorB := accumulatorB s3 + LFO2_TuningWord s3\<rparr>;
          offsetB = (ucast (drop_bit 24 (accumulatorB s4)) :: byte)
      in s4\<lparr>OCR2B := depth_scale (pgm (LFO2_WaveTable s4) offsetB) (LFO2_Depth s4)\<rparr>)"

section \<open>The polling loop of the four-channel sketch\<close>

text \<open>
  One iteration of the sync loop: \<open>pinState = digitalRead(SYNC_PIN[i])\<close>, then the
  level-compare edge detector.
\<close>

definition sync_lfo :: "quad_settings \<Rightarrow> quad_inputs \<Rightarrow> nat \<Rightarrow> quad \<Rightarrow> quad" where
  "sync_lfo cfg inp i s =
     (let s1 = s\<lparr>pinState := word_of_int (digitalRead inp (SYNC_PIN cfg ! i))\<rparr> in
      if pinState s1 \<noteq> lastSync s1 ! i then
        (let s2 = s1\<lparr>lastSync := (lastSync s1)[i := pinState s1]\<rparr> in
         if uint (pinState s2) = SYNC_TRIGGER cfg
         then s2\<lparr>accumulator := (accumulator s2)[i := 0]\<rparr>
         else s2)
      else s1)"

function sync_loop :: "quad_settings \<Rightarrow> quad_inputs \<Rightarrow> nat \<Rightarrow> quad \<Rightarrow> quad" where
  "sync_loop cfg inp i s =
     (if i < NUM_LFO then sync_loop cfg inp (i + 1) (sync_lfo cfg inp i s) else s)"
  by pat_completeness auto
termination
  by (relation "measure (\<lambda>(cfg, inp, i, s). NUM_LFO - i)") auto

text \<open>
  The wave switch of channel \<open>i\<close>: \<open>pinState = waveCtrl[i].stateDebounced()\<close>, and on a
  change to state 1 the next wave number and its table.
\<close>

definition wave_select :: "quad_inputs \<Rightarrow> nat \<Rightarrow> quad \<Rightarrow> fault + quad" where
  "wave_select inp i s =
     (if length (waveCtrl inp) \<le> i then Inl (OutOfBounds ''waveCtrl'' i)
      else
        let s1 = s\<lparr>pinState := fst (waveCtrl inp ! i)\<rparr> in
        if snd (waveCtrl inp ! i) \<and> pinState s1 = 1 then
          (if length (waveNum s1) \<le> i then Inl (OutOfBounds ''waveNum'' i)
           else
             let s2 = s1\<lparr>waveNum := (waveNum s1)[i := next_wave (waveNum s1 ! i)]\<rparr> in
             if length (waveform s2) \<le> i then Inl (OutOfBounds ''waveform'' i)
             else Inr (s2\<lparr>waveform := (waveform s2)[i := waveTable ! unat (waveNum s2 ! i)]\<rparr>))
        else Inr s1)"

text \<open>The frequency control of channel \<open>i\<close>: \<open>tuningWord[i] = POW2TO32 * ...\<close>.\<close>

definition freq_update :: "quad_settings \<Rightarrow> quad_inputs \<Rightarrow> nat \<Rightarrow> quad \<Rightarrow> fault + quad" where
  "freq_update cfg inp i s =
     (if length (freqCtrl inp) \<le> i then Inl (OutOfBounds ''freqCtrl'' i)
      else if length (FREQ_RANGE cfg) \<le> i then Inl (OutOfBounds ''FREQ_RANGE'' i)
      else if length (FREQ_MIN cfg) \<le> i then Inl (OutOfBounds ''FREQ_MIN'' i)
      else
        case tuning (FREQ_RANGE cfg ! i) (FREQ_MIN cfg ! i) (freqCtrl inp ! i) of
          Inl f \<Rightarrow> Inl f
        | Inr t \<Rightarrow>
            if length (tuningWord s) \<le> i then Inl (OutOfBounds ''tuningWord'' i)
            else Inr (s\<lparr>tuningWord := (tuningWord s)[i := t]\<rparr>))"

definition update_lfo :: "quad_settings \<Rightarrow> quad_inputs \<Rightarrow> nat \<Rightarrow> quad \<Rightarrow> fault + quad" where
  "update_lfo cfg inp i s =
     (case wave_select inp i s of Inl f \<Rightarrow> Inl f | Inr s1 \<Rightarrow> freq_update cfg inp i s1)"

text \<open>\<open>for (byte i=0; i<=NUM_LFO; i+=1)\<close>: the loop under "Update LFOs".\<close>

function update_loop :: "quad_settings \<Rightarrow> quad_inputs \<Rightarrow> nat \<Rightarrow> quad \<Rightarrow> fault + quad" where
  "update_loop cfg inp i s =
     (if i \<le> NUM_LFO then
        (case update_lfo cfg inp i s of
           Inl f \<Rightarrow> Inl f
         | Inr s1 \<Rightarrow> update_loop cfg inp (i + 1) s1)
      else Inr s)"
  by pat_completeness auto
termination
  by (relation "measure (\<lambda>(cfg, inp, i, s). NUM_LFO + 1 - i)") auto

text \<open>One pass of \<open>loop()\<close>. The optional display is outside the model.\<close>

definition loop :: "quad_settings \<Rightarrow> quad_inputs \<Rightarrow> quad \<Rightarrow> fault + quad" where
  "loop cfg inp s =
     (let s1 = (if SYNC cfg then sync_loop cfg inp 0 s else s) in
      if 25 < fourMilliCounter s1
      then update_loop cfg inp 0 (s1\<lparr>fourMilliCounter := 0\<rparr>)
      else Inr s1)"

section \<open>The polling loop of the two-channel sketch\<close>

definition waveTables :: "wave list" where
  "waveTables = [sine256, ramp256, saw256, tri256, pulse8, pulse16, pulse64, sq256, noise256]"

text \<open>The sync block, with its \<open>SYNC\<close> and \<open>SYNC_COMMON\<close> conditionals.\<close>

definition sync2 :: "dual_settings \<Rightarrow> dual_inputs \<Rightarrow> dual \<Rightarrow> dual" where
  "sync2 cfg inp s =
     (if SYNC cfg then
        let s1 = s\<lparr>pinState := word_of_int (digitalRead inp (SYNC1_PIN cfg))\<rparr>;
            s2 = (if pinState s1 \<noteq> lastSYNC1 s1 then
                    let t = s1\<lparr>lastSYNC1 := pinState s1\<rparr> in
                    if uint (pinState t) = SYNC1_TRIGGER cfg then
                      let t1 = t\<lparr>accumulatorA := 0\<rparr> in
                      if SYNC_COMMON cfg then t1\<lparr>accumulatorB := 0\<rparr> else t1
                    else t
                  else s1)
        in if \<not> SYNC_COMMON cfg then
             let s3 = s2\<lparr>pinState := word_of_int (digitalRead inp (SYNC2_PIN cfg))\<rparr> in
             if pinState s3 \<noteq> lastSYNC2 s3 then
               let t = s3\<lparr>lastSYNC2 := pinState s3\<rparr> in
               if uint (pinState t) = SYNC2_TRIGGER cfg then t\<lparr>accumulatorB := 0\<rparr> else t
             else s3
           else s2
      else s)"

text \<open>The two wave switches.\<close>

definition wave_switch1 :: "dual_inputs \<Rightarrow> dual \<Rightarrow> dual" where
  "wave_switch1 inp s =
     (let s1 = s\<lparr>pinState := fst (LFO1_WaveSwitch inp)\<rparr> in
      if snd (LFO1_WaveSwitch inp) \<and> pinState s1 = 1 then
        let s2 = s1\<lparr>LFO1_WaveNum := next_wave (LFO1_WaveNum s1)\<rparr>
        in s2\<lparr>LFO1_WaveTable := waveTables ! unat (LFO1_WaveNum s2)\<rparr>
      else s1)"

definition wave_switch2 :: "dual_inputs \<Rightarrow> dual \<Rightarrow> dual" where
  "wave_switch2 inp s =
     (let s1 = s\<lparr>pinState := fst (LFO2_WaveSwitch inp)\<rparr> in
      if snd (LFO2_WaveSwitch inp) \<and> pinState s1 = 1 then
        let s2 = s1\<lparr>LFO2_WaveNum := next_wave (LFO2_WaveNum s1)\<rparr>
        in s2\<lparr>LFO2_WaveTable := waveTables ! unat (LFO2_WaveNum s2)\<rparr>
      else s1)"

text \<open>
  The frequency and depth controls: the tuning word as above, and
  \<open>LFO1_Depth = LFO1_DepthKnob.value()\<close>, the reading converted to \<open>unsigned long\<close>.
\<close>

definition knobs2 :: "dual_settings \<Rightarrow> dual_inputs \<Rightarrow> dual \<Rightarrow> fault + dual" where
  "knobs2 cfg inp s =
     (case tuning (LFO1_FREQ_RANGE cfg) (LFO1_FREQ_MIN cfg) (LFO1_FreqKnob inp) of
        Inl f \<Rightarrow> Inl f
      | Inr t1 \<Rightarrow>
          let s1 = s\<lparr>LFO1_TuningWord := t1, LFO1_Depth := word_of_int (LFO1_DepthKnob inp)\<rparr> in
          (case tuning (LFO2_FREQ_RANGE cfg) (LFO2_FREQ_MIN cfg) (LFO2_FreqKnob inp) of
             Inl f \<Rightarrow> Inl f
           | Inr t2 \<Rightarrow>
               Inr (s1\<lparr>LFO2_TuningWord := t2, LFO2_Depth := word_of_int (LFO2_DepthKnob inp)\<rparr>)))"

definition loop2 :: "dual_settings \<Rightarrow> dual_inputs \<Rightarrow> dual \<Rightarrow> fault + dual" where
  "loop2 cfg inp s =
     (let s1 = sync2 cfg inp s in
      if 25 < fourMilliCounter s1
      then knobs2 cfg inp (wave_switch2 inp (wave_switch1 inp (s1\<lparr>fourMilliCounter := 0\<rparr>)))
      else Inr s1)"

section \<open>Runs of the two-channel sketch\<close>

text \<open>
  A run of the two-channel sketch: timer interrupts and passes of \<open>loop()\<close>, each pass
  with its own inputs, in any order. The whole pass is taken as one step.
\<close>

datatype event2 = Tick | Pass dual_inputs

fun run2 :: "dual_settings \<Rightarrow> (wave \<Rightarrow> byte \<Rightarrow> byte) \<Rightarrow> event2 list \<Rightarrow> dual \<Rightarrow> fault + dual" where
  "run2 cfg pgm [] s = Inr s"
| "run2 cfg pgm (Tick # es) s = run2 cfg pgm es (ISR2 pgm s)"
| "run2 cfg pgm (Pass inp # es) s =
     (case loop2 cfg inp s of Inl f \<Rightarrow> Inl f | Inr s1 \<Rightarrow> run2 cfg pgm es s1)"

text \<open>
  The number of passes of a run on which the controls are due and the wave switch of
  LFO 1 (of LFO 2) reports a change to state 1.
\<close>

fun press_edges1 :: "dual_settings \<Rightarrow> (wave \<Rightarrow> byte \<Rightarrow> byte) \<Rightarrow> event2 list \<Rightarrow> dual \<Rightarrow> nat" where
  "press_edges1 cfg pgm [] s = 0"
| "press_edges1 cfg pgm (Tick # es) s = press_edges1 cfg pgm es (ISR2 pgm s)"
| "press_edges1 cfg pgm (Pass inp # es) s =
     (case loop2 cfg inp s of
        Inl f \<Rightarrow> 0
      | Inr s1 \<Rightarrow>
          (if 25 < fourMilliCounter s \<and> snd (LFO1_WaveSwitch inp) \<and> fst (LFO1_WaveSwitch inp) = 1
           then 1 else 0) + press_edges1 cfg pgm es s1)"

fun press_edges2 :: "dual_settings \<Rightarrow> (wave \<Rightarrow> byte \<Rightarrow> byte) \<Rightarrow> event2 list \<Rightarrow> dual \<Rightarrow> nat" where
  "press_edges2 cfg pgm [] s = 0"
| "press_edges2 cfg pgm (Tick # es) s = press_edges2 cfg pgm es (ISR2 pgm s)"
| "press_edges2 cfg pgm (Pass inp # es) s =
     (case loop2 cfg inp s of
        Inl f \<Rightarrow> 0
      | Inr s1 \<Rightarrow>
          (if 25 < fourMilliCounter s \<and> snd (LFO2_WaveSwitch inp) \<and> fst (LFO2_WaveSwitch inp) = 1
           then 1 else 0) + press_edges2 cfg pgm es s1)"

section \<open>The state when \<open>setup()\<close> returns\<close>

text \<open>
  Globals start at zero, \<open>waveNum\<close> at \<open>{0, 0, 0, 0}\<close>; \<open>setup()\<close> points every channel
  at \<open>waveTable[0]\<close> and, with \<open>SYNC\<close>, reads each sync pin into \<open>lastSync\<close>.
\<close>

definition boot :: "quad_settings \<Rightarrow> quad_inputs \<Rightarrow> quad" where
  "boot cfg inp = \<lparr>tickCounter = 0, fourMilliCounter = 0, pinState = 0, OCR2A = 0,
     OCR2B = 0, OCR0A = 0, OCR0B = 0,
     accumulator = [0, 0, 0, 0],
     tuningWord = [0, 0, 0, 0],
     waveform = [waveTable ! 0, waveTable ! 0, waveTable ! 0, waveTable ! 0],
     waveNum = [0, 0, 0, 0],
     lastSync = (if SYNC cfg then map (\<lambda>pin. word_of_int (digitalRead inp pin)) (SYNC_PIN cfg)
                 else [0, 0, 0, 0])\<rparr>"

text \<open>
  Every wave number is an index of the wavetable list, and every waveform pointer is
  the entry of the list at the channel's wave number.
\<close>

definition wave_ok :: "quad \<Rightarrow> bool" where
  "wave_ok s = (list_all (\<lambda>n. unat n < NUM_WAVES) (waveNum s) \<and>
     waveform s = map (\<lambda>n. waveTable ! unat n) (waveNum s))"

section \<open>A concrete configuration\<close>

text \<open>
  Frequencies from 0.1 Hz to 10 Hz on every channel, sync on a rising edge, the sync
  pins of the pin map (D9, D10, D12, D13); a state, a wavetable memory and one pass of
  inputs to run the sketches on.
\<close>

definition example_settings :: quad_settings where
  "example_settings = \<lparr>SYNC = True, SYNC1_PIN = 9, SYNC2_PIN = 10,
     LFO1_FREQ_MIN = fl (1 / 10), LFO1_FREQ_MAX = fl 10,
     LFO2_FREQ_MIN = fl (1 / 10), LFO2_FREQ_MAX = fl 10,
     SYNC3_PIN = 12, SYNC4_PIN = 13, SYNC_TRIGGER = 1,
     LFO3_FREQ_MIN = fl (1 / 10), LFO3_FREQ_MAX = fl 10,
     LFO4_FREQ_MIN = fl (1 / 10), LFO4_FREQ_MAX = fl 10\<rparr>"

definition example_settings2 :: dual_settings where
  "example_settings2 = \<lparr>SYNC = True, SYNC1_PIN = 9, SYNC2_PIN = 9,
     LFO1_FREQ_MIN = fl (1 / 10), LFO1_FREQ_MAX = fl 10,
     LFO2_FREQ_MIN = fl (1 / 10), LFO2_FREQ_MAX = fl 10,
     SYNC_COMMON = True, SYNC1_TRIGGER = 1, SYNC2_TRIGGER = 1\<rparr>"

definition example_pgm :: "wave \<Rightarrow> byte \<Rightarrow> byte" where
  "example_pgm w offset = (if w = ramp256 then offset else 255)"

definition example_quad :: quad where
  "example_quad = \<lparr>tickCounter = 0, fourMilliCounter = 26, pinState = 0, OCR2A = 0,
     OCR2B = 0, OCR0A = 0, OCR0B = 0,
     accumulator = [123456789, 4294967295, 16777216, 7],
     tuningWord = [1369020, 2, 16777216, 0],
     waveform = [sine256, ramp256, saw256, tri256],
     waveNum = [0, 1, 2, 3],
     lastSync = [0, 0, 1, 1]\<rparr>"

definition example_dual :: dual where
  "example_dual = \<lparr>tickCounter = 0, fourMilliCounter = 26, pinState = 0, OCR2A = 0,
     OCR2B = 0,
     accumulatorA = 4294967295, LFO1_TuningWord = 3, LFO1_Depth = 1023,
     accumulatorB = 5, LFO2_TuningWord = 16777216, LFO2_Depth = 512,
     LFO1_WaveTable = sine256, LFO2_WaveTable = ramp256,
     LFO1_WaveNum = 0, LFO2_WaveNum = 1, lastSYNC1 = 0, lastSYNC2 = 0\<rparr>"

definition example_inputs :: quad_inputs where
  "example_inputs = \<lparr>digitalRead = (\<lambda>pin. if pin = 9 \<or> pin = 12 then 1 else 0),
     waveCtrl = [(1, True), (1, False), (0, True), (0, False)],
     freqCtrl = [1023, 0, 512, 100]\<rparr>"

definition example_inputs2 :: dual_inputs where
  "example_inputs2 = \<lparr>digitalRead = (\<lambda>pin. if pin = 9 then 1 else 0),
     LFO1_WaveSwitch = (1, True), LFO2_WaveSwitch = (0, True),
     LFO1_FreqKnob = 1023, LFO1_DepthKnob = 1023,
     LFO2_FreqKnob = 0, LFO2_DepthKnob = 512\<rparr>"

section \<open>The phase accumulator\<close>

declare isr_loop.simps [simp del]

lemma tick_count_quad [simp]:
  "accumulator (tick_count s) = accumulator s"
  "tuningWord (tick_count s) = tuningWord s"
  "waveform (tick_count s) = waveform s"
  "waveNum (tick_count s) = waveNum s"
  "lastSync (tick_count s) = lastSync s"
  by (simp_all add: tick_count_def Let_def)

lemma tick_count_dual [simp]:
  "accumulatorA (tick_count d) = accumulatorA d"
  "accumulatorB (tick_count d) = accumulatorB d"
  "LFO1_TuningWord (tick_count d) = LFO1_TuningWord d"
  "LFO2_TuningWord (tick_count d) = LFO2_TuningWord d"
  "LFO1_Depth (tick_count d) = LFO1_Depth d"
  "LFO2_Depth (tick_count d) = LFO2_Depth d"
  "LFO1_WaveTable (tick_count d) = LFO1_WaveTable d"
  "LFO2_WaveTable (tick_count d) = LFO2_WaveTable d"
  by (simp_all add: tick_count_def Let_def)

lemma isr_loop_4: "isr_loop pgm 4 s = s"
  by (subst isr_loop.simps) (simp add: NUM_LFO_def)

lemma isr_loop_3: "isr_loop pgm 3 s = lfo_tick pgm 3 s"
  by (subst isr_loop.simps) (simp add: NUM_LFO_def isr_loop_4)

lemma isr_loop_2: "isr_loop pgm 2 s = lfo_tick pgm 3 (lfo_tick pgm 2 s)"
  by (subst isr_loop.simps) (simp add: NUM_LFO_def isr_loop_3)

lemma isr_loop_1: "isr_loop pgm 1 s = lfo_tick pgm 3 (lfo_tick pgm 2 (lfo_tick pgm 1 s))"
  by (subst isr_loop.simps) (simp add: NUM_LFO_def isr_loop_2 del: One_nat_def)

lemma isr_loop_unroll:
  "isr_loop pgm 0 s = lfo_tick pgm 3 (lfo_tick pgm 2 (lfo_tick pgm 1 (lfo_tick pgm 0 s)))"
  by (subst isr_loop.simps) (simp add: NUM_LFO_def isr_loop_1 del: One_nat_def)

lemma lfo_tick_fields [simp]:
  "accumulator (lfo_tick pgm i s) = (accumulator s)[i := accumulator s ! i + tuningWord s ! i]"
  "tuningWord (lfo_tick pgm i s) = tuningWord s"
  "waveform (lfo_tick pgm i s) = waveform s"
  "waveNum (lfo_tick pgm i s) = waveNum s"
  "lastSync (lfo_tick pgm i s) = lastSync s"
  by (simp_all add: lfo_tick_def Let_def)

lemma ISR_tuningWord [simp]: "tuningWord (ISR pgm s) = tuningWord s"
  by (simp add: ISR_def isr_loop_unroll)

lemma ISR_quad_ok: "quad_ok s \<Longrightarrow> quad_ok (ISR pgm s)"
  by (simp add: ISR_def isr_loop_unroll quad_ok_def)

lemma ISR_accumulator:
  assumes "quad_ok s" "i < NUM_LFO"
  shows "accumulator (ISR pgm s) ! i = accumulator s ! i + tuningWord s ! i"
proof -
  have "i = 0 \<or> i = 1 \<or> i = 2 \<or> i = 3"
    using assms(2) by (auto simp: NUM_LFO_def)
  then show ?thesis
    using assms(1) by (auto simp: ISR_def isr_loop_unroll quad_ok_def NUM_LFO_def)
qed

lemma ISR_funpow_ok: "quad_ok s \<Longrightarrow> quad_ok ((ISR pgm ^^ k) s)"
  by (induction k) (simp_all add: ISR_quad_ok)

lemma ISR_funpow_tuningWord: "tuningWord ((ISR pgm ^^ k) s) = tuningWord s"
  by (induction k) simp_all

lemma ISR_funpow_accumulator:
  assumes "quad_ok s" "i < NUM_LFO"
  shows "accumulator ((ISR pgm ^^ k) s) ! i = accumulator s ! i + of_nat k * tuningWord s ! i"
proof (induction k)
  case 0
  show ?case by simp
next
  case (Suc k)
  have "accumulator ((ISR pgm ^^ Suc k) s) ! i
      = accumulator ((ISR pgm ^^ k) s) ! i + tuningWord ((ISR pgm ^^ k) s) ! i"
    using ISR_accumulator [OF ISR_funpow_ok [OF assms(1)] assms(2)] by simp
  then show ?case
    by (simp add: Suc ISR_funpow_tuningWord algebra_simps)
qed

lemma unat_affine:
  "unat (a + of_nat k * t :: ulong) = (unat a + k * unat t) mod 2 ^ 32"
  by (simp add: unat_word_ariths unat_of_nat mod_simps)

lemma ISR2_fields [simp]:
  "accumulatorA (ISR2 pgm d) = accumulatorA d + LFO1_TuningWord d"
  "accumulatorB (ISR2 pgm d) = accumulatorB d + LFO2_TuningWord d"
  "LFO1_TuningWord (ISR2 pgm d) = LFO1_TuningWord d"
  "LFO2_TuningWord (ISR2 pgm d) = LFO2_TuningWord d"
  by (simp_all add: ISR2_def Let_def)

lemma ISR2_funpow_tuning:
  "LFO1_TuningWord ((ISR2 pgm ^^ k) d) = LFO1_TuningWord d"
  "LFO2_TuningWord ((ISR2 pgm ^^ k) d) = LFO2_TuningWord d"
  by (induction k) simp_all

lemma ISR2_funpow_accumulator:
  "accumulatorA ((ISR2 pgm ^^ k) d) = accumulatorA d + of_nat k * LFO1_TuningWord d"
  "accumulatorB ((ISR2 pgm ^^ k) d) = accumulatorB d + of_nat k * LFO2_TuningWord d"
  by (induction k) (simp_all add: ISR2_funpow_tuning algebra_simps)

text \<open>
  Claim C1. For every channel, every initial accumulator value, every tuning word and
  every number \<open>k\<close> of ticks, \<open>k\<close> runs of the interrupt routine leave the channel's 32-bit
  accumulator at \<open>(initial + k * tuning word) mod 2 ^ 32\<close>; one tick adds the tuning word
  once, wrapping around, and leaves the tuning word as it was. This holds for the four
  channels of the four-channel sketch and for both channels of the two-channel sketch.
\<close>

theorem accumulator_after_ticks:
  assumes "quad_ok s" and "i < NUM_LFO"
  shows "unat (accumulator ((ISR pgm ^^ k) s) ! i)
           = (unat (accumulator s ! i) + k * unat (tuningWord s ! i)) mod 2 ^ 32
       \<and> accumulator (ISR pgm s) ! i = accumulator s ! i + tuningWord s ! i
       \<and> tuningWord (ISR pgm s) = tuningWord s
       \<and> unat (accumulatorA ((ISR2 pgm ^^ k) d))
           = (unat (accumulatorA d) + k * unat (LFO1_TuningWord d)) mod 2 ^ 32
       \<and> unat (accumulatorB ((ISR2 pgm ^^ k) d))
           = (unat (accumulatorB d) + k * unat (LFO2_TuningWord d)) mod 2 ^ 32"
  using assms
  by (simp add: ISR_funpow_accumulator ISR_accumulator ISR2_funpow_accumulator unat_affine)

theorem accumulator_after_ticks_witness:
  "quad_ok example_quad \<and> 1 < NUM_LFO
   \<and> unat (accumulator ((ISR example_pgm ^^ 3) example_quad) ! 1) = 5
   \<and> accumulator (ISR example_pgm example_quad) ! 1 = 1
   \<and> tuningWord (ISR example_pgm example_quad) = [1369020, 2, 16777216, 0]
   \<and> unat (accumulatorA ((ISR2 example_pgm ^^ 3) example_dual)) = 8
   \<and> unat (accumulatorB ((ISR2 example_pgm ^^ 3) example_dual)) = 50331653"
proof -
  have ok: "quad_ok example_quad"
    by (simp add: quad_ok_def example_quad_def NUM_LFO_def)
  have lt: "1 < NUM_LFO"
    by (simp add: NUM_LFO_def)
  show ?thesis
    using ok lt accumulator_after_ticks [OF ok lt, where pgm = example_pgm and k = 3 and d = example_dual]
    by (simp add: example_quad_def example_dual_def)
qed

section \<open>Depth scaling\<close>

lemma depth_scale_unat:
  assumes "unat d \<le> 1024"
  shows "unat (depth_scale s d) = unat s * unat d div 1024"
proof -
  have "unat s < 2 ^ LENGTH(8)"
    by (rule unsigned_less)
  then have s: "unat s < 256"
    by simp
  have u: "unat (ucast s :: ulong) = unat s"
    using s by (simp add: unsigned_ucast_eq take_bit_eq_mod)
  have "unat s * unat d \<le> 255 * 1024"
    using s assms by (intro mult_mono) auto
  then have small: "unat s * unat d < 2 ^ 32"
    by simp
  then have p: "unat (ucast s * d :: ulong) = unat s * unat d"
    using u by (simp add: unat_word_ariths)
  have q: "unat ((ucast s * d) div 1024 :: ulong) = unat s * unat d div 1024"
    by (simp add: unat_div p)
  have "unat s * unat d div 1024 \<le> 255"
    using \<open>unat s * unat d \<le> 255 * 1024\<close> by simp
  then show ?thesis
    by (simp add: depth_scale_def unsigned_ucast_eq take_bit_eq_mod q)
qed

lemma depth_scale_le: "unat (depth_scale s d) \<le> 255"
proof -
  have "unat (depth_scale s d) < 2 ^ LENGTH(8)"
    by (rule unsigned_less)
  then show ?thesis
    by simp
qed

lemma depth_scale_254:
  assumes "unat d \<le> 1023"
  shows "unat (depth_scale s d) \<le> 254"
proof -
  have "unat s < 2 ^ LENGTH(8)"
    by (rule unsigned_less)
  then have s: "unat s \<le> 255"
    by simp
  have "unat s * unat d \<le> 255 * 1023"
    using s assms by (intro mult_mono) auto
  then have "unat s * unat d div 1024 \<le> 254"
    by simp
  then show ?thesis
    using assms by (simp add: depth_scale_unat)
qed

lemma ISR2_out:
  "OCR2A (ISR2 pgm s) = depth_scale (pgm (LFO1_WaveTable s)
      (ucast (drop_bit 24 (accumulatorA s + LFO1_TuningWord s)))) (LFO1_Depth s)"
  "OCR2B (ISR2 pgm s) = depth_scale (pgm (LFO2_WaveTable s)
      (ucast (drop_bit 24 (accumulatorB s + LFO2_TuningWord s)))) (LFO2_Depth s)"
  by (simp_all add: ISR2_def Let_def)

lemma ISR2_depth [simp]:
  "LFO1_Depth (ISR2 pgm s) = LFO1_Depth s"
  "LFO2_Depth (ISR2 pgm s) = LFO2_Depth s"
  by (simp_all add: ISR2_def Let_def)

lemma ISR2_funpow_depth:
  "LFO1_Depth ((ISR2 pgm ^^ k) s) = LFO1_Depth s"
  "LFO2_Depth ((ISR2 pgm ^^ k) s) = LFO2_Depth s"
  by (induction k) simp_all

lemma depth_scale_mono:
  assumes "unat d \<le> 1024" and "unat d' \<le> 1024"
    and "unat s \<le> unat s'" and "unat d \<le> unat d'"
  shows "unat (depth_scale s d) \<le> unat (depth_scale s' d')"
proof -
  have "unat s * unat d \<le> unat s' * unat d'"
    using assms(3,4) by (rule mult_le_mono)
  then show ?thesis
    by (simp add: depth_scale_unat assms(1,2) div_le_mono)
qed

lemma depth_scale_ends:
  "depth_scale s 1024 = s" "depth_scale s 0 = 0" "depth_scale 0 d = 0"
proof -
  have "unat (depth_scale s 1024) = unat s"
    using depth_scale_unat [of 1024 s] by simp
  then show "depth_scale s 1024 = s"
    by (simp add: word_unat_eq_iff)
  show "depth_scale s 0 = 0" "depth_scale 0 d = 0"
    by (simp_all add: depth_scale_def)
qed

text \<open>
  Claim C8. In the two-channel sketch the value written to each output register is the
  sample read from the wavetable scaled by the channel's depth; for every sample (a
  byte, so at most 255) and every depth \<open>d \<le> 1024\<close> the scaled value is
  \<open>floor (sample * d / 1024)\<close>, which is at most 255. The scaling is the identity at
  depth 1024, gives 0 at depth 0, and does not decrease when the sample or the depth
  grows.
\<close>

theorem depth_scaling:
  assumes "unat d \<le> 1024"
  shows "unat (depth_scale sample d) = unat sample * unat d div 1024
       \<and> unat (depth_scale sample d) \<le> 255
       \<and> OCR2A (ISR2 pgm s) = depth_scale (pgm (LFO1_WaveTable s)
            (ucast (drop_bit 24 (accumulatorA s + LFO1_TuningWord s)))) (LFO1_Depth s)
       \<and> OCR2B (ISR2 pgm s) = depth_scale (pgm (LFO2_WaveTable s)
            (ucast (drop_bit 24 (accumulatorB s + LFO2_TuningWord s)))) (LFO2_Depth s)
       \<and> depth_scale sample 1024 = sample \<and> depth_scale sample 0 = 0
       \<and> (\<forall>sample' d'. unat d' \<le> 1024 \<and> unat sample \<le> unat sample' \<and> unat d \<le> unat d'
            \<longrightarrow> unat (depth_scale sample d) \<le> unat (depth_scale sample' d'))"
proof (intro conjI allI impI)
  show "unat (depth_scale sample d) = unat sample * unat d div 1024"
    by (rule depth_scale_unat [OF assms])
  show "unat (depth_scale sample d) \<le> 255"
    by (rule depth_scale_le)
  show "OCR2A (ISR2 pgm s) = depth_scale (pgm (LFO1_WaveTable s)
      (ucast (drop_bit 24 (accumulatorA s + LFO1_TuningWord s)))) (LFO1_Depth s)"
    by (rule ISR2_out(1))
  show "OCR2B (ISR2 pgm s) = depth_scale (pgm (LFO2_WaveTable s)
      (ucast (drop_bit 24 (accumulatorB s + LFO2_TuningWord s)))) (LFO2_Depth s)"
    by (rule ISR2_out(2))
  show "depth_scale sample 1024 = sample"
    by (rule depth_scale_ends(1))
  show "depth_scale sample 0 = 0"
    by (rule depth_scale_ends(2))
next
  fix sample' :: byte and d' :: ulong
  assume h: "unat d' \<le> 1024 \<and> unat sample \<le> unat sample' \<and> unat d \<le> unat d'"
  then show "unat (depth_scale sample d) \<le> unat (depth_scale sample' d')"
    using depth_scale_mono [OF assms, of d' sample sample'] by simp
qed

theorem depth_scaling_witness:
  "unat (1024 :: ulong) \<le> 1024
   \<and> unat (depth_scale 255 1024) = 255
   \<and> unat (depth_scale 200 512) = 100
   \<and> OCR2A (ISR2 example_pgm example_dual) = 254
   \<and> OCR2B (ISR2 example_pgm example_dual) = 0"
proof -
  have a: "unat (1024 :: ulong) \<le> 1024" and b: "unat (512 :: ulong) \<le> 1024"
    and c: "unat (1023 :: ulong) \<le> 1024"
    by simp_all
  have "unat (depth_scale 255 1023) = 254"
    using depth_scaling [OF c, of 255] by simp
  then have e: "depth_scale 255 1023 = 254"
    by (simp add: word_unat_eq_iff)
  have "unat (depth_scale 1 512) = 0"
    using depth_scaling [OF b, of 1] by simp
  then have f: "depth_scale 1 512 = 0"
    by (simp add: word_unat_eq_iff)
  show ?thesis
    using depth_scaling [OF a, of 255 example_pgm example_dual]
      depth_scaling [OF b, of 200]
    by (simp add: example_dual_def example_pgm_def drop_bit_eq_div e f)
qed

section \<open>The sync handler\<close>

declare sync_loop.simps [simp del]
declare update_loop.simps [simp del]

lemma sync_loop_4: "sync_loop cfg inp 4 s = s"
  by (subst sync_loop.simps) (simp add: NUM_LFO_def)

lemma sync_loop_3: "sync_loop cfg inp 3 s = sync_lfo cfg inp 3 s"
  by (subst sync_loop.simps) (simp add: NUM_LFO_def sync_loop_4)

lemma sync_loop_2: "sync_loop cfg inp 2 s = sync_lfo cfg inp 3 (sync_lfo cfg inp 2 s)"
  by (subst sync_loop.simps) (simp add: NUM_LFO_def sync_loop_3)

lemma sync_loop_1:
  "sync_loop cfg inp 1 s = sync_lfo cfg inp 3 (sync_lfo cfg inp 2 (sync_lfo cfg inp 1 s))"
  by (subst sync_loop.simps) (simp add: NUM_LFO_def sync_loop_2 del: One_nat_def)

lemma sync_loop_unroll:
  "sync_loop cfg inp 0 s
     = sync_lfo cfg inp 3 (sync_lfo cfg inp 2 (sync_lfo cfg inp 1 (sync_lfo cfg inp 0 s)))"
  by (subst sync_loop.simps) (simp add: NUM_LFO_def sync_loop_1 del: One_nat_def)

lemma sync_lfo_lastSync:
  "lastSync (sync_lfo cfg inp j s)
     = (lastSync s)[j := word_of_int (digitalRead inp (SYNC_PIN cfg ! j))]"
  by (cases "j < length (lastSync s)") (simp_all add: sync_lfo_def Let_def)

lemma sync_lfo_accumulator:
  "accumulator (sync_lfo cfg inp j s)
     = (if (word_of_int (digitalRead inp (SYNC_PIN cfg ! j)) :: byte) \<noteq> lastSync s ! j
          \<and> uint (word_of_int (digitalRead inp (SYNC_PIN cfg ! j)) :: byte) = SYNC_TRIGGER cfg
        then (accumulator s)[j := 0] else accumulator s)"
  by (simp add: sync_lfo_def Let_def)

lemma sync_lfo_other [simp]:
  "tuningWord (sync_lfo cfg inp j s) = tuningWord s"
  "waveform (sync_lfo cfg inp j s) = waveform s"
  "waveNum (sync_lfo cfg inp j s) = waveNum s"
  "fourMilliCounter (sync_lfo cfg inp j s) = fourMilliCounter s"
  "tickCounter (sync_lfo cfg inp j s) = tickCounter s"
  by (simp_all add: sync_lfo_def Let_def)

lemma sync_lfo_ok: "quad_ok s \<Longrightarrow> quad_ok (sync_lfo cfg inp j s)"
  by (simp add: quad_ok_def sync_lfo_lastSync sync_lfo_accumulator)

lemma sync_lfo_channel:
  assumes "quad_ok s" and "i < NUM_LFO"
  shows "accumulator (sync_lfo cfg inp j s) ! i
     = (if j = i \<and> (word_of_int (digitalRead inp (SYNC_PIN cfg ! i)) :: byte) \<noteq> lastSync s ! i
          \<and> uint (word_of_int (digitalRead inp (SYNC_PIN cfg ! i)) :: byte) = SYNC_TRIGGER cfg
        then 0 else accumulator s ! i)"
    and "lastSync (sync_lfo cfg inp j s) ! i
     = (if j = i then word_of_int (digitalRead inp (SYNC_PIN cfg ! i)) else lastSync s ! i)"
  using assms
  by (cases "j = i"; simp add: sync_lfo_lastSync sync_lfo_accumulator quad_ok_def)+

lemma sync_loop_channel:
  assumes "quad_ok s" and "i < NUM_LFO"
  shows "accumulator (sync_loop cfg inp 0 s) ! i
     = (if (word_of_int (digitalRead inp (SYNC_PIN cfg ! i)) :: byte) \<noteq> lastSync s ! i
          \<and> uint (word_of_int (digitalRead inp (SYNC_PIN cfg ! i)) :: byte) = SYNC_TRIGGER cfg
        then 0 else accumulator s ! i)"
    and "lastSync (sync_loop cfg inp 0 s) ! i
     = word_of_int (digitalRead inp (SYNC_PIN cfg ! i))"
proof -
  have i: "i = 0 \<or> i = 1 \<or> i = 2 \<or> i = 3"
    using assms(2) by (auto simp: NUM_LFO_def)
  note ok = assms(1) sync_lfo_ok
  show "accumulator (sync_loop cfg inp 0 s) ! i
     = (if (word_of_int (digitalRead inp (SYNC_PIN cfg ! i)) :: byte) \<noteq> lastSync s ! i
          \<and> uint (word_of_int (digitalRead inp (SYNC_PIN cfg ! i)) :: byte) = SYNC_TRIGGER cfg
        then 0 else accumulator s ! i)"
    using i by (elim disjE; simp add: sync_loop_unroll sync_lfo_channel ok NUM_LFO_def del: One_nat_def)
  show "lastSync (sync_loop cfg inp 0 s) ! i
     = word_of_int (digitalRead inp (SYNC_PIN cfg ! i))"
    using i by (elim disjE; simp add: sync_loop_unroll sync_lfo_channel ok NUM_LFO_def del: One_nat_def)
qed

lemma sync_loop_ok: "quad_ok s \<Longrightarrow> quad_ok (sync_loop cfg inp 0 s)"
  by (simp add: sync_loop_unroll sync_lfo_ok)

lemma sync_loop_fourMilli [simp]:
  "fourMilliCounter (sync_loop cfg inp 0 s) = fourMilliCounter s"
  by (simp add: sync_loop_unroll)

lemma sync2_accumulators:
  "accumulatorA (sync2 cfg inp s)
     = (if SYNC cfg \<and> (word_of_int (digitalRead inp (SYNC1_PIN cfg)) :: byte) \<noteq> lastSYNC1 s
          \<and> uint (word_of_int (digitalRead inp (SYNC1_PIN cfg)) :: byte) = SYNC1_TRIGGER cfg
        then 0 else accumulatorA s)"
  "accumulatorB (sync2 cfg inp s)
     = (if SYNC cfg \<and> SYNC_COMMON cfg
          \<and> (word_of_int (digitalRead inp (SYNC1_PIN cfg)) :: byte) \<noteq> lastSYNC1 s
          \<and> uint (word_of_int (digitalRead inp (SYNC1_PIN cfg)) :: byte) = SYNC1_TRIGGER cfg
        then 0
        else if SYNC cfg \<and> \<not> SYNC_COMMON cfg
          \<and> (word_of_int (digitalRead inp (SYNC2_PIN cfg)) :: byte) \<noteq> lastSYNC2 s
          \<and> uint (word_of_int (digitalRead inp (SYNC2_PIN cfg)) :: byte) = SYNC2_TRIGGER cfg
        then 0 else accumulatorB s)"
  "lastSYNC1 (sync2 cfg inp s)
     = (if SYNC cfg then word_of_int (digitalRead inp (SYNC1_PIN cfg)) else lastSYNC1 s)"
  "lastSYNC2 (sync2 cfg inp s)
     = (if SYNC cfg \<and> \<not> SYNC_COMMON cfg then word_of_int (digitalRead inp (SYNC2_PIN cfg))
        else lastSYNC2 s)"
  by (simp_all add: sync2_def Let_def)

text \<open>
  Claim C5. One pass of the sync handler sets the accumulator of a channel to 0 exactly
  when the level read from the channel's trigger pin differs from the last level seen
  and equals the configured trigger level, and leaves it as it was otherwise; the last
  level seen becomes the level read. In the two-channel sketch with a common sync input,
  the edge on the first trigger pin resets both accumulators.
\<close>

theorem sync_reset:
  assumes "quad_ok s" and "i < NUM_LFO"
  shows "accumulator (sync_loop cfg inp 0 s) ! i
           = (if (word_of_int (digitalRead inp (SYNC_PIN cfg ! i)) :: byte) \<noteq> lastSync s ! i
                \<and> uint (word_of_int (digitalRead inp (SYNC_PIN cfg ! i)) :: byte) = SYNC_TRIGGER cfg
              then 0 else accumulator s ! i)
       \<and> lastSync (sync_loop cfg inp 0 s) ! i = word_of_int (digitalRead inp (SYNC_PIN cfg ! i))
       \<and> accumulatorA (sync2 cfg2 inp2 d)
           = (if SYNC cfg2
                \<and> (word_of_int (digitalRead inp2 (SYNC1_PIN cfg2)) :: byte) \<noteq> lastSYNC1 d
                \<and> uint (word_of_int (digitalRead inp2 (SYNC1_PIN cfg2)) :: byte) = SYNC1_TRIGGER cfg2
              then 0 else accumulatorA d)
       \<and> accumulatorB (sync2 cfg2 inp2 d)
           = (if SYNC cfg2 \<and> SYNC_COMMON cfg2
                \<and> (word_of_int (digitalRead inp2 (SYNC1_PIN cfg2)) :: byte) \<noteq> lastSYNC1 d
                \<and> uint (word_of_int (digitalRead inp2 (SYNC1_PIN cfg2)) :: byte) = SYNC1_TRIGGER cfg2
              then 0
              else if SYNC cfg2 \<and> \<not> SYNC_COMMON cfg2
                \<and> (word_of_int (digitalRead inp2 (SYNC2_PIN cfg2)) :: byte) \<noteq> lastSYNC2 d
                \<and> uint (word_of_int (digitalRead inp2 (SYNC2_PIN cfg2)) :: byte) = SYNC2_TRIGGER cfg2
              then 0 else accumulatorB d)
       \<and> lastSYNC1 (sync2 cfg2 inp2 d)
           = (if SYNC cfg2 then word_of_int (digitalRead inp2 (SYNC1_PIN cfg2)) else lastSYNC1 d)
       \<and> lastSYNC2 (sync2 cfg2 inp2 d)
           = (if SYNC cfg2 \<and> \<not> SYNC_COMMON cfg2
              then word_of_int (digitalRead inp2 (SYNC2_PIN cfg2)) else lastSYNC2 d)"
  using sync_loop_channel [OF assms, of cfg inp] sync2_accumulators [of cfg2 inp2 d]
  by (simp only: simp_thms)

theorem sync_reset_witness:
  "quad_ok example_quad \<and> 0 < NUM_LFO
   \<and> accumulator example_quad ! 0 = 123456789
   \<and> accumulator (sync_loop example_settings example_inputs 0 example_quad) ! 0 = 0
   \<and> lastSync (sync_loop example_settings example_inputs 0 example_quad) ! 0 = 1
   \<and> accumulatorA example_dual = 4294967295 \<and> accumulatorB example_dual = 5
   \<and> accumulatorA (sync2 example_settings2 example_inputs2 example_dual) = 0
   \<and> accumulatorB (sync2 example_settings2 example_inputs2 example_dual) = 0
   \<and> lastSYNC1 (sync2 example_settings2 example_inputs2 example_dual) = 1
   \<and> lastSYNC2 (sync2 example_settings2 example_inputs2 example_dual) = 0"
proof -
  have ok: "quad_ok example_quad"
    by (simp add: quad_ok_def example_quad_def NUM_LFO_def)
  have lt: "0 < NUM_LFO"
    by (simp add: NUM_LFO_def)
  show ?thesis
    using ok lt
      sync_reset [OF ok lt, of example_settings example_inputs example_settings2
        example_inputs2 example_dual]
    by (simp add: example_quad_def example_dual_def example_settings_def
        example_settings2_def example_inputs_def example_inputs2_def SYNC_PIN_def)
qed

section \<open>The tick counters\<close>

lemma lfo_tick_counters [simp]:
  "tickCounter (lfo_tick pgm i s) = tickCounter s"
  "fourMilliCounter (lfo_tick pgm i s) = fourMilliCounter s"
  by (simp_all add: lfo_tick_def Let_def)

lemma tick_count_counters:
  "tickCounter (tick_count s) = (if tickCounter s = 125 then 0 else tickCounter s + 1)"
  "fourMilliCounter (tick_count s)
     = (if tickCounter s = 125 then fourMilliCounter s + 1 else fourMilliCounter s)"
  by (simp_all add: tick_count_def Let_def)

lemma ISR_counters:
  "tickCounter (ISR pgm s) = (if tickCounter s = 125 then 0 else tickCounter s + 1)"
  "fourMilliCounter (ISR pgm s)
     = (if tickCounter s = 125 then fourMilliCounter s + 1 else fourMilliCounter s)"
  by (simp_all add: ISR_def isr_loop_unroll tick_count_counters)

lemma ISR2_counters:
  "tickCounter (ISR2 pgm s) = (if tickCounter s = 125 then 0 else tickCounter s + 1)"
  "fourMilliCounter (ISR2 pgm s)
     = (if tickCounter s = 125 then fourMilliCounter s + 1 else fourMilliCounter s)"
  by (simp_all add: ISR2_def Let_def tick_count_counters)

lemma byte_of_nat_neq_125: "k < 125 \<Longrightarrow> (of_nat k :: byte) \<noteq> 125"
proof
  assume k: "k < 125" and "(of_nat k :: byte) = 125"
  then have "unat (of_nat k :: byte) = unat (125 :: byte)"
    by simp
  with k show False
    by (simp add: unat_of_nat)
qed

lemma ISR_ticks_below:
  "tickCounter s = 0 \<Longrightarrow> k \<le> 125 \<Longrightarrow>
     tickCounter ((ISR pgm ^^ k) s) = of_nat k
     \<and> fourMilliCounter ((ISR pgm ^^ k) s) = fourMilliCounter s"
proof (induction k)
  case 0
  then show ?case by simp
next
  case (Suc k)
  then have "k < 125" by simp
  with Suc show ?case
    by (simp add: ISR_counters byte_of_nat_neq_125)
qed

lemma ISR_ticks_126:
  assumes "tickCounter s = 0"
  shows "tickCounter ((ISR pgm ^^ 126) s) = 0
     \<and> fourMilliCounter ((ISR pgm ^^ 126) s) = fourMilliCounter s + 1"
proof -
  have "(ISR pgm ^^ 126) s = ISR pgm ((ISR pgm ^^ 125) s)"
    by (simp add: numeral_eq_Suc)
  then show ?thesis
    using ISR_ticks_below [OF assms, of 125 pgm] by (simp add: ISR_counters)
qed

lemma ISR2_ticks_below:
  "tickCounter s = 0 \<Longrightarrow> k \<le> 125 \<Longrightarrow>
     tickCounter ((ISR2 pgm ^^ k) s) = of_nat k
     \<and> fourMilliCounter ((ISR2 pgm ^^ k) s) = fourMilliCounter s"
proof (induction k)
  case 0
  then show ?case by simp
next
  case (Suc k)
  then have "k < 125" by simp
  with Suc show ?case
    by (simp add: ISR2_counters byte_of_nat_neq_125)
qed

lemma ISR2_ticks_126:
  assumes "tickCounter s = 0"
  shows "tickCounter ((ISR2 pgm ^^ 126) s) = 0
     \<and> fourMilliCounter ((ISR2 pgm ^^ 126) s) = fourMilliCounter s + 1"
proof -
  have "(ISR2 pgm ^^ 126) s = ISR2 pgm ((ISR2 pgm ^^ 125) s)"
    by (simp add: numeral_eq_Suc)
  then show ?thesis
    using ISR2_ticks_below [OF assms, of 125 pgm] by (simp add: ISR2_counters)
qed

lemma sync2_fourMilli [simp]: "fourMilliCounter (sync2 cfg inp s) = fourMilliCounter s"
  by (simp add: sync2_def Let_def)

lemma loop_not_due:
  "fourMilliCounter s \<le> 25 \<Longrightarrow>
     loop cfg inp s = Inr (if SYNC cfg then sync_loop cfg inp 0 s else s)"
  by (simp add: loop_def Let_def not_less [symmetric])

lemma loop2_not_due:
  "fourMilliCounter s \<le> 25 \<Longrightarrow> loop2 cfg inp s = Inr (sync2 cfg inp s)"
  by (simp add: loop2_def Let_def not_less [symmetric])

text \<open>
  Claim C4. The tick counter is compared with 125 before it is incremented, so it runs
  through 0, 1, ..., 125 and is reset on the tick after it has reached 125: starting
  from 0, 125 ticks leave the slow-tick counter as it was and the tick counter at 125;
  the 126th tick resets it and advances the slow-tick counter. The polling loop runs the
  controls only when the slow-tick counter exceeds 25: at 25 it runs the sync block alone.
\<close>

theorem slow_tick_every_126_ticks:
  "tickCounter ((ISR2 example_pgm ^^ 125) (example_dual\<lparr>fourMilliCounter := 0\<rparr>)) = 125
   \<and> fourMilliCounter ((ISR2 example_pgm ^^ 125) (example_dual\<lparr>fourMilliCounter := 0\<rparr>)) = 0
   \<and> tickCounter ((ISR2 example_pgm ^^ 126) (example_dual\<lparr>fourMilliCounter := 0\<rparr>)) = 0
   \<and> fourMilliCounter ((ISR2 example_pgm ^^ 126) (example_dual\<lparr>fourMilliCounter := 0\<rparr>)) = 1
   \<and> tickCounter ((ISR example_pgm ^^ 125) (example_quad\<lparr>fourMilliCounter := 0\<rparr>)) = 125
   \<and> fourMilliCounter ((ISR example_pgm ^^ 125) (example_quad\<lparr>fourMilliCounter := 0\<rparr>)) = 0
   \<and> fourMilliCounter ((ISR example_pgm ^^ 126) (example_quad\<lparr>fourMilliCounter := 0\<rparr>)) = 1
   \<and> loop2 example_settings2 example_inputs2 (example_dual\<lparr>fourMilliCounter := 25\<rparr>)
       = Inr (sync2 example_settings2 example_inputs2 (example_dual\<lparr>fourMilliCounter := 25\<rparr>))
   \<and> loop example_settings example_inputs (example_quad\<lparr>fourMilliCounter := 25\<rparr>)
       = Inr (sync_loop example_settings example_inputs 0
                (example_quad\<lparr>fourMilliCounter := 25\<rparr>))"
proof -
  have d: "tickCounter (example_dual\<lparr>fourMilliCounter := 0\<rparr>) = 0"
    and q: "tickCounter (example_quad\<lparr>fourMilliCounter := 0\<rparr>) = 0"
    by (simp_all add: example_dual_def example_quad_def)
  show ?thesis
    using ISR2_ticks_below [OF d, of 125 example_pgm] ISR2_ticks_126 [OF d, of example_pgm]
      ISR_ticks_below [OF q, of 125 example_pgm] ISR_ticks_126 [OF q, of example_pgm]
    by (simp add: loop2_not_due loop_not_due example_settings_def)
qed

section \<open>The wave switch\<close>

lemma NUM_WAVES_9: "NUM_WAVES = 9"
  by (simp add: NUM_WAVES_def waveTable_def)

lemma unat_next_wave: "unat (next_wave n) = (unat n + 1) mod NUM_WAVES"
proof -
  have "(unat n + 1) mod NUM_WAVES < 9"
    by (simp add: NUM_WAVES_9)
  then show ?thesis
    by (simp add: next_wave_def unat_of_nat)
qed

lemma next_wave_less: "unat (next_wave n) < NUM_WAVES"
  by (simp add: unat_next_wave NUM_WAVES_9)

lemma unat_next_wave_funpow:
  "unat n < NUM_WAVES \<Longrightarrow> unat ((next_wave ^^ k) n) = (unat n + k) mod NUM_WAVES"
proof (induction k)
  case 0
  then show ?case by simp
next
  case (Suc k)
  then show ?case
    by (simp add: unat_next_wave mod_simps)
qed

lemma next_wave_cycle: "unat n < NUM_WAVES \<Longrightarrow> (next_wave ^^ NUM_WAVES) n = n"
  by (simp add: word_unat_eq_iff unat_next_wave_funpow)

lemma wave_select_eq:
  assumes "quad_ok s" and "i < NUM_LFO" and "length (waveCtrl inp) = NUM_LFO"
  shows "wave_select inp i s
     = Inr (if snd (waveCtrl inp ! i) \<and> fst (waveCtrl inp ! i) = 1
            then s\<lparr>pinState := 1,
                   waveNum := (waveNum s)[i := next_wave (waveNum s ! i)],
                   waveform := (waveform s)[i := waveTable ! unat (next_wave (waveNum s ! i))]\<rparr>
            else s\<lparr>pinState := fst (waveCtrl inp ! i)\<rparr>)"
  using assms by (simp add: wave_select_def quad_ok_def Let_def)

lemma wave_switch_eq:
  "wave_switch1 inp d
     = (if snd (LFO1_WaveSwitch inp) \<and> fst (LFO1_WaveSwitch inp) = 1
        then d\<lparr>pinState := 1, LFO1_WaveNum := next_wave (LFO1_WaveNum d),
               LFO1_WaveTable := waveTables ! unat (next_wave (LFO1_WaveNum d))\<rparr>
        else d\<lparr>pinState := fst (LFO1_WaveSwitch inp)\<rparr>)"
  "wave_switch2 inp d
     = (if snd (LFO2_WaveSwitch inp) \<and> fst (LFO2_WaveSwitch inp) = 1
        then d\<lparr>pinState := 1, LFO2_WaveNum := next_wave (LFO2_WaveNum d),
               LFO2_WaveTable := waveTables ! unat (next_wave (LFO2_WaveNum d))\<rparr>
        else d\<lparr>pinState := fst (LFO2_WaveSwitch inp)\<rparr>)"
  by (simp_all add: wave_switch1_def wave_switch2_def Let_def)

lemma wave_ok_boot: "wave_ok (boot cfg inp) \<and> quad_ok (boot cfg inp)"
  by (simp add: wave_ok_def quad_ok_def boot_def NUM_WAVES_9 NUM_LFO_def SYNC_PIN_def)

lemma wave_ok_press:
  assumes "quad_ok s" and "wave_ok s" and "i < NUM_LFO"
  shows "wave_ok (s\<lparr>pinState := p,
                   waveNum := (waveNum s)[i := next_wave (waveNum s ! i)],
                   waveform := (waveform s)[i := waveTable ! unat (next_wave (waveNum s ! i))]\<rparr>)"
  using assms
  by (auto simp: wave_ok_def quad_ok_def list_all_length nth_list_update next_wave_less
      map_update)

lemma wave_select_ok:
  assumes "quad_ok s" and "wave_ok s" and "i < NUM_LFO" and "length (waveCtrl inp) = NUM_LFO"
  shows "\<exists>s'. wave_select inp i s = Inr s' \<and> wave_ok s' \<and> quad_ok s'"
proof (cases "snd (waveCtrl inp ! i) \<and> fst (waveCtrl inp ! i) = 1")
  case True
  then show ?thesis
    using wave_ok_press [OF assms(1-3), of 1] assms(1)
    by (simp add: wave_select_eq [OF assms(1,3,4)] quad_ok_def)
next
  case False
  then show ?thesis
    using assms(1,2)
    by (auto simp: wave_select_eq [OF assms(1,3,4)] quad_ok_def wave_ok_def)
qed

lemma freq_update_waves:
  "freq_update cfg inp i s = Inr s' \<Longrightarrow>
     waveNum s' = waveNum s \<and> waveform s' = waveform s \<and> quad_ok s' = quad_ok s"
  by (auto simp: freq_update_def quad_ok_def split: if_splits sum.splits)

lemma update_lfo_ok:
  assumes "quad_ok s" and "wave_ok s" and "i < NUM_LFO" and "length (waveCtrl inp) = NUM_LFO"
    and "update_lfo cfg inp i s = Inr s'"
  shows "wave_ok s' \<and> quad_ok s'"
proof -
  obtain s1 where s1: "wave_select inp i s = Inr s1" "wave_ok s1" "quad_ok s1"
    using wave_select_ok [OF assms(1-4)] by blast
  then have "freq_update cfg inp i s1 = Inr s'"
    using assms(5) by (simp add: update_lfo_def)
  from freq_update_waves [OF this] s1 show ?thesis
    by (simp add: wave_ok_def)
qed

lemma wave_ok_ISR: "wave_ok (ISR pgm s) = wave_ok s"
  by (simp add: wave_ok_def ISR_def isr_loop_unroll)

lemma wave_ok_sync_loop: "wave_ok (sync_loop cfg inp 0 s) = wave_ok s"
  by (simp add: wave_ok_def sync_loop_unroll)

lemma wave_ok_nth:
  assumes "quad_ok s" and "wave_ok s" and "j < NUM_LFO"
  shows "unat (waveNum s ! j) < length waveTable
     \<and> waveform s ! j = waveTable ! unat (waveNum s ! j)"
  using assms by (simp add: wave_ok_def quad_ok_def list_all_length NUM_WAVES_def)

section \<open>Floating-point rounding\<close>

subsection \<open>Rounding to the nearest integer\<close>

lemma rne_cases: "rne x = \<lfloor>x\<rfloor> \<or> rne x = \<lfloor>x\<rfloor> + 1"
  by (simp add: rne_def Let_def)

lemma rne_near:
  assumes "\<bar>x - of_int m\<bar> < 1 / 2"
  shows "rne x = m"
proof (cases "of_int m \<le> x")
  case True
  then have "\<lfloor>x\<rfloor> = m"
    using assms by (intro floor_unique) auto
  then show ?thesis
    using assms True by (simp add: rne_def Let_def)
next
  case False
  then have "\<lfloor>x\<rfloor> = m - 1"
    using assms by (intro floor_unique) auto
  then show ?thesis
    using assms False by (simp add: rne_def Let_def)
qed

lemma rne_of_int [simp]: "rne (of_int m) = m"
  by (rule rne_near) simp

lemma rne_mono:
  assumes "x \<le> y"
  shows "rne x \<le> rne y"
proof -
  have fl: "\<lfloor>x\<rfloor> \<le> \<lfloor>y\<rfloor>"
    using assms by (rule floor_mono)
  show ?thesis
  proof (cases "\<lfloor>x\<rfloor> = \<lfloor>y\<rfloor>")
    case True
    then have "x - of_int \<lfloor>x\<rfloor> \<le> y - of_int \<lfloor>y\<rfloor>"
      using assms by simp
    then show ?thesis
      using True by (auto simp: rne_def Let_def)
  next
    case False
    then have "\<lfloor>x\<rfloor> + 1 \<le> \<lfloor>y\<rfloor>"
      using fl by simp
    moreover have "rne x \<le> \<lfloor>x\<rfloor> + 1" and "\<lfloor>y\<rfloor> \<le> rne y"
      using rne_cases [of x] rne_cases [of y] by auto
    ultimately show ?thesis
      by simp
  qed
qed

subsection \<open>The binary exponent\<close>

lemma bitlen_powi:
  assumes "0 < p"
  shows "(2 :: rat) powi (bitlen p - 1) \<le> of_int p \<and> of_int p < (2 :: rat) powi bitlen p"
proof -
  have b: "1 \<le> bitlen p"
    using assms bitlen_eq_zero_iff [of p] bitlen_nonneg [of p] by linarith
  have "2 ^ nat (bitlen p - 1) \<le> p" and "p < 2 ^ nat (bitlen p)"
    using bitlen_bounds [OF assms] by simp_all
  then have "(of_int (2 ^ nat (bitlen p - 1)) :: rat) \<le> of_int p"
    and "(of_int p :: rat) < of_int (2 ^ nat (bitlen p))"
    by (simp_all only: of_int_le_iff of_int_less_iff)
  moreover have "(2 :: rat) powi (bitlen p - 1) = 2 ^ nat (bitlen p - 1)"
    and "(2 :: rat) powi bitlen p = 2 ^ nat (bitlen p)"
    using b by (simp_all add: power_int_def)
  ultimately show ?thesis
    by simp
qed

lemma ilog2_bounds:
  assumes "0 < x"
  shows "2 powi ilog2 x \<le> x \<and> x < 2 powi (ilog2 x + 1)"
proof -
  obtain p q where pq: "quotient_of x = (p, q)"
    by (cases "quotient_of x")
  have q: "0 < q"
    using pq by (rule quotient_of_denom_pos)
  have x: "x = of_int p / of_int q"
    using pq by (rule quotient_of_div)
  have p: "0 < p"
    using assms q by (simp add: x zero_less_divide_iff)
  define e where "e = bitlen p - bitlen q"
  have bp: "(2 :: rat) powi (bitlen p - 1) \<le> of_int p" "of_int p < (2 :: rat) powi bitlen p"
    using bitlen_powi [OF p] by simp_all
  have bq: "(2 :: rat) powi (bitlen q - 1) \<le> of_int q" "of_int q < (2 :: rat) powi bitlen q"
    using bitlen_powi [OF q] by simp_all
  have q': "(0 :: rat) < of_int q"
    using q by simp
  have lo: "(2 :: rat) powi (e - 1) * of_int q \<le> of_int p"
  proof -
    have "(2 :: rat) powi (e - 1) * of_int q \<le> 2 powi (e - 1) * 2 powi bitlen q"
      using bq(2) by (intro mult_left_mono) (simp_all add: less_imp_le)
    also have "\<dots> = 2 powi (bitlen p - 1)"
      by (simp add: e_def flip: power_int_add)
    finally show ?thesis
      using bp(1) by simp
  qed
  have hi: "of_int p < (2 :: rat) powi (e + 1) * of_int q"
  proof -
    have "of_int p < (2 :: rat) powi (e + 1) * 2 powi (bitlen q - 1)"
      using bp(2) by (simp add: e_def flip: power_int_add)
    also have "\<dots> \<le> 2 powi (e + 1) * of_int q"
      using bq(1) by (intro mult_left_mono) simp_all
    finally show ?thesis .
  qed
  show ?thesis
  proof (cases "of_int p < (2 :: rat) powi e * of_int q")
    case True
    then have i: "ilog2 x = e - 1"
      by (simp add: ilog2_def pq e_def Let_def)
    show ?thesis
      unfolding i using lo True q' by (simp add: x pos_le_divide_eq pos_divide_less_eq)
  next
    case False
    then have i: "ilog2 x = e"
      by (simp add: ilog2_def pq e_def Let_def)
    show ?thesis
      unfolding i using hi False q' by (simp add: x pos_le_divide_eq pos_divide_less_eq not_less)
  qed
qed

lemma ilog2_unique:
  assumes "0 < x" and "2 powi e \<le> x" and "x < 2 powi (e + 1)"
  shows "ilog2 x = e"
proof -
  have "(2 :: rat) powi ilog2 x < 2 powi (e + 1)"
    using ilog2_bounds [OF assms(1)] assms(3) by linarith
  then have a: "ilog2 x < e + 1"
    by (metis power_int_increasing not_le one_le_numeral)
  have "(2 :: rat) powi e < 2 powi (ilog2 x + 1)"
    using ilog2_bounds [OF assms(1)] assms(2) by linarith
  then have b: "e < ilog2 x + 1"
    by (metis power_int_increasing not_le one_le_numeral)
  from a b show ?thesis
    by simp
qed

lemma ilog2_mono:
  assumes "0 < x" and "x \<le> y"
  shows "ilog2 x \<le> ilog2 y"
proof -
  have y: "0 < y"
    using assms by simp
  have "(2 :: rat) powi ilog2 x < 2 powi (ilog2 y + 1)"
    using ilog2_bounds [OF assms(1)] ilog2_bounds [OF y] assms(2) by linarith
  then have "ilog2 x < ilog2 y + 1"
    by (metis power_int_increasing not_le one_le_numeral)
  then show ?thesis
    by simp
qed

subsection \<open>Rounding to the 32-bit format\<close>

lemma fl_0 [simp]: "fl 0 = 0"
  by (simp add: fl_def)

lemma fl_minus: "fl (- x) = - fl x"
  by (simp add: fl_def Let_def)

lemma fl_pos:
  assumes "0 < x"
  shows "fl x = of_int (rne (x / 2 powi (max (ilog2 x) (- 126) - 23)))
                  * 2 powi (max (ilog2 x) (- 126) - 23)"
  using assms by (simp add: fl_def Let_def)

lemma rne_nonneg: "0 \<le> x \<Longrightarrow> 0 \<le> rne x"
  using rne_mono [of 0 x] rne_of_int [of 0] by simp

lemma fl_nonneg:
  assumes "0 \<le> x"
  shows "0 \<le> fl x"
proof (cases "x = 0")
  case True
  then show ?thesis by simp
next
  case False
  then have x: "0 < x"
    using assms by simp
  have "0 \<le> rne (x / 2 powi (max (ilog2 x) (- 126) - 23))"
    using x by (intro rne_nonneg) simp
  then show ?thesis
    by (simp add: fl_pos [OF x])
qed

lemma fl_near:
  assumes "- 126 \<le> e" and "2 powi e \<le> x" and "x < 2 powi (e + 1)"
    and "\<bar>x * 2 powi (23 - e) - of_int m\<bar> < 1 / 2"
  shows "fl x = of_int m * 2 powi (e - 23)"
proof -
  have "(0 :: rat) < 2 powi e"
    by (simp add: zero_less_power_int)
  then have x: "0 < x"
    using assms(2) by linarith
  have i: "ilog2 x = e"
    by (rule ilog2_unique [OF x assms(2,3)])
  have "x / 2 powi (e - 23) = x * 2 powi (23 - e)"
    using power_int_minus [of "2 :: rat" "e - 23"] by (simp add: divide_inverse)
  then have "rne (x / 2 powi (e - 23)) = m"
    using assms(4) by (simp add: rne_near)
  then show ?thesis
    using assms(1) by (simp add: fl_pos [OF x] i max_def)
qed

lemma fl_mono_pos:
  assumes "0 < x" and "x \<le> y"
  shows "fl x \<le> fl y"
proof -
  have y: "0 < y"
    using assms by simp
  define ex ey where "ex = max (ilog2 x) (- 126)" and "ey = max (ilog2 y) (- 126)"
  have fx: "fl x = of_int (rne (x / 2 powi (ex - 23))) * 2 powi (ex - 23)"
    and fy: "fl y = of_int (rne (y / 2 powi (ey - 23))) * 2 powi (ey - 23)"
    by (simp_all add: fl_pos assms(1) y ex_def ey_def)
  have pos: "\<And>k. (0 :: rat) < 2 powi k"
    by (simp add: zero_less_power_int)
  have le: "ex \<le> ey"
    using ilog2_mono [OF assms] by (simp add: ex_def ey_def)
  show ?thesis
  proof (cases "ex = ey")
    case True
    have "x / 2 powi (ey - 23) \<le> y / 2 powi (ey - 23)"
      using assms(2) pos by (simp add: divide_right_mono less_imp_le)
    then have "rne (x / 2 powi (ey - 23)) \<le> rne (y / 2 powi (ey - 23))"
      by (rule rne_mono)
    then show ?thesis
      using pos [of "ey - 23"] by (simp add: fx fy True)
  next
    case False
    then have lt: "ex < ey"
      using le by simp
    then have iy: "ilog2 y = ey"
      by (simp add: ex_def ey_def max_def split: if_splits)
    have "of_int (2 ^ 23) = (2 :: rat) powi ey / 2 powi (ey - 23)"
      by (simp add: power_int_diff)
    also have "\<dots> \<le> y / 2 powi (ey - 23)"
      using ilog2_bounds [OF y] pos by (simp add: iy divide_right_mono less_imp_le)
    finally have "rne (of_int (2 ^ 23)) \<le> rne (y / 2 powi (ey - 23))"
      by (rule rne_mono)
    then have "(of_int (2 ^ 23) :: rat) \<le> of_int (rne (y / 2 powi (ey - 23)))"
      by (simp only: rne_of_int of_int_le_iff)
    then have "of_int (2 ^ 23) * 2 powi (ey - 23) \<le> fl y"
      using pos [of "ey - 23"] by (simp add: fy)
    moreover have "of_int (2 ^ 23) * (2 :: rat) powi (ey - 23) = 2 powi ey"
      by (simp add: power_int_diff)
    ultimately have low: "2 powi ey \<le> fl y"
      by simp
    have "ilog2 x \<le> ex"
      by (simp add: ex_def)
    then have "(2 :: rat) powi (ilog2 x + 1) \<le> 2 powi (ex + 1)"
      by (intro power_int_increasing) simp_all
    then have "x < 2 powi (ex + 1)"
      using ilog2_bounds [OF assms(1)] by linarith
    then have "x / 2 powi (ex - 23) \<le> 2 powi (ex + 1) / 2 powi (ex - 23)"
      using pos by (simp add: divide_right_mono less_imp_le)
    also have "\<dots> = of_int (2 ^ 24)"
      by (simp add: power_int_diff power_int_add)
    finally have "rne (x / 2 powi (ex - 23)) \<le> rne (of_int (2 ^ 24))"
      by (rule rne_mono)
    then have "(of_int (rne (x / 2 powi (ex - 23))) :: rat) \<le> of_int (2 ^ 24)"
      by (simp only: rne_of_int of_int_le_iff)
    then have "fl x \<le> of_int (2 ^ 24) * 2 powi (ex - 23)"
      using pos [of "ex - 23"] by (simp add: fx)
    moreover have "of_int (2 ^ 24) * (2 :: rat) powi (ex - 23) = 2 powi (ex + 1)"
      by (simp add: power_int_diff power_int_add)
    moreover have "(2 :: rat) powi (ex + 1) \<le> 2 powi ey"
      using lt by (intro power_int_increasing) simp_all
    ultimately show ?thesis
      using low by linarith
  qed
qed

lemma fl_mono:
  assumes "x \<le> y"
  shows "fl x \<le> fl y"
proof -
  consider "0 < x" | "x \<le> 0" "0 \<le> y" | "y < 0"
    by linarith
  then show ?thesis
  proof cases
    case 1
    then show ?thesis
      using assms by (rule fl_mono_pos)
  next
    case 2
    have "fl x = - fl (- x)"
      by (simp add: fl_minus)
    moreover have "0 \<le> fl (- x)" and "0 \<le> fl y"
      using 2 by (simp_all add: fl_nonneg)
    ultimately show ?thesis
      by simp
  next
    case 3
    then have "fl (- y) \<le> fl (- x)"
      using assms by (intro fl_mono_pos) simp_all
    then show ?thesis
      by (simp add: fl_minus)
  qed
qed

subsection \<open>Rounding error and exact integers\<close>

lemma rne_err: "\<bar>of_int (rne x) - x\<bar> \<le> 1 / 2"
proof -
  have "of_int \<lfloor>x\<rfloor> \<le> x" and "x < of_int \<lfloor>x\<rfloor> + 1"
    by linarith+
  then show ?thesis
    by (auto simp: rne_def Let_def abs_le_iff)
qed

lemma fl_abs_err:
  assumes "- 126 \<le> E" and "\<bar>x\<bar> < 2 powi (E + 1)"
  shows "\<bar>fl x - x\<bar> \<le> 2 powi (E - 24)"
proof -
  have pos_case: "\<bar>fl y - y\<bar> \<le> 2 powi (E - 24)" if y: "0 < y" "y < 2 powi (E + 1)" for y
  proof -
    define e where "e = max (ilog2 y) (- 126)"
    define u :: rat where "u = 2 powi (e - 23)"
    have u: "0 < u"
      by (simp add: u_def zero_less_power_int)
    have "(2 :: rat) powi ilog2 y < 2 powi (E + 1)"
      using ilog2_bounds [OF y(1)] y(2) by linarith
    then have "ilog2 y < E + 1"
      by (metis power_int_increasing not_le one_le_numeral)
    then have eE: "e \<le> E"
      using assms(1) by (simp add: e_def)
    have f: "fl y = of_int (rne (y / u)) * u"
      by (simp add: fl_pos [OF y(1)] e_def u_def)
    have "fl y - y = (of_int (rne (y / u)) - y / u) * u"
      using u by (simp add: f algebra_simps)
    then have "\<bar>fl y - y\<bar> = \<bar>of_int (rne (y / u)) - y / u\<bar> * u"
      using u by (simp add: abs_mult)
    also have "\<dots> \<le> 1 / 2 * u"
      using u rne_err [of "y / u"] by (intro mult_right_mono) simp_all
    also have "\<dots> = 2 powi (e - 24)"
      by (simp add: u_def power_int_diff)
    also have "\<dots> \<le> 2 powi (E - 24)"
      using eE by (intro power_int_increasing) simp_all
    finally show ?thesis .
  qed
  consider "x = 0" | "0 < x" | "x < 0"
    by linarith
  then show ?thesis
  proof cases
    case 1
    then show ?thesis
      by (simp add: zero_less_power_int less_imp_le)
  next
    case 2
    then show ?thesis
      using assms(2) by (intro pos_case) simp_all
  next
    case 3
    then have "\<bar>fl (- x) - (- x)\<bar> \<le> 2 powi (E - 24)"
      using assms(2) by (intro pos_case) simp_all
    then show ?thesis
      by (simp add: fl_minus abs_minus_commute)
  qed
qed

lemma fl_of_int_exact:
  assumes "0 \<le> r" and "r < 2 ^ 24"
  shows "fl (of_int r) = of_int r"
proof (cases "r = 0")
  case True
  then show ?thesis by simp
next
  case False
  then have r: "(0 :: rat) < of_int r" "(1 :: rat) \<le> of_int r"
    using assms(1) by simp_all
  define e where "e = ilog2 (of_int r)"
  have b: "2 powi e \<le> (of_int r :: rat)" "(of_int r :: rat) < 2 powi (e + 1)"
    using ilog2_bounds [OF r(1)] by (simp_all add: e_def)
  have "(2 :: rat) powi 0 < 2 powi (e + 1)"
    using b(2) r(2) by simp
  then have "0 < e + 1"
    by (metis power_int_increasing not_le one_le_numeral)
  then have e0: "0 \<le> e"
    by simp
  have "(of_int r :: rat) < of_int (2 ^ 24)"
    using assms(2) by (simp only: of_int_less_iff)
  then have "(2 :: rat) powi e < 2 powi 24"
    using b(1) by simp
  then have "e < 24"
    by (metis power_int_increasing not_le one_le_numeral)
  then have e1: "0 \<le> 23 - e"
    by simp
  have p: "(2 :: rat) powi (23 - e) = of_int (2 ^ nat (23 - e))"
    using e1 by (simp add: power_int_def)
  have q: "(2 :: rat) powi (e - 23) * 2 powi (23 - e) = 1"
    by (simp flip: power_int_add)
  have "fl (of_int r) = of_int (r * 2 ^ nat (23 - e)) * 2 powi (e - 23)"
    using e0 b by (intro fl_near) (simp_all add: p)
  also have "\<dots> = of_int r * (2 powi (e - 23) * 2 powi (23 - e))"
    by (simp add: p)
  finally show ?thesis
    by (simp add: q)
qed

section \<open>The tuning word\<close>

subsection \<open>Constants of the tuning expression\<close>

lemma clock_val: "clock = 16062745 / 512"
  unfolding clock_def by (rule fl_near [where e = 14 and m = 16062745, THEN trans]) simp_all

lemma fl_1023: "fl 1023 = 1023"
  by (rule fl_near [where e = 9 and m = 16760832, THEN trans]) simp_all

lemma fl_POW2TO32: "fl (of_int POW2TO32) = 4294967296"
  unfolding POW2TO32_def by (rule fl_near [where e = 32 and m = 8388608, THEN trans]) simp_all

lemma fl_tenth: "fl (1 / 10) = 13421773 / 134217728"
  by (rule fl_near [where e = "- 4" and m = 13421773, THEN trans]) simp_all

lemma fl_10: "fl 10 = 10"
  by (rule fl_near [where e = 3 and m = 10485760, THEN trans]) simp_all

lemma example_range: "fl (1328755507 / 134217728) = 5190451 / 524288"
  by (rule fl_near [where e = 3 and m = 10380902, THEN trans]) simp_all

lemma example_min: "fl (13421773 / 134217728) = 13421773 / 134217728"
  by (rule fl_near [where e = "- 4" and m = 13421773, THEN trans]) simp_all

lemma finite32_simps [simp]:
  "finite32 0" "finite32 10" "finite32 (2592691 / 256)" "finite32 (5190451 / 524288)"
  "finite32 (10952167 / 34359738368)" "finite32 (10952167 / 8)"
  "finite32 (13421773 / 134217728)" "finite32 (7009387 / 2199023255552)"
  "finite32 (7009387 / 512)"
  by (simp_all add: finite32_def)

lemma tuning_double_1023:
  "tuning_double (5190451 / 524288) (13421773 / 134217728) 1023 = Some (10952167 / 8)"
proof -
  have a: "fl (5309831373 / 524288) = 2592691 / 256"
    by (rule fl_near [where e = 13 and m = 10370764, THEN trans]) simp_all
  have b: "fl (2592691 / 261888) = 5190451 / 524288"
    by (rule fl_near [where e = 3 and m = 10380902, THEN trans]) simp_all
  have c: "fl (1342177229 / 134217728) = 10"
    by (rule fl_near [where e = 3 and m = 10485760, THEN trans]) simp_all
  have d: "fl (1024 / 3212549) = 10952167 / 34359738368"
    by (rule fl_near [where e = "- 12" and m = 10952167, THEN trans]) simp_all
  have e: "fl (10952167 / 8) = 10952167 / 8"
    by (rule fl_near [where e = 20 and m = 10952167, THEN trans]) simp_all
  show ?thesis
    by (simp add: tuning_double_def Let_def fl_1023 fl_POW2TO32 clock_val a b c d e)
qed

lemma tuning_double_0:
  "tuning_double (5190451 / 524288) (13421773 / 134217728) 0 = Some (7009387 / 512)"
proof -
  have d: "fl (13421773 / 4210752225280) = 7009387 / 2199023255552"
    by (rule fl_near [where e = "- 19" and m = 14018774, THEN trans]) simp_all
  have e: "fl (7009387 / 512) = 7009387 / 512"
    by (rule fl_near [where e = 13 and m = 14018774, THEN trans]) simp_all
  show ?thesis
    by (simp add: tuning_double_def Let_def fl_1023 fl_POW2TO32 clock_val example_min d e)
qed

lemma tuning_1023: "tuning (5190451 / 524288) (13421773 / 134217728) 1023 = Inr 1369020"
proof -
  have "\<lfloor>10952167 / 8 :: rat\<rfloor> = 1369020"
    by (rule floor_unique) simp_all
  then show ?thesis
    by (simp add: tuning_def tuning_double_1023 to_ulong_def)
qed

lemma tuning_0: "tuning (5190451 / 524288) (13421773 / 134217728) 0 = Inr 13690"
proof -
  have "\<lfloor>7009387 / 512 :: rat\<rfloor> = 13690"
    by (rule floor_unique) simp_all
  then show ?thesis
    by (simp add: tuning_def tuning_double_0 to_ulong_def)
qed

subsection \<open>Configurations whose values do not fit the tuning word\<close>

lemma fl_333: "fl (333 / 1000) = 5586813 / 16777216"
  by (rule fl_near [where e = "- 2" and m = 11173626, THEN trans]) simp_all

lemma fl_clock: "fl (31372549 / 1000) = 16062745 / 512"
  using clock_val by (simp add: clock_def)

lemma wide_range: "fl (526338441347 / 16777216) = 16062575 / 512"
  by (rule fl_near [where e = 14 and m = 16062575, THEN trans]) simp_all

lemma fl_1022: "fl 1022 = 1022"
  by (rule fl_near [where e = 9 and m = 16744448, THEN trans]) simp_all

lemma tuning_double_wide_1022:
  "tuning_double (16062575 / 512) (5586813 / 16777216) 1022 = Some 4290769152"
proof -
  have a: "fl (8207975825 / 256) = 32062406"
    by (rule fl_near [where e = 24 and m = 16031203, THEN trans]) simp_all
  have b: "fl (32062406 / 1023) = 8023437 / 256"
    by (rule fl_near [where e = 14 and m = 16046874, THEN trans]) simp_all
  have c: "fl (525829554045 / 16777216) = 4011761 / 128"
    by (rule fl_near [where e = 14 and m = 16047044, THEN trans]) simp_all
  have d: "fl (16047044 / 16062745) = 16760817 / 16777216"
    by (rule fl_near [where e = "- 1" and m = 16760817, THEN trans]) simp_all
  have e: "fl 4290769152 = 4290769152"
    by (rule fl_near [where e = 31 and m = 16760817, THEN trans]) simp_all
  show ?thesis
    by (simp add: tuning_double_def Let_def fl_1022 fl_1023 fl_POW2TO32 clock_val a b c d e
        finite32_def)
qed

lemma tuning_double_wide_1023:
  "tuning_double (16062575 / 512) (5586813 / 16777216) 1023 = Some 4294967296"
proof -
  have a: "fl (16432014225 / 512) = 32093778"
    by (rule fl_near [where e = 24 and m = 16046889, THEN trans]) simp_all
  have b: "fl (10697926 / 341) = 16062575 / 512"
    by (rule fl_near [where e = 14 and m = 16062575, THEN trans]) simp_all
  have c: "fl (526344044413 / 16777216) = 16062745 / 512"
    by (rule fl_near [where e = 14 and m = 16062745, THEN trans]) simp_all
  have d: "fl 1 = 1"
    by (rule fl_near [where e = 0 and m = 8388608, THEN trans]) simp_all
  have e: "fl 4294967296 = 4294967296"
    using fl_POW2TO32 by (simp add: POW2TO32_def)
  show ?thesis
    by (simp add: tuning_double_def Let_def fl_1023 fl_POW2TO32 clock_val a b c d e
        finite32_def)
qed

lemma tuning_wide:
  "tuning (16062575 / 512) (5586813 / 16777216) 1022 = Inr 4290769152"
  "tuning (16062575 / 512) (5586813 / 16777216) 1023 = Inl FloatRange"
  by (simp_all add: tuning_def tuning_double_wide_1022 tuning_double_wide_1023 to_ulong_def)

lemma fl_40000: "fl 40000 = 40000"
  by (rule fl_near [where e = 15 and m = 10240000, THEN trans]) simp_all

lemma tuning_double_40000:
  "tuning_double 40000 0 1023 = Some 5476083200"
proof -
  have a: "fl 40920000 = 40920000"
    by (rule fl_near [where e = 25 and m = 10230000, THEN trans]) simp_all
  have d: "fl (4096000 / 3212549) = 10695475 / 8388608"
    by (rule fl_near [where e = 0 and m = 10695475, THEN trans]) simp_all
  have e: "fl 5476083200 = 5476083200"
    by (rule fl_near [where e = 32 and m = 10695475, THEN trans]) simp_all
  show ?thesis
    by (simp add: tuning_double_def Let_def fl_1023 fl_POW2TO32 clock_val a fl_40000 d e
        finite32_def)
qed

lemma tuning_40000: "tuning 40000 0 1023 = Inl FloatRange"
  by (simp add: tuning_def tuning_double_40000 to_ulong_def)

lemma fl_1: "fl 1 = 1"
  by (rule fl_near [where e = 0 and m = 8388608, THEN trans]) simp_all

lemma tuning_double_negative:
  "tuning_double 1 (- 1) 0 = Some (- (8761733 / 64))"
proof -
  have d: "fl (512 / 16062745) = 8761733 / 274877906944"
    by (rule fl_near [where e = "- 15" and m = 8761733, THEN trans]) simp_all
  have e: "fl (8761733 / 64) = 8761733 / 64"
    by (rule fl_near [where e = 17 and m = 8761733, THEN trans]) simp_all
  have d': "fl (- (512 / 16062745)) = - (8761733 / 274877906944)"
    by (simp only: fl_minus d)
  have e': "fl (- (8761733 / 64)) = - (8761733 / 64)"
    by (simp only: fl_minus e)
  show ?thesis
    using fl_minus [of 1]
    by (simp add: tuning_double_def Let_def fl_1023 fl_POW2TO32 clock_val fl_1 d' e'
        finite32_def)
qed

lemma tuning_negative: "tuning 1 (- 1) 0 = Inl FloatRange"
proof -
  have "\<lceil>- (8761733 / 64) :: rat\<rceil> = - 136902"
    by (rule ceiling_unique) simp_all
  then show ?thesis
    by (simp add: tuning_def tuning_double_negative to_ulong_def)
qed

subsection \<open>The tuning word grows with the reading\<close>

lemma tuning_double_Some:
  "tuning_double frange fmin r = Some e \<longleftrightarrow>
     e = fl (4294967296 * fl (fl (fl (fl (fl (of_int r) * frange) / 1023) + fmin) / clock))
     \<and> finite32 (fl (fl (of_int r) * frange))
     \<and> finite32 (fl (fl (fl (of_int r) * frange) / 1023))
     \<and> finite32 (fl (fl (fl (fl (of_int r) * frange) / 1023) + fmin))
     \<and> finite32 (fl (fl (fl (fl (fl (of_int r) * frange) / 1023) + fmin) / clock))
     \<and> finite32 e"
  by (auto simp: tuning_double_def Let_def fl_1023 fl_POW2TO32)

lemma clock_pos: "0 < clock"
  by (simp add: clock_val)

lemma tuning_steps_mono:
  assumes "0 \<le> frange" and "r1 \<le> r2"
  shows "fl (fl (of_int r1) * frange) \<le> fl (fl (of_int r2) * frange)"
    and "fl (fl (fl (of_int r1) * frange) / 1023) \<le> fl (fl (fl (of_int r2) * frange) / 1023)"
    and "fl (fl (fl (fl (of_int r1) * frange) / 1023) + fmin)
           \<le> fl (fl (fl (fl (of_int r2) * frange) / 1023) + fmin)"
    and "fl (fl (fl (fl (fl (of_int r1) * frange) / 1023) + fmin) / clock)
           \<le> fl (fl (fl (fl (fl (of_int r2) * frange) / 1023) + fmin) / clock)"
    and "fl (4294967296 * fl (fl (fl (fl (fl (of_int r1) * frange) / 1023) + fmin) / clock))
           \<le> fl (4294967296 * fl (fl (fl (fl (fl (of_int r2) * frange) / 1023) + fmin) / clock))"
proof -
  have "(of_int r1 :: rat) \<le> of_int r2"
    using assms(2) by simp
  then have "fl (of_int r1) \<le> fl (of_int r2)"
    by (rule fl_mono)
  then have "fl (of_int r1) * frange \<le> fl (of_int r2) * frange"
    using assms(1) by (rule mult_right_mono)
  then show a: "fl (fl (of_int r1) * frange) \<le> fl (fl (of_int r2) * frange)"
    by (rule fl_mono)
  then have "fl (fl (of_int r1) * frange) / 1023 \<le> fl (fl (of_int r2) * frange) / 1023"
    by (rule divide_right_mono) simp
  then show b: "fl (fl (fl (of_int r1) * frange) / 1023)
      \<le> fl (fl (fl (of_int r2) * frange) / 1023)"
    by (rule fl_mono)
  then have "fl (fl (fl (of_int r1) * frange) / 1023) + fmin
      \<le> fl (fl (fl (of_int r2) * frange) / 1023) + fmin"
    by (rule add_right_mono)
  then show c: "fl (fl (fl (fl (of_int r1) * frange) / 1023) + fmin)
      \<le> fl (fl (fl (fl (of_int r2) * frange) / 1023) + fmin)"
    by (rule fl_mono)
  then have "fl (fl (fl (fl (of_int r1) * frange) / 1023) + fmin) / clock
      \<le> fl (fl (fl (fl (of_int r2) * frange) / 1023) + fmin) / clock"
    using clock_pos by (intro divide_right_mono) simp_all
  then show d: "fl (fl (fl (fl (fl (of_int r1) * frange) / 1023) + fmin) / clock)
      \<le> fl (fl (fl (fl (fl (of_int r2) * frange) / 1023) + fmin) / clock)"
    by (rule fl_mono)
  then have "4294967296 * fl (fl (fl (fl (fl (of_int r1) * frange) / 1023) + fmin) / clock)
      \<le> 4294967296 * fl (fl (fl (fl (fl (of_int r2) * frange) / 1023) + fmin) / clock)"
    by (rule mult_left_mono) simp
  then show "fl (4294967296 * fl (fl (fl (fl (fl (of_int r1) * frange) / 1023) + fmin) / clock))
      \<le> fl (4294967296 * fl (fl (fl (fl (fl (of_int r2) * frange) / 1023) + fmin) / clock))"
    by (rule fl_mono)
qed

lemma tuning_steps_nonneg:
  assumes "0 \<le> frange" and "0 \<le> fmin" and "0 \<le> r"
  shows "0 \<le> fl (fl (of_int r) * frange)"
    and "0 \<le> fl (fl (fl (of_int r) * frange) / 1023)"
    and "0 \<le> fl (fl (fl (fl (of_int r) * frange) / 1023) + fmin)"
    and "0 \<le> fl (fl (fl (fl (fl (of_int r) * frange) / 1023) + fmin) / clock)"
    and "0 \<le> fl (4294967296 * fl (fl (fl (fl (fl (of_int r) * frange) / 1023) + fmin) / clock))"
proof -
  have "(0 :: rat) \<le> of_int r"
    using assms(3) by simp
  then have "0 \<le> fl (of_int r)"
    by (rule fl_nonneg)
  then have "0 \<le> fl (of_int r) * frange"
    using assms(1) by (rule mult_nonneg_nonneg)
  then show a: "0 \<le> fl (fl (of_int r) * frange)"
    by (rule fl_nonneg)
  then have "0 \<le> fl (fl (of_int r) * frange) / 1023"
    by simp
  then show b: "0 \<le> fl (fl (fl (of_int r) * frange) / 1023)"
    by (rule fl_nonneg)
  then have "0 \<le> fl (fl (fl (of_int r) * frange) / 1023) + fmin"
    using assms(2) by (rule add_nonneg_nonneg)
  then show c: "0 \<le> fl (fl (fl (fl (of_int r) * frange) / 1023) + fmin)"
    by (rule fl_nonneg)
  then have "0 \<le> fl (fl (fl (fl (of_int r) * frange) / 1023) + fmin) / clock"
    using clock_pos by (intro divide_nonneg_nonneg) simp_all
  then show d: "0 \<le> fl (fl (fl (fl (fl (of_int r) * frange) / 1023) + fmin) / clock)"
    by (rule fl_nonneg)
  then have "0 \<le> 4294967296 * fl (fl (fl (fl (fl (of_int r) * frange) / 1023) + fmin) / clock)"
    by simp
  then show "0 \<le> fl (4294967296 * fl (fl (fl (fl (fl (of_int r) * frange) / 1023) + fmin) / clock))"
    by (rule fl_nonneg)
qed

lemma finite32_between: "0 \<le> x \<Longrightarrow> x \<le> y \<Longrightarrow> finite32 y \<Longrightarrow> finite32 x"
  by (simp add: finite32_def)

lemma tuning_double_mono:
  assumes "0 \<le> frange" and "r1 \<le> r2"
    and "tuning_double frange fmin r1 = Some e1" and "tuning_double frange fmin r2 = Some e2"
  shows "e1 \<le> e2"
  using assms(3,4) tuning_steps_mono(5) [OF assms(1,2), where fmin = fmin]
  by (simp add: tuning_double_Some)

lemma tuning_double_defined:
  assumes "0 \<le> frange" and "0 \<le> fmin" and "0 \<le> r1" and "r1 \<le> r2"
    and "tuning_double frange fmin r2 = Some e2"
  shows "\<exists>e1. tuning_double frange fmin r1 = Some e1 \<and> 0 \<le> e1 \<and> e1 \<le> e2"
proof -
  note m = tuning_steps_mono [OF assms(1,4)]
  note n = tuning_steps_nonneg [OF assms(1-3)]
  note f = assms(5) [unfolded tuning_double_Some]
  have "finite32 (fl (fl (of_int r1) * frange))"
    using n(1) m(1) f by (blast intro: finite32_between)
  moreover have "finite32 (fl (fl (fl (of_int r1) * frange) / 1023))"
    using n(2) m(2) f by (blast intro: finite32_between)
  moreover have "finite32 (fl (fl (fl (fl (of_int r1) * frange) / 1023) + fmin))"
    using n(3) m(3) f by (blast intro: finite32_between)
  moreover have "finite32 (fl (fl (fl (fl (fl (of_int r1) * frange) / 1023) + fmin) / clock))"
    using n(4) m(4) f by (blast intro: finite32_between)
  moreover have "finite32 (fl (4294967296 *
      fl (fl (fl (fl (fl (of_int r1) * frange) / 1023) + fmin) / clock)))"
    using n(5) m(5) f by (blast intro: finite32_between)
  ultimately show ?thesis
    using n(5) m(5) f by (simp add: tuning_double_Some)
qed

subsection \<open>Conversion to the 32-bit word\<close>

lemma to_ulong_nonneg:
  assumes "0 \<le> x"
  shows "to_ulong x = Inr t \<longleftrightarrow> \<lfloor>x\<rfloor> < 2 ^ 32 \<and> t = word_of_int \<lfloor>x\<rfloor>"
  using assms by (auto simp: to_ulong_def Let_def)

lemma uint_to_ulong:
  assumes "to_ulong x = Inr t"
  shows "uint t = (if 0 \<le> x then \<lfloor>x\<rfloor> else \<lceil>x\<rceil>)"
proof -
  have "0 \<le> (if 0 \<le> x then \<lfloor>x\<rfloor> else \<lceil>x\<rceil>)" "(if 0 \<le> x then \<lfloor>x\<rfloor> else \<lceil>x\<rceil>) < 2 ^ 32"
    and "t = word_of_int (if 0 \<le> x then \<lfloor>x\<rfloor> else \<lceil>x\<rceil>)"
    using assms by (auto simp: to_ulong_def Let_def split: if_splits)
  then show ?thesis
    by (simp add: uint_word_of_int del: word_of_int_eq_0_iff)
qed

lemma to_ulong_mono:
  assumes "x \<le> y" and "to_ulong x = Inr t1" and "to_ulong y = Inr t2"
  shows "t1 \<le> t2"
proof -
  consider "0 \<le> x" | "x < 0" "0 \<le> y" | "y < 0"
    by linarith
  then have "(if 0 \<le> x then \<lfloor>x\<rfloor> else \<lceil>x\<rceil>) \<le> (if 0 \<le> y then \<lfloor>y\<rfloor> else \<lceil>y\<rceil>)"
  proof cases
    case 1
    then show ?thesis
      using assms(1) floor_mono [OF assms(1)] by simp
  next
    case 2
    have "\<lceil>x\<rceil> \<le> 0" and "0 \<le> \<lfloor>y\<rfloor>"
      using 2 by (simp_all add: ceiling_le_iff le_floor_iff)
    then have "\<lceil>x\<rceil> \<le> \<lfloor>y\<rfloor>"
      by linarith
    then show ?thesis
      using 2 by simp
  next
    case 3
    then show ?thesis
      using assms(1) ceiling_mono [OF assms(1)] by simp
  qed
  then show ?thesis
    using uint_to_ulong [OF assms(2)] uint_to_ulong [OF assms(3)]
    by (simp add: word_le_def)
qed

lemma tuning_mono:
  assumes "0 \<le> frange" and "r1 \<le> r2"
    and "tuning frange fmin r1 = Inr t1" and "tuning frange fmin r2 = Inr t2"
  shows "t1 \<le> t2"
proof -
  obtain e1 e2 where e: "tuning_double frange fmin r1 = Some e1" "to_ulong e1 = Inr t1"
      "tuning_double frange fmin r2 = Some e2" "to_ulong e2 = Inr t2"
    using assms(3,4) by (auto simp: tuning_def split: option.splits)
  have "e1 \<le> e2"
    by (rule tuning_double_mono [OF assms(1,2) e(1,3)])
  then show ?thesis
    using e(2,4) by (rule to_ulong_mono)
qed

lemma tuning_defined:
  assumes "0 \<le> frange" and "0 \<le> fmin" and "0 \<le> r1" and "r1 \<le> r2"
    and "tuning frange fmin r2 = Inr t2"
  shows "\<exists>t1. tuning frange fmin r1 = Inr t1"
proof -
  obtain e2 where e2: "tuning_double frange fmin r2 = Some e2" "to_ulong e2 = Inr t2"
    using assms(5) by (auto simp: tuning_def split: option.splits)
  obtain e1 where e1: "tuning_double frange fmin r1 = Some e1" "0 \<le> e1" "e1 \<le> e2"
    using tuning_double_defined [OF assms(1-4) e2(1)] by blast
  have "\<lfloor>e2\<rfloor> < 2 ^ 32"
    using e2(2) e1(2,3) by (simp add: to_ulong_nonneg)
  moreover have "\<lfloor>e1\<rfloor> \<le> \<lfloor>e2\<rfloor>"
    using e1(3) by (rule floor_mono)
  ultimately have "\<lfloor>e1\<rfloor> < 2 ^ 32"
    by linarith
  then have "to_ulong e1 = Inr (word_of_int \<lfloor>e1\<rfloor>)"
    using e1(2) by (simp only: to_ulong_nonneg simp_thms)
  then show ?thesis
    by (simp add: tuning_def e1(1))
qed

lemma range_nonneg: "fmin \<le> fmax \<Longrightarrow> 0 \<le> fl (fmax - fmin)"
  by (intro fl_nonneg) simp

subsection \<open>Frequencies below the tick rate\<close>

lemma tuning_double_fits:
  assumes "0 \<le> frange" and "0 \<le> fmin" and "fmin + frange \<le> 62745 / 2 + 1 / 1024"
  shows "\<exists>e. tuning_double frange fmin 1023 = Some e \<and> 0 \<le> e \<and> e < 4294967296"
proof -
  define a where "a = fl (1023 * frange)"
  define b where "b = fl (a / 1023)"
  define c where "c = fl (b + fmin)"
  define d where "d = fl (c * (512 / 16062745))"
  define e where "e = fl (4294967296 * d)"
  have n: "0 \<le> a" "0 \<le> b" "0 \<le> c" "0 \<le> d" "0 \<le> e"
    using tuning_steps_nonneg [OF assms(1,2), of 1023]
    by (simp_all add: a_def b_def c_def d_def e_def fl_1023 clock_val)
  have pw: "(2 :: rat) powi (24 - 24) = 1" "(2 :: rat) powi (14 - 24) = 1 / 1024"
    "(2 :: rat) powi (- 1 - 24) = 1 / 33554432" "(2 :: rat) powi (31 - 24) = 128"
    by (simp_all add: power_int_minus)
  have fr: "frange \<le> 62745 / 2 + 1 / 1024"
    using assms(2,3) by linarith
  have "\<bar>1023 * frange\<bar> < 2 powi (24 + 1)"
    using assms(1) fr by simp
  then have "\<bar>a - 1023 * frange\<bar> \<le> 2 powi (24 - 24)"
    unfolding a_def by (intro fl_abs_err) simp_all
  then have a: "a \<le> 1023 * frange + 1"
    unfolding pw by linarith
  have "\<bar>a / 1023\<bar> < 2 powi (14 + 1)"
    using n(1) a fr by simp
  then have "\<bar>b - a / 1023\<bar> \<le> 2 powi (14 - 24)"
    unfolding b_def by (intro fl_abs_err) simp_all
  then have b: "b \<le> a * (1 / 1023) + 1 / 1024"
    unfolding pw by linarith
  have "\<bar>b + fmin\<bar> < 2 powi (14 + 1)"
    using n(2) assms(2,3) a b by simp
  then have "\<bar>c - (b + fmin)\<bar> \<le> 2 powi (14 - 24)"
    unfolding c_def by (intro fl_abs_err) simp_all
  then have c: "c \<le> b + fmin + 1 / 1024"
    unfolding pw by linarith
  have "\<bar>c * (512 / 16062745)\<bar> < 2 powi (- 1 + 1)"
    using n(3) assms(3) a b c by simp
  then have "\<bar>d - c * (512 / 16062745)\<bar> \<le> 2 powi (- 1 - 24)"
    unfolding d_def by (intro fl_abs_err) simp_all
  then have d: "d \<le> c * (512 / 16062745) + 1 / 33554432"
    unfolding pw by linarith
  have "\<bar>4294967296 * d\<bar> < 2 powi (31 + 1)"
    using n(4) assms(3) a b c d by simp
  then have "\<bar>e - 4294967296 * d\<bar> \<le> 2 powi (31 - 24)"
    unfolding e_def by (intro fl_abs_err) simp_all
  then have e: "e \<le> 4294967296 * d + 128"
    unfolding pw by linarith
  have e32: "e < 4294967296"
    using assms(3) a b c d e by linarith
  have "finite32 a" "finite32 b" "finite32 c" "finite32 d" "finite32 e"
    using n assms(3) fr a b c d e by (simp_all add: finite32_def)
  then have "tuning_double frange fmin 1023 = Some e"
    by (simp add: tuning_double_Some a_def b_def c_def d_def e_def fl_1023 clock_val)
  then show ?thesis
    using n(5) e32 by blast
qed

lemma tuning_double_in_range:
  assumes "0 \<le> frange" and "0 \<le> fmin" and "fmin + frange \<le> 62745 / 2 + 1 / 1024"
    and "0 \<le> r" and "r \<le> 1023"
  shows "\<exists>e. tuning_double frange fmin r = Some e \<and> 0 \<le> e \<and> e < 4294967296"
proof -
  obtain e2 where e2: "tuning_double frange fmin 1023 = Some e2" "e2 < 4294967296"
    using tuning_double_fits [OF assms(1-3)] by blast
  obtain e1 where "tuning_double frange fmin r = Some e1" "0 \<le> e1" "e1 \<le> e2"
    using tuning_double_defined [OF assms(1,2,4,5) e2(1)] by blast
  then show ?thesis
    using e2(2) by auto
qed

lemma range_fits:
  assumes "0 \<le> fmin" and "fmin \<le> fmax" and "fmax \<le> 62745 / 2"
  shows "0 \<le> fl (fmax - fmin)" and "fmin + fl (fmax - fmin) \<le> 62745 / 2 + 1 / 1024"
proof -
  show "0 \<le> fl (fmax - fmin)"
    using assms(2) by (rule range_nonneg)
  have pw: "(2 :: rat) powi (14 - 24) = 1 / 1024"
    by (simp add: power_int_minus)
  have "\<bar>fmax - fmin\<bar> < 2 powi (14 + 1)"
    using assms by simp
  then have "\<bar>fl (fmax - fmin) - (fmax - fmin)\<bar> \<le> 2 powi (14 - 24)"
    by (intro fl_abs_err) simp_all
  then show "fmin + fl (fmax - fmin) \<le> 62745 / 2 + 1 / 1024"
    using assms(3) unfolding pw by linarith
qed

lemma tuning_Inr_iff:
  "tuning frange fmin r = Inr t \<longleftrightarrow>
     (\<exists>v. tuning_double frange fmin r = Some v \<and> - 1 < v \<and> v < 2 ^ 32
        \<and> t = word_of_int (if 0 \<le> v then \<lfloor>v\<rfloor> else \<lceil>v\<rceil>))"
proof -
  have "to_ulong v = Inr t \<longleftrightarrow>
      - 1 < v \<and> v < 2 ^ 32 \<and> t = word_of_int (if 0 \<le> v then \<lfloor>v\<rfloor> else \<lceil>v\<rceil>)" for v :: rat
  proof (cases "0 \<le> v")
    case True
    have "\<lfloor>v\<rfloor> < 2 ^ 32 \<longleftrightarrow> v < 2 ^ 32"
      using floor_less_iff [of v "2 ^ 32"] by simp
    then show ?thesis
      using True by (auto simp: to_ulong_def Let_def)
  next
    case False
    then have "\<lceil>v\<rceil> \<le> 0"
      by (simp add: ceiling_le_iff)
    moreover have "0 \<le> \<lceil>v\<rceil> \<longleftrightarrow> - 1 < v"
      by (simp add: le_ceiling_iff)
    ultimately show ?thesis
      using False by (auto simp: to_ulong_def Let_def)
  qed
  then show ?thesis
    by (auto simp: tuning_def split: option.splits)
qed

lemma tuning_in_range:
  assumes "0 \<le> frange" and "0 \<le> fmin" and "fmin + frange \<le> 62745 / 2 + 1 / 1024"
    and "0 \<le> r" and "r \<le> 1023"
  shows "\<exists>t. tuning frange fmin r = Inr t"
proof -
  obtain e where "tuning_double frange fmin r = Some e" "0 \<le> e" "e < 4294967296"
    using tuning_double_in_range [OF assms] by blast
  then show ?thesis
    by (auto simp: tuning_Inr_iff)
qed

lemma freq_ok_channel:
  assumes "freq_ok cfg" and "i < NUM_LFO"
  shows "0 \<le> FREQ_RANGE cfg ! i" and "0 \<le> FREQ_MIN cfg ! i"
    and "FREQ_MIN cfg ! i + FREQ_RANGE cfg ! i \<le> 62745 / 2 + 1 / 1024"
proof -
  have i: "i = 0 \<or> i = 1 \<or> i = 2 \<or> i = 3"
    using assms(2) by (auto simp: NUM_LFO_def)
  have r: "LFO1_FREQ_MIN cfg + fl (LFO1_FREQ_MAX cfg - LFO1_FREQ_MIN cfg) \<le> 62745 / 2 + 1 / 1024"
    "LFO2_FREQ_MIN cfg + fl (LFO2_FREQ_MAX cfg - LFO2_FREQ_MIN cfg) \<le> 62745 / 2 + 1 / 1024"
    "LFO3_FREQ_MIN cfg + fl (LFO3_FREQ_MAX cfg - LFO3_FREQ_MIN cfg) \<le> 62745 / 2 + 1 / 1024"
    "LFO4_FREQ_MIN cfg + fl (LFO4_FREQ_MAX cfg - LFO4_FREQ_MIN cfg) \<le> 62745 / 2 + 1 / 1024"
    using assms(1) by (simp_all only: freq_ok_def range_fits(2))
  show "0 \<le> FREQ_RANGE cfg ! i"
    using i assms(1) by (auto simp: freq_ok_def FREQ_RANGE_def range_nonneg)
  show "0 \<le> FREQ_MIN cfg ! i"
    using i assms(1) by (auto simp: freq_ok_def FREQ_MIN_def)
  show "FREQ_MIN cfg ! i + FREQ_RANGE cfg ! i \<le> 62745 / 2 + 1 / 1024"
    using i r by (auto simp: FREQ_MIN_def FREQ_RANGE_def)
qed

lemma freq_ok2_channel:
  assumes "freq_ok2 cfg"
  shows "0 \<le> LFO1_FREQ_RANGE cfg" and "0 \<le> LFO1_FREQ_MIN cfg"
    and "LFO1_FREQ_MIN cfg + LFO1_FREQ_RANGE cfg \<le> 62745 / 2 + 1 / 1024"
    and "0 \<le> LFO2_FREQ_RANGE cfg" and "0 \<le> LFO2_FREQ_MIN cfg"
    and "LFO2_FREQ_MIN cfg + LFO2_FREQ_RANGE cfg \<le> 62745 / 2 + 1 / 1024"
proof -
  have r: "LFO1_FREQ_MIN cfg + fl (LFO1_FREQ_MAX cfg - LFO1_FREQ_MIN cfg) \<le> 62745 / 2 + 1 / 1024"
    "LFO2_FREQ_MIN cfg + fl (LFO2_FREQ_MAX cfg - LFO2_FREQ_MIN cfg) \<le> 62745 / 2 + 1 / 1024"
    using assms by (simp_all only: freq_ok2_def range_fits(2))
  show "0 \<le> LFO1_FREQ_RANGE cfg" and "0 \<le> LFO1_FREQ_MIN cfg"
    and "0 \<le> LFO2_FREQ_RANGE cfg" and "0 \<le> LFO2_FREQ_MIN cfg"
    using assms
    by (simp_all add: freq_ok2_def LFO1_FREQ_RANGE_def LFO2_FREQ_RANGE_def range_nonneg)
  show "LFO1_FREQ_MIN cfg + LFO1_FREQ_RANGE cfg \<le> 62745 / 2 + 1 / 1024"
    and "LFO2_FREQ_MIN cfg + LFO2_FREQ_RANGE cfg \<le> 62745 / 2 + 1 / 1024"
    using r by (simp_all add: LFO1_FREQ_RANGE_def LFO2_FREQ_RANGE_def)
qed

subsection \<open>The tuning word of the concrete configuration\<close>

lemma example_FREQ:
  "FREQ_RANGE example_settings = [5190451 / 524288, 5190451 / 524288, 5190451 / 524288, 5190451 / 524288]"
  "FREQ_MIN example_settings = [13421773 / 134217728, 13421773 / 134217728, 13421773 / 134217728, 13421773 / 134217728]"
  "LFO1_FREQ_RANGE example_settings2 = 5190451 / 524288"
  "LFO2_FREQ_RANGE example_settings2 = 5190451 / 524288"
  "LFO1_FREQ_MIN example_settings2 = 13421773 / 134217728"
  "LFO2_FREQ_MIN example_settings2 = 13421773 / 134217728"
  by (simp_all add: FREQ_RANGE_def FREQ_MIN_def LFO1_FREQ_RANGE_def LFO2_FREQ_RANGE_def
      example_settings_def example_settings2_def example_range fl_tenth fl_10)

lemma example_tuning_defined:
  assumes "0 \<le> r" and "r \<le> 1023"
  shows "\<exists>t. tuning (5190451 / 524288) (13421773 / 134217728) r = Inr t"
  using assms by (intro tuning_defined [OF _ _ _ _ tuning_1023]) simp_all

lemma freq_update_eq:
  assumes "quad_ok s" and "i < NUM_LFO" and "length (freqCtrl inp) = NUM_LFO"
  shows "freq_update cfg inp i s
     = (case tuning (FREQ_RANGE cfg ! i) (FREQ_MIN cfg ! i) (freqCtrl inp ! i) of
          Inl f \<Rightarrow> Inl f
        | Inr t \<Rightarrow> Inr (s\<lparr>tuningWord := (tuningWord s)[i := t]\<rparr>))"
  using assms
  by (simp add: freq_update_def quad_ok_def FREQ_RANGE_def FREQ_MIN_def NUM_LFO_def
      split: sum.splits)

lemma example_tuning_close:
  assumes "0 \<le> r" and "r \<le> 1023"
  shows "\<exists>t. tuning (5190451 / 524288) (13421773 / 134217728) r = Inr t
     \<and> (uint t = round (2 ^ 32 * (1 / 10 + of_int r * (99 / 10) / 1023) / (31372549 / 1000) :: rat)
        \<or> uint t = round (2 ^ 32 * (1 / 10 + of_int r * (99 / 10) / 1023) / (31372549 / 1000) :: rat) - 1)"
proof -
  define x :: rat where "x = of_int r"
  define a where "a = fl (x * (5190451 / 524288))"
  define b where "b = fl (a / 1023)"
  define c where "c = fl (b + 13421773 / 134217728)"
  define d where "d = fl (c / (16062745 / 512))"
  define e where "e = fl (4294967296 * d)"
  define X :: rat where "X = 2 ^ 32 * (1 / 10 + x * (99 / 10) / 1023) / (31372549 / 1000)"
  have pw: "(2 :: rat) powi (13 - 24) = 1 / 2048" "(2 :: rat) powi (3 - 24) = 1 / 2097152"
    "(2 :: rat) powi (- 12 - 24) = 1 / 68719476736" "(2 :: rat) powi (20 - 24) = 1 / 16"
    by simp_all
  have x: "0 \<le> x" "x \<le> 1023"
    using assms by (simp_all add: x_def)
  have fx: "fl (of_int r) = x"
    using assms by (simp add: x_def fl_of_int_exact)
  have a0: "0 \<le> a" and b0: "0 \<le> b" and c0: "0 \<le> c" and d0: "0 \<le> d" and e0: "0 \<le> e"
    using x(1) by (simp_all add: a_def b_def c_def d_def e_def fl_nonneg)
  have "\<bar>x * (5190451 / 524288)\<bar> < 2 powi (13 + 1)"
    using x by simp
  then have "\<bar>a - x * (5190451 / 524288)\<bar> \<le> 2 powi (13 - 24)"
    unfolding a_def by (intro fl_abs_err) simp_all
  then have ea: "a - x * (5190451 / 524288) \<le> 1 / 2048" "- (1 / 2048) \<le> a - x * (5190451 / 524288)"
    unfolding pw by linarith+
  have "\<bar>a / 1023\<bar> < 2 powi (3 + 1)"
    using a0 ea(1) x by simp
  then have "\<bar>b - a / 1023\<bar> \<le> 2 powi (3 - 24)"
    unfolding b_def by (intro fl_abs_err) simp_all
  then have eb: "b - a / 1023 \<le> 1 / 2097152" "- (1 / 2097152) \<le> b - a / 1023"
    unfolding pw by linarith+
  have "\<bar>b + 13421773 / 134217728\<bar> < 2 powi (3 + 1)"
    using b0 eb(1) ea(1) x by simp
  then have "\<bar>c - (b + 13421773 / 134217728)\<bar> \<le> 2 powi (3 - 24)"
    unfolding c_def by (intro fl_abs_err) simp_all
  then have ec: "c - (b + 13421773 / 134217728) \<le> 1 / 2097152"
    "- (1 / 2097152) \<le> c - (b + 13421773 / 134217728)"
    unfolding pw by linarith+
  have cd: "c / (16062745 / 512) = c * (512 / 16062745)"
    by simp
  have "\<bar>c / (16062745 / 512)\<bar> < 2 powi (- 12 + 1)"
    using c0 ec(1) eb(1) ea(1) x by simp
  then have "\<bar>d - c / (16062745 / 512)\<bar> \<le> 2 powi (- 12 - 24)"
    unfolding d_def by (intro fl_abs_err) simp_all
  then have "\<bar>d - c * (512 / 16062745)\<bar> \<le> 2 powi (- 12 - 24)"
    unfolding cd .
  then have ed: "d - c * (512 / 16062745) \<le> 1 / 68719476736"
    "- (1 / 68719476736) \<le> d - c * (512 / 16062745)"
    unfolding pw by linarith+
  have "\<bar>4294967296 * d\<bar> < 2 powi (20 + 1)"
    using d0 ed(1) ec(1) eb(1) ea(1) x by simp
  then have "\<bar>e - 4294967296 * d\<bar> \<le> 2 powi (20 - 24)"
    unfolding e_def by (intro fl_abs_err) simp_all
  then have ee: "e - 4294967296 * d \<le> 1 / 16" "- (1 / 16) \<le> e - 4294967296 * d"
    unfolding pw by linarith+
  have X: "X = x * (1288490188800 / 972549019) + 429496729600 / 31372549"
    by (simp add: X_def algebra_simps)
  have hi: "e \<le> X + 1 / 2"
    using ea eb ec ed ee x unfolding X by linarith
  have lo: "X - 1 / 2 \<le> e"
    using ea eb ec ed ee x unfolding X by linarith
  have small: "e < 2 ^ 32"
    using ea eb ec ed ee x by simp
  have fin: "finite32 a" "finite32 b" "finite32 c" "finite32 d" "finite32 e"
    using a0 b0 c0 d0 e0 ea eb ec ed ee x by (simp_all add: finite32_def)
  have td: "tuning_double (5190451 / 524288) (13421773 / 134217728) r = Some e"
    using fin
    by (simp only: tuning_double_def Let_def fx fl_1023 fl_POW2TO32 clock_val
        a_def [symmetric] b_def [symmetric] c_def [symmetric] d_def [symmetric] e_def [symmetric]
        simp_thms if_True)
  have "\<lfloor>e\<rfloor> < 2 ^ 32"
    using small by (simp add: floor_less_iff)
  then have t: "tuning (5190451 / 524288) (13421773 / 134217728) r = Inr (word_of_int \<lfloor>e\<rfloor>)"
    using e0 by (simp add: tuning_def td to_ulong_def)
  have u: "uint (word_of_int \<lfloor>e\<rfloor> :: ulong) = \<lfloor>e\<rfloor>"
    using uint_to_ulong [of e "word_of_int \<lfloor>e\<rfloor>"] t e0 by (simp add: tuning_def td)
  have "\<lfloor>e\<rfloor> \<le> \<lfloor>X + 1 / 2\<rfloor>"
    using hi by (rule floor_mono)
  moreover have "\<lfloor>X + 1 / 2\<rfloor> - 1 \<le> \<lfloor>e\<rfloor>"
  proof -
    have "\<lfloor>X - 1 / 2\<rfloor> \<le> \<lfloor>e\<rfloor>"
      using lo by (rule floor_mono)
    moreover have "\<lfloor>X - 1 / 2\<rfloor> = \<lfloor>X + 1 / 2\<rfloor> - 1"
      using floor_diff_of_int [of "X + 1 / 2" 1] by simp
    ultimately show ?thesis
      by simp
  qed
  ultimately have "\<lfloor>e\<rfloor> = round X \<or> \<lfloor>e\<rfloor> = round X - 1"
    by (auto simp: round_def)
  then show ?thesis
    using t u by (auto simp: X_def x_def)
qed

subsection \<open>What the frequency control stores\<close>

lemma tuning_uint:
  assumes "tuning frange fmin r = Inr t"
  shows "uint t =
    (if 0 \<le> fl (4294967296 * fl (fl (fl (fl (fl (of_int r) * frange) / 1023) + fmin) / clock))
     then \<lfloor>fl (4294967296 * fl (fl (fl (fl (fl (of_int r) * frange) / 1023) + fmin) / clock))\<rfloor>
     else \<lceil>fl (4294967296 * fl (fl (fl (fl (fl (of_int r) * frange) / 1023) + fmin) / clock))\<rceil>)"
proof -
  obtain e where e: "tuning_double frange fmin r = Some e" "to_ulong e = Inr t"
    using assms by (auto simp: tuning_def split: option.splits)
  have "e = fl (4294967296 * fl (fl (fl (fl (fl (of_int r) * frange) / 1023) + fmin) / clock))"
    using e(1) by (simp add: tuning_double_Some)
  then show ?thesis
    using uint_to_ulong [OF e(2)] by simp
qed

lemma knobs2_Inr:
  assumes "knobs2 cfg inp s = Inr s'"
  shows "tuning (LFO1_FREQ_RANGE cfg) (LFO1_FREQ_MIN cfg) (LFO1_FreqKnob inp)
           = Inr (LFO1_TuningWord s')"
    and "tuning (LFO2_FREQ_RANGE cfg) (LFO2_FREQ_MIN cfg) (LFO2_FreqKnob inp)
           = Inr (LFO2_TuningWord s')"
    and "LFO1_Depth s' = word_of_int (LFO1_DepthKnob inp)"
    and "LFO2_Depth s' = word_of_int (LFO2_DepthKnob inp)"
  using assms by (auto simp: knobs2_def Let_def split: sum.splits)

lemma freq_update_Inr:
  assumes "quad_ok s" and "i < NUM_LFO" and "length (freqCtrl inp) = NUM_LFO"
    and "freq_update cfg inp i s = Inr s'"
  shows "tuning (FREQ_RANGE cfg ! i) (FREQ_MIN cfg ! i) (freqCtrl inp ! i) = Inr (tuningWord s' ! i)"
    and "s' = s\<lparr>tuningWord := (tuningWord s)[i := tuningWord s' ! i]\<rparr>"
  using assms(4) assms(1,2)
  by (auto simp: freq_update_eq [OF assms(1-3)] quad_ok_def split: sum.splits)

lemma example_channel:
  assumes "i < NUM_LFO"
  shows "FREQ_RANGE example_settings ! i = 5190451 / 524288"
    and "FREQ_MIN example_settings ! i = 13421773 / 134217728"
proof -
  have "i = 0 \<or> i = 1 \<or> i = 2 \<or> i = 3"
    using assms by (auto simp: NUM_LFO_def)
  then show "FREQ_RANGE example_settings ! i = 5190451 / 524288"
    and "FREQ_MIN example_settings ! i = 13421773 / 134217728"
    by (auto simp: example_FREQ)
qed

lemma freq_update_stores:
  assumes "quad_ok s" and "i < NUM_LFO" and "length (freqCtrl inp) = NUM_LFO"
    and "tuning_double (FREQ_RANGE cfg ! i) (FREQ_MIN cfg ! i) (freqCtrl inp ! i) = Some v"
    and "- 1 < v" and "v < 2 ^ 32"
  shows "freq_update cfg inp i s
     = Inr (s\<lparr>tuningWord := (tuningWord s)[i := word_of_int (if 0 \<le> v then \<lfloor>v\<rfloor> else \<lceil>v\<rceil>)]\<rparr>)"
proof -
  have "tuning (FREQ_RANGE cfg ! i) (FREQ_MIN cfg ! i) (freqCtrl inp ! i)
      = Inr (word_of_int (if 0 \<le> v then \<lfloor>v\<rfloor> else \<lceil>v\<rceil>))"
    using assms(4-6) by (simp only: tuning_Inr_iff) blast
  then show ?thesis
    by (simp only: freq_update_eq [OF assms(1-3)] sum.case)
qed

lemma knobs2_stores:
  assumes "tuning_double (LFO1_FREQ_RANGE cfg) (LFO1_FREQ_MIN cfg) (LFO1_FreqKnob inp) = Some v1"
    and "- 1 < v1" and "v1 < 2 ^ 32"
    and "tuning_double (LFO2_FREQ_RANGE cfg) (LFO2_FREQ_MIN cfg) (LFO2_FreqKnob inp) = Some v2"
    and "- 1 < v2" and "v2 < 2 ^ 32"
  shows "knobs2 cfg inp d
     = Inr (d\<lparr>LFO1_TuningWord := word_of_int (if 0 \<le> v1 then \<lfloor>v1\<rfloor> else \<lceil>v1\<rceil>),
              LFO1_Depth := word_of_int (LFO1_DepthKnob inp),
              LFO2_TuningWord := word_of_int (if 0 \<le> v2 then \<lfloor>v2\<rfloor> else \<lceil>v2\<rceil>),
              LFO2_Depth := word_of_int (LFO2_DepthKnob inp)\<rparr>)"
proof -
  have "tuning (LFO1_FREQ_RANGE cfg) (LFO1_FREQ_MIN cfg) (LFO1_FreqKnob inp)
      = Inr (word_of_int (if 0 \<le> v1 then \<lfloor>v1\<rfloor> else \<lceil>v1\<rceil>))"
    using assms(1-3) by (simp only: tuning_Inr_iff) blast
  moreover have "tuning (LFO2_FREQ_RANGE cfg) (LFO2_FREQ_MIN cfg) (LFO2_FreqKnob inp)
      = Inr (word_of_int (if 0 \<le> v2 then \<lfloor>v2\<rfloor> else \<lceil>v2\<rceil>))"
    using assms(4-6) by (simp only: tuning_Inr_iff) blast
  ultimately show ?thesis
    by (simp add: knobs2_def Let_def)
qed

lemma uint_trunc:
  assumes "- 1 < (v :: rat)" and "v < 2 ^ 32"
  shows "uint (word_of_int (if 0 \<le> v then \<lfloor>v\<rfloor> else \<lceil>v\<rceil>) :: ulong)
     = (if 0 \<le> v then \<lfloor>v\<rfloor> else \<lceil>v\<rceil>)"
proof -
  have "to_ulong v = Inr (word_of_int (if 0 \<le> v then \<lfloor>v\<rfloor> else \<lceil>v\<rceil>))"
  proof (cases "0 \<le> v")
    case True
    have "\<lfloor>v\<rfloor> < 2 ^ 32"
      using floor_less_iff [of v "2 ^ 32"] assms(2) by simp
    then show ?thesis
      using True by (simp add: to_ulong_def Let_def)
  next
    case False
    then have "\<lceil>v\<rceil> \<le> 0"
      by (simp add: ceiling_le_iff)
    moreover have "0 \<le> \<lceil>v\<rceil>"
      using assms(1) by (simp add: le_ceiling_iff)
    ultimately show ?thesis
      using False by (simp add: to_ulong_def Let_def)
  qed
  from uint_to_ulong [OF this] show ?thesis .
qed

text \<open>
  Claim C2 as the specification states it fails at the full-scale reading of its own
  example (tick rate 31372.549, frequencies from 0.1 to 10, reading 1023): the tuning
  word computed is 1369020, while \<open>round (2 ^ 32 * 10 / 31372.549)\<close> is 1369021, and
  neither lies within 1 of 1368710. It also fails for frequencies from 0 to 40000 at
  the reading 1023: the value of the expression is 5476083200, which no
  \<open>unsigned long\<close> holds, so the conversion is undefined and there is no tuning word,
  while \<open>round (2 ^ 32 * 40000 / 31372.549)\<close> is 5476083306.
\<close>

theorem tuning_full_scale_counterexample:
  "tuning (FREQ_RANGE example_settings ! 0) (FREQ_MIN example_settings ! 0) 1023 = Inr 1369020
   \<and> round (2 ^ 32 * (1 / 10 + 1023 * (99 / 10) / 1023) / (31372549 / 1000) :: rat) = 1369021
   \<and> \<not> (1368710 - 1 \<le> uint (1369020 :: ulong) \<and> uint (1369020 :: ulong) \<le> 1368710 + 1)
   \<and> tuning_double (fl (fl 40000 - fl 0)) (fl 0) 1023 = Some 5476083200
   \<and> tuning (fl (fl 40000 - fl 0)) (fl 0) 1023 = Inl FloatRange
   \<and> round (2 ^ 32 * (0 + 1023 * 40000 / 1023) / (31372549 / 1000) :: rat) = 5476083306"
proof -
  have "round (2 ^ 32 * (1 / 10 + 1023 * (99 / 10) / 1023) / (31372549 / 1000) :: rat) = 1369021"
    unfolding round_def by (rule floor_unique) simp_all
  moreover have "round (2 ^ 32 * (0 + 1023 * 40000 / 1023) / (31372549 / 1000) :: rat) = 5476083306"
    unfolding round_def by (rule floor_unique) simp_all
  ultimately show ?thesis
    by (simp add: example_FREQ tuning_1023 fl_40000 tuning_40000 tuning_double_40000)
qed

text \<open>
  Claim C2, amended. For every channel and every reading \<open>r\<close> from 0 to 1023, let \<open>v\<close>
  be the value of \<open>2 ^ 32 * (((r * (max_freq - min_freq)) / 1023 + min_freq) / clock)\<close>
  with \<open>max_freq - min_freq\<close> and every operation rounded to the 32-bit floating-point
  format and \<open>clock\<close> the value of that format nearest to 31372.549. When no
  intermediate result is infinite and \<open>- 1 < v < 2 ^ 32\<close>, the frequency control stores
  the tuning word \<open>trunc v\<close>: the conversion truncates towards zero, it does not round.
  This holds for the four channels of the four-channel sketch and the two of the
  two-channel sketch. A reading has a tuning word exactly under that condition on \<open>v\<close>
  (otherwise the conversion is undefined), and the condition holds, with \<open>0 \<le> v\<close>, for
  every reading from 0 to 1023 of a channel with
  \<open>0 \<le> min_freq \<le> max_freq \<le> 31372.5\<close>. With the tick rate 31372.549 and frequencies
  from 0.1 to 10, every reading from 0 to 1023 gives \<open>round (2 ^ 32 * freq / 31372.549)\<close>
  or one less, where \<open>freq = 0.1 + (r / 1023) * 9.9\<close>; the reading 0 gives 13690 and the
  reading 1023 gives 1369020.
\<close>

theorem tuning_word_truncated:
  assumes "quad_ok s" and "i < NUM_LFO" and "length (freqCtrl inp) = NUM_LFO"
    and "0 \<le> freqCtrl inp ! i" and "freqCtrl inp ! i \<le> 1023"
    and "tuning_double (FREQ_RANGE cfg ! i) (FREQ_MIN cfg ! i) (freqCtrl inp ! i) = Some v"
    and "- 1 < v" and "v < 2 ^ 32"
  shows "freq_update cfg inp i s
           = Inr (s\<lparr>tuningWord :=
                      (tuningWord s)[i := word_of_int (if 0 \<le> v then \<lfloor>v\<rfloor> else \<lceil>v\<rceil>)]\<rparr>)
       \<and> uint (word_of_int (if 0 \<le> v then \<lfloor>v\<rfloor> else \<lceil>v\<rceil>) :: ulong)
           = (if 0 \<le> v then \<lfloor>v\<rfloor> else \<lceil>v\<rceil>)
       \<and> v = fl (2 ^ 32 * fl (fl (fl (fl (fl (of_int (freqCtrl inp ! i)) * (FREQ_RANGE cfg ! i))
                                        / 1023) + FREQ_MIN cfg ! i) / clock))
       \<and> clock = 16062745 / 512
       \<and> (\<forall>v1 v2.
            tuning_double (LFO1_FREQ_RANGE cfg2) (LFO1_FREQ_MIN cfg2) (LFO1_FreqKnob inp2) = Some v1
            \<and> - 1 < v1 \<and> v1 < 2 ^ 32
            \<and> tuning_double (LFO2_FREQ_RANGE cfg2) (LFO2_FREQ_MIN cfg2) (LFO2_FreqKnob inp2) = Some v2
            \<and> - 1 < v2 \<and> v2 < 2 ^ 32
          \<longrightarrow> knobs2 cfg2 inp2 d
                = Inr (d\<lparr>LFO1_TuningWord := word_of_int (if 0 \<le> v1 then \<lfloor>v1\<rfloor> else \<lceil>v1\<rceil>),
                         LFO1_Depth := word_of_int (LFO1_DepthKnob inp2),
                         LFO2_TuningWord := word_of_int (if 0 \<le> v2 then \<lfloor>v2\<rfloor> else \<lceil>v2\<rceil>),
                         LFO2_Depth := word_of_int (LFO2_DepthKnob inp2)\<rparr>))
       \<and> (\<forall>frange fmin r.
            (\<exists>t. tuning frange fmin r = Inr t)
              = (\<exists>w. tuning_double frange fmin r = Some w \<and> - 1 < w \<and> w < 2 ^ 32))
       \<and> (\<forall>r. freq_ok cfg \<and> 0 \<le> r \<and> r \<le> 1023 \<longrightarrow>
            (\<exists>w. tuning_double (FREQ_RANGE cfg ! i) (FREQ_MIN cfg ! i) r = Some w
               \<and> 0 \<le> w \<and> w < 2 ^ 32))
       \<and> (\<forall>r. freq_ok2 cfg2 \<and> 0 \<le> r \<and> r \<le> 1023 \<longrightarrow>
            (\<exists>w. tuning_double (LFO1_FREQ_RANGE cfg2) (LFO1_FREQ_MIN cfg2) r = Some w
               \<and> 0 \<le> w \<and> w < 2 ^ 32)
            \<and> (\<exists>w. tuning_double (LFO2_FREQ_RANGE cfg2) (LFO2_FREQ_MIN cfg2) r = Some w
               \<and> 0 \<le> w \<and> w < 2 ^ 32))
       \<and> (\<forall>r. 0 \<le> r \<and> r \<le> 1023 \<longrightarrow>
            (\<exists>t. tuning (FREQ_RANGE example_settings ! i) (FREQ_MIN example_settings ! i) r = Inr t
              \<and> (uint t = round (2 ^ 32 * (1 / 10 + of_int r * (99 / 10) / 1023)
                                   / (31372549 / 1000) :: rat)
                 \<or> uint t = round (2 ^ 32 * (1 / 10 + of_int r * (99 / 10) / 1023)
                                   / (31372549 / 1000) :: rat) - 1)))
       \<and> tuning (FREQ_RANGE example_settings ! i) (FREQ_MIN example_settings ! i) 0 = Inr 13690
       \<and> tuning (FREQ_RANGE example_settings ! i) (FREQ_MIN example_settings ! i) 1023
            = Inr 1369020"
proof -
  have f: "freq_update cfg inp i s
           = Inr (s\<lparr>tuningWord :=
                      (tuningWord s)[i := word_of_int (if 0 \<le> v then \<lfloor>v\<rfloor> else \<lceil>v\<rceil>)]\<rparr>)"
    by (rule freq_update_stores [OF assms(1-3,6-8)])
  have u: "uint (word_of_int (if 0 \<le> v then \<lfloor>v\<rfloor> else \<lceil>v\<rceil>) :: ulong)
           = (if 0 \<le> v then \<lfloor>v\<rfloor> else \<lceil>v\<rceil>)"
    by (rule uint_trunc [OF assms(7,8)])
  have v: "v = fl (2 ^ 32 * fl (fl (fl (fl (fl (of_int (freqCtrl inp ! i)) * (FREQ_RANGE cfg ! i))
                                        / 1023) + FREQ_MIN cfg ! i) / clock))"
    using assms(6) by (simp add: tuning_double_Some)
  have k: "\<forall>v1 v2.
            tuning_double (LFO1_FREQ_RANGE cfg2) (LFO1_FREQ_MIN cfg2) (LFO1_FreqKnob inp2) = Some v1
            \<and> - 1 < v1 \<and> v1 < 2 ^ 32
            \<and> tuning_double (LFO2_FREQ_RANGE cfg2) (LFO2_FREQ_MIN cfg2) (LFO2_FreqKnob inp2) = Some v2
            \<and> - 1 < v2 \<and> v2 < 2 ^ 32
          \<longrightarrow> knobs2 cfg2 inp2 d
                = Inr (d\<lparr>LFO1_TuningWord := word_of_int (if 0 \<le> v1 then \<lfloor>v1\<rfloor> else \<lceil>v1\<rceil>),
                         LFO1_Depth := word_of_int (LFO1_DepthKnob inp2),
                         LFO2_TuningWord := word_of_int (if 0 \<le> v2 then \<lfloor>v2\<rfloor> else \<lceil>v2\<rceil>),
                         LFO2_Depth := word_of_int (LFO2_DepthKnob inp2)\<rparr>)"
    using knobs2_stores [of cfg2 inp2 _ _ d] by blast
  have iff: "\<forall>frange fmin r.
            (\<exists>t. tuning frange fmin r = Inr t)
              = (\<exists>w. tuning_double frange fmin r = Some w \<and> - 1 < w \<and> w < 2 ^ 32)"
    by (simp only: tuning_Inr_iff) blast
  have q: "\<forall>r. freq_ok cfg \<and> 0 \<le> r \<and> r \<le> 1023 \<longrightarrow>
            (\<exists>w. tuning_double (FREQ_RANGE cfg ! i) (FREQ_MIN cfg ! i) r = Some w
               \<and> 0 \<le> w \<and> w < 2 ^ 32)"
    using tuning_double_in_range [OF freq_ok_channel [OF _ assms(2)]] by simp
  have q2: "\<forall>r. freq_ok2 cfg2 \<and> 0 \<le> r \<and> r \<le> 1023 \<longrightarrow>
            (\<exists>w. tuning_double (LFO1_FREQ_RANGE cfg2) (LFO1_FREQ_MIN cfg2) r = Some w
               \<and> 0 \<le> w \<and> w < 2 ^ 32)
            \<and> (\<exists>w. tuning_double (LFO2_FREQ_RANGE cfg2) (LFO2_FREQ_MIN cfg2) r = Some w
               \<and> 0 \<le> w \<and> w < 2 ^ 32)"
    using tuning_double_in_range [OF freq_ok2_channel(1-3)]
      tuning_double_in_range [OF freq_ok2_channel(4-6)] by simp
  have c: "\<forall>r. 0 \<le> r \<and> r \<le> 1023 \<longrightarrow>
            (\<exists>t. tuning (FREQ_RANGE example_settings ! i) (FREQ_MIN example_settings ! i) r = Inr t
              \<and> (uint t = round (2 ^ 32 * (1 / 10 + of_int r * (99 / 10) / 1023)
                                   / (31372549 / 1000) :: rat)
                 \<or> uint t = round (2 ^ 32 * (1 / 10 + of_int r * (99 / 10) / 1023)
                                   / (31372549 / 1000) :: rat) - 1))"
    unfolding example_channel [OF assms(2)] using example_tuning_close by blast
  show ?thesis
    using f u v k iff q q2 c
    by (simp only: example_channel [OF assms(2)] tuning_0 tuning_1023 clock_val simp_thms)
qed

theorem tuning_word_truncated_witness:
  "quad_ok example_quad \<and> 1 < NUM_LFO \<and> length (freqCtrl example_inputs) = NUM_LFO
   \<and> 0 \<le> freqCtrl example_inputs ! 1 \<and> freqCtrl example_inputs ! 1 \<le> 1023
   \<and> tuning_double (FREQ_RANGE example_settings ! 1) (FREQ_MIN example_settings ! 1)
       (freqCtrl example_inputs ! 1) = Some (7009387 / 512)
   \<and> - 1 < (7009387 / 512 :: rat) \<and> (7009387 / 512 :: rat) < 2 ^ 32
   \<and> freq_update example_settings example_inputs 1 example_quad
       = Inr (example_quad\<lparr>tuningWord := [1369020, 13690, 16777216, 0]\<rparr>)"
proof -
  have ok: "quad_ok example_quad"
    by (simp add: quad_ok_def example_quad_def NUM_LFO_def)
  have lt: "1 < NUM_LFO"
    by (simp add: NUM_LFO_def)
  have len: "length (freqCtrl example_inputs) = NUM_LFO"
    by (simp add: example_inputs_def NUM_LFO_def)
  have r: "freqCtrl example_inputs ! 1 = 0"
    by (simp add: example_inputs_def)
  have r0: "0 \<le> freqCtrl example_inputs ! 1" and r1: "freqCtrl example_inputs ! 1 \<le> 1023"
    unfolding r by simp_all
  have td: "tuning_double (FREQ_RANGE example_settings ! 1) (FREQ_MIN example_settings ! 1)
       (freqCtrl example_inputs ! 1) = Some (7009387 / 512)"
    by (simp only: example_channel [OF lt] r tuning_double_0)
  have b: "- 1 < (7009387 / 512 :: rat)" "(7009387 / 512 :: rat) < 2 ^ 32"
    by simp_all
  have fl: "\<lfloor>7009387 / 512 :: rat\<rfloor> = 13690"
    by (rule floor_unique) simp_all
  have fu: "freq_update example_settings example_inputs 1 example_quad
       = Inr (example_quad\<lparr>tuningWord := [1369020, 13690, 16777216, 0]\<rparr>)"
    using tuning_word_truncated [OF ok lt len r0 r1 td b, THEN conjunct1]
    by (simp add: fl example_quad_def)
  show ?thesis
    by (intro conjI ok lt len r0 r1 td b fu)
qed

lemma freq_update_defined:
  assumes "freq_ok cfg" and "i < NUM_LFO" and "quad_ok s"
    and "length (freqCtrl inp) = NUM_LFO"
    and "0 \<le> freqCtrl inp ! i" and "freqCtrl inp ! i \<le> 1023"
  shows "\<exists>s'. freq_update cfg inp i s = Inr s'"
proof -
  obtain t where "tuning (FREQ_RANGE cfg ! i) (FREQ_MIN cfg ! i) (freqCtrl inp ! i) = Inr t"
    using tuning_in_range [OF freq_ok_channel [OF assms(1,2)] assms(5,6)] by blast
  then show ?thesis
    by (simp add: freq_update_eq [OF assms(3,2,4)])
qed

lemma knobs2_defined:
  assumes "freq_ok2 cfg"
    and "0 \<le> LFO1_FreqKnob inp" and "LFO1_FreqKnob inp \<le> 1023"
    and "0 \<le> LFO2_FreqKnob inp" and "LFO2_FreqKnob inp \<le> 1023"
  shows "\<exists>d'. knobs2 cfg inp d = Inr d'"
proof -
  obtain t1 where "tuning (LFO1_FREQ_RANGE cfg) (LFO1_FREQ_MIN cfg) (LFO1_FreqKnob inp) = Inr t1"
    using tuning_in_range [OF freq_ok2_channel(1-3) [OF assms(1)] assms(2,3)] by blast
  moreover obtain t2
    where "tuning (LFO2_FREQ_RANGE cfg) (LFO2_FREQ_MIN cfg) (LFO2_FreqKnob inp) = Inr t2"
    using tuning_in_range [OF freq_ok2_channel(4-6) [OF assms(1)] assms(4,5)] by blast
  ultimately show ?thesis
    by (simp add: knobs2_def Let_def)
qed

lemma freq_update_mono_defined:
  assumes "freq_ok cfg" and "i < NUM_LFO" and "quad_ok s"
    and "length (freqCtrl inpa) = NUM_LFO" and "length (freqCtrl inpb) = NUM_LFO"
    and "0 \<le> freqCtrl inpa ! i" and "freqCtrl inpa ! i \<le> freqCtrl inpb ! i"
    and "freqCtrl inpb ! i \<le> 1023"
  shows "\<exists>sa sb. freq_update cfg inpa i s = Inr sa \<and> freq_update cfg inpb i s = Inr sb
           \<and> tuningWord sa ! i \<le> tuningWord sb ! i"
proof -
  have a: "freqCtrl inpa ! i \<le> 1023" and b: "0 \<le> freqCtrl inpb ! i"
    using assms(6-8) by linarith+
  obtain sa where sa: "freq_update cfg inpa i s = Inr sa"
    using freq_update_defined [OF assms(1-4,6) a] by blast
  obtain sb where sb: "freq_update cfg inpb i s = Inr sb"
    using freq_update_defined [OF assms(1-3,5) b assms(8)] by blast
  have "tuningWord sa ! i \<le> tuningWord sb ! i"
    using freq_ok_channel(1) [OF assms(1,2)] assms(7)
      freq_update_Inr(1) [OF assms(3,2,4) sa] freq_update_Inr(1) [OF assms(3,2,5) sb]
    by (rule tuning_mono)
  then show ?thesis
    using sa sb by blast
qed

lemma knobs2_mono_defined:
  assumes "freq_ok2 cfg"
    and "0 \<le> LFO1_FreqKnob inpa" and "LFO1_FreqKnob inpa \<le> LFO1_FreqKnob inpb"
    and "LFO1_FreqKnob inpb \<le> 1023"
    and "0 \<le> LFO2_FreqKnob inpa" and "LFO2_FreqKnob inpa \<le> LFO2_FreqKnob inpb"
    and "LFO2_FreqKnob inpb \<le> 1023"
  shows "\<exists>da db. knobs2 cfg inpa d1 = Inr da \<and> knobs2 cfg inpb d2 = Inr db
           \<and> LFO1_TuningWord da \<le> LFO1_TuningWord db
           \<and> LFO2_TuningWord da \<le> LFO2_TuningWord db"
proof -
  have a: "LFO1_FreqKnob inpa \<le> 1023" "LFO2_FreqKnob inpa \<le> 1023"
    and b: "0 \<le> LFO1_FreqKnob inpb" "0 \<le> LFO2_FreqKnob inpb"
    using assms(2-7) by linarith+
  obtain da where da: "knobs2 cfg inpa d1 = Inr da"
    using knobs2_defined [OF assms(1,2) a(1) assms(5) a(2)] by blast
  obtain db where db: "knobs2 cfg inpb d2 = Inr db"
    using knobs2_defined [OF assms(1) b(1) assms(4) b(2) assms(7)] by blast
  have "LFO1_TuningWord da \<le> LFO1_TuningWord db"
    using freq_ok2_channel(1) [OF assms(1)] assms(3) knobs2_Inr(1) [OF da] knobs2_Inr(1) [OF db]
    by (rule tuning_mono)
  moreover have "LFO2_TuningWord da \<le> LFO2_TuningWord db"
    using freq_ok2_channel(4) [OF assms(1)] assms(6) knobs2_Inr(2) [OF da] knobs2_Inr(2) [OF db]
    by (rule tuning_mono)
  ultimately show ?thesis
    using da db by blast
qed

lemma loop2_due:
  "25 < fourMilliCounter d \<Longrightarrow>
     loop2 cfg inp d
       = knobs2 cfg inp (wave_switch2 inp (wave_switch1 inp
           ((sync2 cfg inp d)\<lparr>fourMilliCounter := 0\<rparr>)))"
  by (simp add: loop2_def Let_def)

text \<open>
  Claim C7 as the specification states it fails for a channel from 0.333 Hz to
  31372.549 Hz, whose minimum is below its maximum: the reading 1022 has the tuning
  word 4290769152, and at the reading 1023 the value of the expression is exactly
  \<open>2 ^ 32\<close>, which no \<open>unsigned long\<close> holds, so the larger reading has no tuning word
  that is at least the one of the smaller reading. It also fails for a channel from
  -1 Hz to 0 Hz: the value of the reading 0 is negative, about -136902.08, and the
  reading has no tuning word.
\<close>

theorem tuning_overflow_counterexample:
  "fl (333 / 1000) \<le> fl (31372549 / 1000)
   \<and> tuning (fl (fl (31372549 / 1000) - fl (333 / 1000))) (fl (333 / 1000)) 1022
       = Inr 4290769152
   \<and> tuning_double (fl (fl (31372549 / 1000) - fl (333 / 1000))) (fl (333 / 1000)) 1023
       = Some (2 ^ 32)
   \<and> tuning (fl (fl (31372549 / 1000) - fl (333 / 1000))) (fl (333 / 1000)) 1023
       = Inl FloatRange
   \<and> \<not> (\<exists>t1 t2.
          tuning (fl (fl (31372549 / 1000) - fl (333 / 1000))) (fl (333 / 1000)) 1022 = Inr t1
          \<and> tuning (fl (fl (31372549 / 1000) - fl (333 / 1000))) (fl (333 / 1000)) 1023 = Inr t2
          \<and> t1 \<le> t2)
   \<and> fl (- 1) \<le> fl 0
   \<and> tuning (fl (fl 0 - fl (- 1))) (fl (- 1)) 0 = Inl FloatRange"
proof -
  have m: "fl (- 1) = - 1"
    using fl_minus [of 1] by (simp add: fl_1)
  show ?thesis
    by (simp add: fl_333 fl_clock wide_range tuning_wide tuning_double_wide_1023 m fl_1
        tuning_negative)
qed

text \<open>
  Claim C7, amended. For every channel with \<open>0 \<le> min_freq \<le> max_freq \<le> 31372.5\<close> (the
  tick rate is 31372.549) and all readings \<open>r1 \<le> r2\<close> from 0 to 1023, both readings
  have a tuning word, and the tuning word of \<open>r1\<close> is at most the tuning word of \<open>r2\<close>.
  The frequency range the code multiplies by is the rounded difference of the two
  frequencies. So for two runs of the frequency control from the same state, with
  readings \<open>ra \<le> rb\<close> of a channel, both store a tuning word and the one stored for \<open>ra\<close>
  is at most the one stored for \<open>rb\<close>: in the four-channel sketch, and in the
  two-channel sketch both for the block of the knobs and for the whole pass of
  \<open>loop()\<close> when the controls are due. For any \<open>min_freq \<le> max_freq\<close> and any readings
  \<open>ra \<le> rb\<close> that both have a tuning word, the one of \<open>ra\<close> is at most the one of \<open>rb\<close>.
\<close>

theorem tuning_monotone:
  assumes "0 \<le> fmin" and "fmin \<le> fmax" and "fmax \<le> 62745 / 2"
    and "0 \<le> r1" and "r1 \<le> r2" and "r2 \<le> 1023"
  shows "(\<exists>t1 t2. tuning (fl (fmax - fmin)) fmin r1 = Inr t1
            \<and> tuning (fl (fmax - fmin)) fmin r2 = Inr t2 \<and> t1 \<le> t2)
       \<and> (freq_ok cfg \<and> i < NUM_LFO \<and> quad_ok s
            \<and> length (freqCtrl inpa) = NUM_LFO \<and> length (freqCtrl inpb) = NUM_LFO
            \<and> 0 \<le> freqCtrl inpa ! i \<and> freqCtrl inpa ! i \<le> freqCtrl inpb ! i
            \<and> freqCtrl inpb ! i \<le> 1023
          \<longrightarrow> (\<exists>sa sb. freq_update cfg inpa i s = Inr sa \<and> freq_update cfg inpb i s = Inr sb
                 \<and> tuningWord sa ! i \<le> tuningWord sb ! i))
       \<and> (freq_ok2 cfg2
            \<and> 0 \<le> LFO1_FreqKnob inpa2 \<and> LFO1_FreqKnob inpa2 \<le> LFO1_FreqKnob inpb2
            \<and> LFO1_FreqKnob inpb2 \<le> 1023
            \<and> 0 \<le> LFO2_FreqKnob inpa2 \<and> LFO2_FreqKnob inpa2 \<le> LFO2_FreqKnob inpb2
            \<and> LFO2_FreqKnob inpb2 \<le> 1023
          \<longrightarrow> (\<exists>da db. knobs2 cfg2 inpa2 d = Inr da \<and> knobs2 cfg2 inpb2 d = Inr db
                 \<and> LFO1_TuningWord da \<le> LFO1_TuningWord db
                 \<and> LFO2_TuningWord da \<le> LFO2_TuningWord db))
       \<and> (freq_ok2 cfg2 \<and> 25 < fourMilliCounter d
            \<and> 0 \<le> LFO1_FreqKnob inpa2 \<and> LFO1_FreqKnob inpa2 \<le> LFO1_FreqKnob inpb2
            \<and> LFO1_FreqKnob inpb2 \<le> 1023
            \<and> 0 \<le> LFO2_FreqKnob inpa2 \<and> LFO2_FreqKnob inpa2 \<le> LFO2_FreqKnob inpb2
            \<and> LFO2_FreqKnob inpb2 \<le> 1023
          \<longrightarrow> (\<exists>da db. loop2 cfg2 inpa2 d = Inr da \<and> loop2 cfg2 inpb2 d = Inr db
                 \<and> LFO1_TuningWord da \<le> LFO1_TuningWord db
                 \<and> LFO2_TuningWord da \<le> LFO2_TuningWord db))
       \<and> (\<forall>fmin' fmax' ra rb ta tb.
            fmin' \<le> fmax' \<and> ra \<le> rb
            \<and> tuning (fl (fmax' - fmin')) fmin' ra = Inr ta
            \<and> tuning (fl (fmax' - fmin')) fmin' rb = Inr tb
          \<longrightarrow> ta \<le> tb)"
proof -
  note rf = range_fits [OF assms(1-3)]
  have r: "r1 \<le> 1023" "0 \<le> r2"
    using assms(4-6) by linarith+
  obtain t1 where t1: "tuning (fl (fmax - fmin)) fmin r1 = Inr t1"
    using tuning_in_range [OF rf(1) assms(1) rf(2) assms(4) r(1)] by blast
  obtain t2 where t2: "tuning (fl (fmax - fmin)) fmin r2 = Inr t2"
    using tuning_in_range [OF rf(1) assms(1) rf(2) r(2) assms(6)] by blast
  have "t1 \<le> t2"
    using rf(1) assms(5) t1 t2 by (rule tuning_mono)
  then have main: "\<exists>t1 t2. tuning (fl (fmax - fmin)) fmin r1 = Inr t1
            \<and> tuning (fl (fmax - fmin)) fmin r2 = Inr t2 \<and> t1 \<le> t2"
    using t1 t2 by blast
  have q: "freq_ok cfg \<and> i < NUM_LFO \<and> quad_ok s
            \<and> length (freqCtrl inpa) = NUM_LFO \<and> length (freqCtrl inpb) = NUM_LFO
            \<and> 0 \<le> freqCtrl inpa ! i \<and> freqCtrl inpa ! i \<le> freqCtrl inpb ! i
            \<and> freqCtrl inpb ! i \<le> 1023
          \<longrightarrow> (\<exists>sa sb. freq_update cfg inpa i s = Inr sa \<and> freq_update cfg inpb i s = Inr sb
                 \<and> tuningWord sa ! i \<le> tuningWord sb ! i)"
    using freq_update_mono_defined [of cfg i s inpa inpb] by blast
  have k: "freq_ok2 cfg2
            \<and> 0 \<le> LFO1_FreqKnob inpa2 \<and> LFO1_FreqKnob inpa2 \<le> LFO1_FreqKnob inpb2
            \<and> LFO1_FreqKnob inpb2 \<le> 1023
            \<and> 0 \<le> LFO2_FreqKnob inpa2 \<and> LFO2_FreqKnob inpa2 \<le> LFO2_FreqKnob inpb2
            \<and> LFO2_FreqKnob inpb2 \<le> 1023
          \<longrightarrow> (\<exists>da db. knobs2 cfg2 inpa2 d = Inr da \<and> knobs2 cfg2 inpb2 d = Inr db
                 \<and> LFO1_TuningWord da \<le> LFO1_TuningWord db
                 \<and> LFO2_TuningWord da \<le> LFO2_TuningWord db)"
    using knobs2_mono_defined [of cfg2 inpa2 inpb2 d d] by blast
  have l: "freq_ok2 cfg2 \<and> 25 < fourMilliCounter d
            \<and> 0 \<le> LFO1_FreqKnob inpa2 \<and> LFO1_FreqKnob inpa2 \<le> LFO1_FreqKnob inpb2
            \<and> LFO1_FreqKnob inpb2 \<le> 1023
            \<and> 0 \<le> LFO2_FreqKnob inpa2 \<and> LFO2_FreqKnob inpa2 \<le> LFO2_FreqKnob inpb2
            \<and> LFO2_FreqKnob inpb2 \<le> 1023
          \<longrightarrow> (\<exists>da db. loop2 cfg2 inpa2 d = Inr da \<and> loop2 cfg2 inpb2 d = Inr db
                 \<and> LFO1_TuningWord da \<le> LFO1_TuningWord db
                 \<and> LFO2_TuningWord da \<le> LFO2_TuningWord db)"
  proof (intro impI, elim conjE)
    assume h: "freq_ok2 cfg2" "0 \<le> LFO1_FreqKnob inpa2"
      "LFO1_FreqKnob inpa2 \<le> LFO1_FreqKnob inpb2" "LFO1_FreqKnob inpb2 \<le> 1023"
      "0 \<le> LFO2_FreqKnob inpa2" "LFO2_FreqKnob inpa2 \<le> LFO2_FreqKnob inpb2"
      "LFO2_FreqKnob inpb2 \<le> 1023"
    assume due: "25 < fourMilliCounter d"
    show "\<exists>da db. loop2 cfg2 inpa2 d = Inr da \<and> loop2 cfg2 inpb2 d = Inr db
        \<and> LFO1_TuningWord da \<le> LFO1_TuningWord db
        \<and> LFO2_TuningWord da \<le> LFO2_TuningWord db"
      unfolding loop2_due [OF due] by (rule knobs2_mono_defined [OF h])
  qed
  have g: "\<forall>fmin' fmax' ra rb ta tb.
            fmin' \<le> fmax' \<and> ra \<le> rb
            \<and> tuning (fl (fmax' - fmin')) fmin' ra = Inr ta
            \<and> tuning (fl (fmax' - fmin')) fmin' rb = Inr tb
          \<longrightarrow> ta \<le> tb"
    using tuning_mono [OF range_nonneg] by blast
  from main q k l g show ?thesis
    by (intro conjI)
qed

theorem tuning_monotone_witness:
  "(0 :: rat) \<le> 13421773 / 134217728 \<and> (13421773 / 134217728 :: rat) \<le> 10
   \<and> (10 :: rat) \<le> 62745 / 2 \<and> (0 :: int) \<le> 0 \<and> (0 :: int) \<le> 1023 \<and> (1023 :: int) \<le> 1023
   \<and> tuning (fl (10 - 13421773 / 134217728)) (13421773 / 134217728) 0 = Inr 13690
   \<and> tuning (fl (10 - 13421773 / 134217728)) (13421773 / 134217728) 1023 = Inr 1369020
   \<and> (13690 :: ulong) \<le> 1369020"
proof -
  have a: "(0 :: rat) \<le> 13421773 / 134217728" "(13421773 / 134217728 :: rat) \<le> 10"
    "(10 :: rat) \<le> 62745 / 2"
    and b: "(0 :: int) \<le> 0" "(0 :: int) \<le> 1023" "(1023 :: int) \<le> 1023"
    by simp_all
  have rg: "fl (10 - 13421773 / 134217728) = 5190451 / 524288"
    using example_range by simp
  have c: "tuning (fl (10 - 13421773 / 134217728)) (13421773 / 134217728) 0 = Inr 13690"
    and d: "tuning (fl (10 - 13421773 / 134217728)) (13421773 / 134217728) 1023 = Inr 1369020"
    unfolding rg by (rule tuning_0, rule tuning_1023)
  have "\<exists>t1 t2. tuning (fl (10 - 13421773 / 134217728)) (13421773 / 134217728) 0 = Inr t1
      \<and> tuning (fl (10 - 13421773 / 134217728)) (13421773 / 134217728) 1023 = Inr t2
      \<and> t1 \<le> t2"
    by (rule tuning_monotone [OF a b, THEN conjunct1])
  then have "(13690 :: ulong) \<le> 1369020"
    unfolding c d by blast
  then show ?thesis
    by (intro conjI a b c d)
qed

section \<open>The loop over the channels in the control update\<close>

lemma update_lfo_defined:
  assumes "quad_ok s" and "i < NUM_LFO" and "length (waveCtrl inp) = NUM_LFO"
    and "length (freqCtrl inp) = NUM_LFO"
    and "tuning (FREQ_RANGE cfg ! i) (FREQ_MIN cfg ! i) (freqCtrl inp ! i) = Inr t"
  shows "\<exists>s'. update_lfo cfg inp i s = Inr s' \<and> quad_ok s'"
proof -
  obtain s1 where s1: "wave_select inp i s = Inr s1" "quad_ok s1"
    using wave_select_eq [OF assms(1-3)] assms(1)
    by (cases "snd (waveCtrl inp ! i) \<and> fst (waveCtrl inp ! i) = 1")
      (auto simp: quad_ok_def)
  show ?thesis
    using s1(2) by (simp add: update_lfo_def s1(1) freq_update_eq [OF s1(2) assms(2,4)] assms(5)
        quad_ok_def)
qed

lemma update_lfo_overrun:
  assumes "length (waveCtrl inp) = NUM_LFO"
  shows "update_lfo cfg inp NUM_LFO s = Inl (OutOfBounds ''waveCtrl'' NUM_LFO)"
  using assms by (simp add: update_lfo_def wave_select_def)

lemma update_loop_last:
  assumes "length (waveCtrl inp) = NUM_LFO"
  shows "update_loop cfg inp NUM_LFO s = Inl (OutOfBounds ''waveCtrl'' NUM_LFO)"
  by (subst update_loop.simps) (simp add: update_lfo_overrun [OF assms])

lemma update_loop_step:
  assumes "i \<le> NUM_LFO" and "update_lfo cfg inp i s = Inr s1"
  shows "update_loop cfg inp i s = update_loop cfg inp (Suc i) s1"
  using assms by (subst update_loop.simps) simp

lemma update_loop_overrun_from:
  assumes "length (waveCtrl inp) = NUM_LFO" and "length (freqCtrl inp) = NUM_LFO"
    and "\<And>j. j < NUM_LFO \<Longrightarrow>
           \<exists>t. tuning (FREQ_RANGE cfg ! j) (FREQ_MIN cfg ! j) (freqCtrl inp ! j) = Inr t"
  shows "k \<le> NUM_LFO \<Longrightarrow> quad_ok s \<Longrightarrow>
           update_loop cfg inp (NUM_LFO - k) s = Inl (OutOfBounds ''waveCtrl'' NUM_LFO)"
proof (induction k arbitrary: s)
  case 0
  then show ?case
    by (simp add: update_loop_last [OF assms(1)])
next
  case (Suc k)
  then have lt: "NUM_LFO - Suc k < NUM_LFO"
    by simp
  obtain t where "tuning (FREQ_RANGE cfg ! (NUM_LFO - Suc k)) (FREQ_MIN cfg ! (NUM_LFO - Suc k))
      (freqCtrl inp ! (NUM_LFO - Suc k)) = Inr t"
    using assms(3) [OF lt] by blast
  then obtain s1 where s1: "update_lfo cfg inp (NUM_LFO - Suc k) s = Inr s1" "quad_ok s1"
    using update_lfo_defined [OF Suc.prems(2) lt assms(1,2)] by blast
  have "update_loop cfg inp (NUM_LFO - Suc k) s = update_loop cfg inp (Suc (NUM_LFO - Suc k)) s1"
    using lt s1(1) by (intro update_loop_step) simp_all
  also have "Suc (NUM_LFO - Suc k) = NUM_LFO - k"
    using Suc.prems(1) by simp
  finally show ?case
    using Suc.IH [OF _ s1(2)] Suc.prems(1) by simp
qed

lemma update_loop_overrun:
  assumes "quad_ok s" and "length (waveCtrl inp) = NUM_LFO" and "length (freqCtrl inp) = NUM_LFO"
    and "\<And>j. j < NUM_LFO \<Longrightarrow>
           \<exists>t. tuning (FREQ_RANGE cfg ! j) (FREQ_MIN cfg ! j) (freqCtrl inp ! j) = Inr t"
  shows "update_loop cfg inp 0 s = Inl (OutOfBounds ''waveCtrl'' NUM_LFO)"
  using update_loop_overrun_from [OF assms(2-4), of NUM_LFO s] assms(1) by simp

lemma loop_overrun:
  assumes "quad_ok s" and "length (waveCtrl inp) = NUM_LFO" and "length (freqCtrl inp) = NUM_LFO"
    and "\<And>j. j < NUM_LFO \<Longrightarrow>
           \<exists>t. tuning (FREQ_RANGE cfg ! j) (FREQ_MIN cfg ! j) (freqCtrl inp ! j) = Inr t"
    and "25 < fourMilliCounter s"
  shows "loop cfg inp s = Inl (OutOfBounds ''waveCtrl'' NUM_LFO)"
proof -
  have ok: "quad_ok ((if SYNC cfg then sync_loop cfg inp 0 s else s)\<lparr>fourMilliCounter := 0\<rparr>)"
    using assms(1) sync_loop_ok [OF assms(1), of cfg inp] by (simp add: quad_ok_def)
  show ?thesis
    using assms(5) update_loop_overrun [OF ok assms(2-4)]
    by (simp add: loop_def Let_def)
qed

text \<open>
  Claim C3. The loop under "Update LFOs" runs while \<open>i <= NUM_LFO\<close>: after the four
  channels it runs its body once more with \<open>i = 4\<close>, where the first access,
  \<open>waveCtrl[4]\<close>, is outside the four-element array. On the concrete configuration, with
  the slow-tick counter at 26, one pass of \<open>loop()\<close> ends in that access.
\<close>

theorem control_loop_overruns:
  "loop example_settings example_inputs example_quad = Inl (OutOfBounds ''waveCtrl'' 4)"
proof -
  have ok: "quad_ok example_quad"
    by (simp add: quad_ok_def example_quad_def NUM_LFO_def)
  have len: "length (waveCtrl example_inputs) = NUM_LFO"
    "length (freqCtrl example_inputs) = NUM_LFO"
    by (simp_all add: example_inputs_def NUM_LFO_def)
  have t: "\<exists>t. tuning (FREQ_RANGE example_settings ! j) (FREQ_MIN example_settings ! j)
      (freqCtrl example_inputs ! j) = Inr t" if "j < NUM_LFO" for j
  proof -
    have "j = 0 \<or> j = 1 \<or> j = 2 \<or> j = 3"
      using that by (auto simp: NUM_LFO_def)
    then show ?thesis
      by (elim disjE; simp add: example_FREQ example_inputs_def example_tuning_defined)
  qed
  have "25 < fourMilliCounter example_quad"
    by (simp add: example_quad_def)
  from loop_overrun [OF ok len t this] show ?thesis
    by (simp add: NUM_LFO_def)
qed

section \<open>The wave switch in a run of the sketch\<close>

subsection \<open>The two-channel sketch\<close>

lemma ISR2_waves [simp]:
  "LFO1_WaveNum (ISR2 pgm d) = LFO1_WaveNum d"
  "LFO2_WaveNum (ISR2 pgm d) = LFO2_WaveNum d"
  "LFO1_WaveTable (ISR2 pgm d) = LFO1_WaveTable d"
  "LFO2_WaveTable (ISR2 pgm d) = LFO2_WaveTable d"
  by (simp_all add: ISR2_def Let_def tick_count_def)

lemma sync2_waves [simp]:
  "LFO1_WaveNum (sync2 cfg inp d) = LFO1_WaveNum d"
  "LFO2_WaveNum (sync2 cfg inp d) = LFO2_WaveNum d"
  "LFO1_WaveTable (sync2 cfg inp d) = LFO1_WaveTable d"
  "LFO2_WaveTable (sync2 cfg inp d) = LFO2_WaveTable d"
  by (simp_all add: sync2_def Let_def)

lemma knobs2_waves:
  assumes "knobs2 cfg inp d = Inr d'"
  shows "LFO1_WaveNum d' = LFO1_WaveNum d" and "LFO2_WaveNum d' = LFO2_WaveNum d"
    and "LFO1_WaveTable d' = LFO1_WaveTable d" and "LFO2_WaveTable d' = LFO2_WaveTable d"
  using assms by (auto simp: knobs2_def Let_def split: sum.splits)

lemma loop2_waves:
  assumes "loop2 cfg inp d = Inr d'"
  shows "LFO1_WaveNum d'
      = (if 25 < fourMilliCounter d \<and> snd (LFO1_WaveSwitch inp) \<and> fst (LFO1_WaveSwitch inp) = 1
         then next_wave (LFO1_WaveNum d) else LFO1_WaveNum d)
    \<and> LFO1_WaveTable d'
      = (if 25 < fourMilliCounter d \<and> snd (LFO1_WaveSwitch inp) \<and> fst (LFO1_WaveSwitch inp) = 1
         then waveTables ! unat (next_wave (LFO1_WaveNum d)) else LFO1_WaveTable d)
    \<and> LFO2_WaveNum d'
      = (if 25 < fourMilliCounter d \<and> snd (LFO2_WaveSwitch inp) \<and> fst (LFO2_WaveSwitch inp) = 1
         then next_wave (LFO2_WaveNum d) else LFO2_WaveNum d)
    \<and> LFO2_WaveTable d'
      = (if 25 < fourMilliCounter d \<and> snd (LFO2_WaveSwitch inp) \<and> fst (LFO2_WaveSwitch inp) = 1
         then waveTables ! unat (next_wave (LFO2_WaveNum d)) else LFO2_WaveTable d)"
proof (cases "25 < fourMilliCounter d")
  case True
  then have "knobs2 cfg inp (wave_switch2 inp (wave_switch1 inp
      ((sync2 cfg inp d)\<lparr>fourMilliCounter := 0\<rparr>))) = Inr d'"
    using assms by (simp add: loop2_due)
  note w = knobs2_waves [OF this]
  show ?thesis
    using True by (simp add: w wave_switch_eq)
next
  case False
  then have "d' = sync2 cfg inp d"
    using assms by (simp add: loop2_def Let_def)
  then show ?thesis
    using False by simp
qed

lemma loop2_defined:
  assumes "freq_ok2 cfg"
    and "0 \<le> LFO1_FreqKnob inp" and "LFO1_FreqKnob inp \<le> 1023"
    and "0 \<le> LFO2_FreqKnob inp" and "LFO2_FreqKnob inp \<le> 1023"
  shows "\<exists>d'. loop2 cfg inp d = Inr d'"
  using knobs2_defined [OF assms] by (simp add: loop2_def Let_def)

lemma run2_wave_num:
  "run2 cfg pgm es d = Inr d' \<Longrightarrow>
     LFO1_WaveNum d' = (next_wave ^^ press_edges1 cfg pgm es d) (LFO1_WaveNum d)
     \<and> LFO2_WaveNum d' = (next_wave ^^ press_edges2 cfg pgm es d) (LFO2_WaveNum d)"
proof (induction cfg pgm es d rule: run2.induct)
  case (1 cfg pgm s)
  then show ?case by simp
next
  case (2 cfg pgm es s)
  then show ?case by simp
next
  case (3 cfg pgm inp es s)
  then obtain s1 where s1: "loop2 cfg inp s = Inr s1" "run2 cfg pgm es s1 = Inr d'"
    by (auto split: sum.splits)
  from "3.IH" [OF s1] show ?case
    by (simp add: s1(1) loop2_waves [OF s1(1)] funpow_swap1)
qed

lemma run2_wave_table:
  "run2 cfg pgm es d = Inr d' \<Longrightarrow>
     LFO1_WaveTable d = waveTables ! unat (LFO1_WaveNum d) \<Longrightarrow>
     LFO1_WaveTable d' = waveTables ! unat (LFO1_WaveNum d')"
  "run2 cfg pgm es d = Inr d' \<Longrightarrow>
     LFO2_WaveTable d = waveTables ! unat (LFO2_WaveNum d) \<Longrightarrow>
     LFO2_WaveTable d' = waveTables ! unat (LFO2_WaveNum d')"
proof (induction cfg pgm es d rule: run2.induct)
  case (1 cfg pgm s)
  { case 1 then show ?case by simp
  next
    case 2 then show ?case by simp }
next
  case (2 cfg pgm es s)
  { case 1 then show ?case using "2.IH"(1) by simp
  next
    case 2 then show ?case using "2.IH"(2) by simp }
next
  case (3 cfg pgm inp es s)
  { case 1
    then obtain s1 where s1: "loop2 cfg inp s = Inr s1" "run2 cfg pgm es s1 = Inr d'"
      by (auto split: sum.splits)
    have "LFO1_WaveTable s1 = waveTables ! unat (LFO1_WaveNum s1)"
      using 1(2) by (simp add: loop2_waves [OF s1(1)])
    then show ?case
      by (rule "3.IH"(1) [OF s1])
  next
    case 2
    then obtain s1 where s1: "loop2 cfg inp s = Inr s1" "run2 cfg pgm es s1 = Inr d'"
      by (auto split: sum.splits)
    have "LFO2_WaveTable s1 = waveTables ! unat (LFO2_WaveNum s1)"
      using 2(2) by (simp add: loop2_waves [OF s1(1)])
    then show ?case
      by (rule "3.IH"(2) [OF s1]) }
qed

lemma run2_cycle:
  assumes "run2 cfg pgm es d = Inr d'"
    and "LFO1_WaveNum d = 0" and "LFO1_WaveTable d = waveTables ! 0"
    and "press_edges1 cfg pgm es d = NUM_WAVES"
  shows "LFO1_WaveNum d' = 0 \<and> LFO1_WaveTable d' = waveTables ! 0"
proof -
  have "(next_wave ^^ NUM_WAVES) 0 = 0"
    by (rule next_wave_cycle) (simp add: NUM_WAVES_9)
  then have n: "LFO1_WaveNum d' = 0"
    using run2_wave_num [OF assms(1)] assms(2,4) by simp
  have "LFO1_WaveTable d' = waveTables ! unat (LFO1_WaveNum d')"
    using assms(2,3) by (intro run2_wave_table(1) [OF assms(1)]) simp
  then show ?thesis
    using n by simp
qed

lemma run2_defined:
  assumes "freq_ok2 cfg"
    and "\<And>inp. Pass inp \<in> set es \<Longrightarrow>
           0 \<le> LFO1_FreqKnob inp \<and> LFO1_FreqKnob inp \<le> 1023
           \<and> 0 \<le> LFO2_FreqKnob inp \<and> LFO2_FreqKnob inp \<le> 1023"
  shows "\<exists>d'. run2 cfg pgm es d = Inr d'"
  using assms(2)
proof (induction es arbitrary: d)
  case Nil
  then show ?case by simp
next
  case (Cons e es)
  show ?case
  proof (cases e)
    case Tick
    then show ?thesis
      using Cons.IH [of "ISR2 pgm d"] Cons.prems by simp
  next
    case (Pass inp)
    then have "0 \<le> LFO1_FreqKnob inp \<and> LFO1_FreqKnob inp \<le> 1023
           \<and> 0 \<le> LFO2_FreqKnob inp \<and> LFO2_FreqKnob inp \<le> 1023"
      using Cons.prems [of inp] by simp
    then obtain d1 where d1: "loop2 cfg inp d = Inr d1"
      using loop2_defined [OF assms(1), of inp d] by blast
    then show ?thesis
      using Cons.IH [of d1] Cons.prems Pass by simp
  qed
qed

subsection \<open>The four-channel sketch\<close>

lemma update_lfo_waves:
  assumes "quad_ok s" and "i < NUM_LFO" and "length (waveCtrl inp) = NUM_LFO"
    and "update_lfo cfg inp i s = Inr s'"
  shows "waveNum s' = (if snd (waveCtrl inp ! i) \<and> fst (waveCtrl inp ! i) = 1
                       then (waveNum s)[i := next_wave (waveNum s ! i)] else waveNum s)
    \<and> waveform s' = (if snd (waveCtrl inp ! i) \<and> fst (waveCtrl inp ! i) = 1
                      then (waveform s)[i := waveTable ! unat (next_wave (waveNum s ! i))]
                      else waveform s)"
proof -
  obtain s1 where s1: "wave_select inp i s = Inr s1" "freq_update cfg inp i s1 = Inr s'"
    using assms(4) by (auto simp: update_lfo_def split: sum.splits)
  have "waveNum s' = waveNum s1" "waveform s' = waveform s1"
    using freq_update_waves [OF s1(2)] by simp_all
  then show ?thesis
    using s1(1) by (auto simp: wave_select_eq [OF assms(1-3)])
qed

lemma update_loop_prefix:
  assumes "quad_ok s" and "length (waveCtrl inp) = NUM_LFO" and "length (freqCtrl inp) = NUM_LFO"
    and "\<And>j. j < NUM_LFO \<Longrightarrow>
           \<exists>t. tuning (FREQ_RANGE cfg ! j) (FREQ_MIN cfg ! j) (freqCtrl inp ! j) = Inr t"
  shows "\<exists>s1 s2 s3 s4.
           update_lfo cfg inp 0 s = Inr s1 \<and> update_lfo cfg inp 1 s1 = Inr s2
           \<and> update_lfo cfg inp 2 s2 = Inr s3 \<and> update_lfo cfg inp 3 s3 = Inr s4
           \<and> quad_ok s1 \<and> quad_ok s2 \<and> quad_ok s3 \<and> quad_ok s4
           \<and> update_lfo cfg inp 4 s4 = Inl (OutOfBounds ''waveCtrl'' 4)"
proof -
  have lt: "0 < NUM_LFO" "1 < NUM_LFO" "2 < NUM_LFO" "3 < NUM_LFO"
    by (simp_all add: NUM_LFO_def)
  obtain s1 where s1: "update_lfo cfg inp 0 s = Inr s1" "quad_ok s1"
    using update_lfo_defined [OF assms(1) lt(1) assms(2,3)] assms(4) [OF lt(1)] by blast
  obtain s2 where s2: "update_lfo cfg inp 1 s1 = Inr s2" "quad_ok s2"
    using update_lfo_defined [OF s1(2) lt(2) assms(2,3)] assms(4) [OF lt(2)] by blast
  obtain s3 where s3: "update_lfo cfg inp 2 s2 = Inr s3" "quad_ok s3"
    using update_lfo_defined [OF s2(2) lt(3) assms(2,3)] assms(4) [OF lt(3)] by blast
  obtain s4 where s4: "update_lfo cfg inp 3 s3 = Inr s4" "quad_ok s4"
    using update_lfo_defined [OF s3(2) lt(4) assms(2,3)] assms(4) [OF lt(4)] by blast
  have "update_lfo cfg inp 4 s4 = Inl (OutOfBounds ''waveCtrl'' 4)"
    using update_lfo_overrun [OF assms(2), of cfg s4] by (simp add: NUM_LFO_def)
  then show ?thesis
    using s1 s2 s3 s4 by blast
qed

lemma example_tunings:
  assumes "j < NUM_LFO"
  shows "\<exists>t. tuning (FREQ_RANGE example_settings ! j) (FREQ_MIN example_settings ! j)
            (freqCtrl example_inputs ! j) = Inr t"
proof -
  have "j = 0 \<or> j = 1 \<or> j = 2 \<or> j = 3"
    using assms by (auto simp: NUM_LFO_def)
  then show ?thesis
    by (elim disjE; simp add: example_FREQ example_inputs_def example_tuning_defined)
qed

lemma ISR_slow_ticks:
  assumes "tickCounter s = 0"
  shows "tickCounter ((ISR pgm ^^ (126 * k)) s) = 0
     \<and> fourMilliCounter ((ISR pgm ^^ (126 * k)) s) = fourMilliCounter s + of_nat k"
proof (induction k)
  case 0
  then show ?case
    using assms by simp
next
  case (Suc k)
  have "(ISR pgm ^^ (126 * Suc k)) s = (ISR pgm ^^ 126) ((ISR pgm ^^ (126 * k)) s)"
    by (simp add: funpow_add)
  then show ?case
    using ISR_ticks_126 [of "(ISR pgm ^^ (126 * k)) s" pgm] Suc by simp
qed

lemma ISR_funpow_waveNum: "waveNum ((ISR pgm ^^ k) s) = waveNum s"
  by (induction k) (simp_all add: ISR_def isr_loop_unroll)

lemma wave_ok_ISR_funpow: "wave_ok ((ISR pgm ^^ k) s) = wave_ok s"
  by (induction k) (simp_all add: wave_ok_ISR)

text \<open>
  Claim C6. In the four-channel sketch the claim does not hold of a control pass,
  because of the loop bound of claim C3. On the concrete configuration, with the
  slow-tick counter at 26 and a change to state 1 reported by the wave switch of
  channel 0, the pass advances the wave number of channel 0 from 0 to 1 and points its
  waveform at \<open>ramp256\<close>, leaves the waveforms of the other three channels as they
  were, and then runs the loop body with \<open>i = 4\<close>, where \<open>waveCtrl[4]\<close> is outside the
  array: the pass ends in that access, and there is no state after the pass for a
  next press to start from. In the two-channel sketch, which has no loop, the claim
  holds in every run (lemmas \<open>loop2_waves\<close>, \<open>run2_wave_num\<close>, \<open>run2_wave_table\<close>,
  \<open>run2_cycle\<close>, \<open>run2_defined\<close>).
\<close>

theorem wave_switch_pass_overruns:
  "\<exists>s1 s2 s3 s4.
     update_lfo example_settings example_inputs 0
         ((sync_loop example_settings example_inputs 0 example_quad)\<lparr>fourMilliCounter := 0\<rparr>)
       = Inr s1
     \<and> waveNum s1 = [1, 1, 2, 3] \<and> waveform s1 = [ramp256, ramp256, saw256, tri256]
     \<and> update_lfo example_settings example_inputs 1 s1 = Inr s2
     \<and> update_lfo example_settings example_inputs 2 s2 = Inr s3
     \<and> update_lfo example_settings example_inputs 3 s3 = Inr s4
     \<and> waveNum s4 = [1, 1, 2, 3] \<and> waveform s4 = [ramp256, ramp256, saw256, tri256]
     \<and> update_lfo example_settings example_inputs 4 s4 = Inl (OutOfBounds ''waveCtrl'' 4)
     \<and> update_loop example_settings example_inputs 0
         ((sync_loop example_settings example_inputs 0 example_quad)\<lparr>fourMilliCounter := 0\<rparr>)
       = Inl (OutOfBounds ''waveCtrl'' 4)
     \<and> loop example_settings example_inputs example_quad = Inl (OutOfBounds ''waveCtrl'' 4)"
proof -
  define s0 where
    "s0 = (sync_loop example_settings example_inputs 0 example_quad)\<lparr>fourMilliCounter := 0\<rparr>"
  have okq: "quad_ok example_quad"
    by (simp add: quad_ok_def example_quad_def NUM_LFO_def)
  have ok: "quad_ok s0"
    using sync_loop_ok [OF okq, of example_settings example_inputs]
    by (simp add: s0_def quad_ok_def)
  have w0: "waveNum s0 = [0, 1, 2, 3]" "waveform s0 = [sine256, ramp256, saw256, tri256]"
    by (simp_all add: s0_def sync_loop_unroll example_quad_def)
  have len: "length (waveCtrl example_inputs) = NUM_LFO"
    "length (freqCtrl example_inputs) = NUM_LFO"
    by (simp_all add: example_inputs_def NUM_LFO_def)
  have lt: "0 < NUM_LFO" "1 < NUM_LFO" "2 < NUM_LFO" "3 < NUM_LFO"
    by (simp_all add: NUM_LFO_def)
  have one: "next_wave 0 = 1"
    by (simp add: word_unat_eq_iff unat_next_wave NUM_WAVES_9)
  obtain s1 s2 s3 s4 where
    s: "update_lfo example_settings example_inputs 0 s0 = Inr s1"
      "update_lfo example_settings example_inputs 1 s1 = Inr s2"
      "update_lfo example_settings example_inputs 2 s2 = Inr s3"
      "update_lfo example_settings example_inputs 3 s3 = Inr s4"
    and oks: "quad_ok s1" "quad_ok s2" "quad_ok s3" "quad_ok s4"
    and over: "update_lfo example_settings example_inputs 4 s4 = Inl (OutOfBounds ''waveCtrl'' 4)"
    using update_loop_prefix [OF ok len example_tunings] by blast
  have w1: "waveNum s1 = [1, 1, 2, 3]" "waveform s1 = [ramp256, ramp256, saw256, tri256]"
    using update_lfo_waves [OF ok lt(1) len(1) s(1)]
    by (simp_all add: w0 one example_inputs_def waveTable_def)
  have w2: "waveNum s2 = [1, 1, 2, 3]" "waveform s2 = [ramp256, ramp256, saw256, tri256]"
    using update_lfo_waves [OF oks(1) lt(2) len(1) s(2)]
    by (simp_all add: w1 example_inputs_def)
  have w3: "waveNum s3 = [1, 1, 2, 3]" "waveform s3 = [ramp256, ramp256, saw256, tri256]"
    using update_lfo_waves [OF oks(2) lt(3) len(1) s(3)]
    by (simp_all add: w2 example_inputs_def)
  have w4: "waveNum s4 = [1, 1, 2, 3]" "waveform s4 = [ramp256, ramp256, saw256, tri256]"
    using update_lfo_waves [OF oks(3) lt(4) len(1) s(4)]
    by (simp_all add: w3 example_inputs_def)
  have ul: "update_loop example_settings example_inputs 0 s0 = Inl (OutOfBounds ''waveCtrl'' 4)"
    using update_loop_overrun [OF ok len example_tunings] by (simp add: NUM_LFO_def)
  have "25 < fourMilliCounter example_quad"
    by (simp add: example_quad_def)
  from loop_overrun [OF okq len example_tunings this]
  have l: "loop example_settings example_inputs example_quad = Inl (OutOfBounds ''waveCtrl'' 4)"
    by (simp add: NUM_LFO_def)
  show ?thesis
    unfolding s0_def [symmetric] using s w1 w4 over ul l by blast
qed

text \<open>
  Claim C10. The wave numbers are 0 when \<open>setup()\<close> returns, and the four iterations of
  the control loop for the channels 0 to 3 keep every wave number below \<open>NUM_WAVES\<close>
  and every waveform pointer at the table of its wave number (lemma \<open>update_lfo_ok\<close>);
  but no control pass ends there, because of the loop bound of claim C3. From the
  state after \<open>setup()\<close>, 26 * 126 timer interrupts bring the slow-tick counter to 26;
  the first pass of \<open>loop()\<close> then runs the loop body for the four channels and once
  more with \<open>i = 4\<close>, where \<open>waveCtrl[4]\<close> is outside the array, and ends in that access:
  after this iteration of the control loop no wave number and no waveform pointer is
  defined.
\<close>

theorem wave_index_pass_overruns:
  "waveNum (boot example_settings example_inputs) = [0, 0, 0, 0]
   \<and> wave_ok (boot example_settings example_inputs)
   \<and> wave_ok ((ISR example_pgm ^^ 3276) (boot example_settings example_inputs))
   \<and> fourMilliCounter ((ISR example_pgm ^^ 3276) (boot example_settings example_inputs)) = 26
   \<and> (\<exists>s1 s2 s3 s4.
        update_lfo example_settings example_inputs 0
            ((sync_loop example_settings example_inputs 0
                ((ISR example_pgm ^^ 3276) (boot example_settings example_inputs)))
               \<lparr>fourMilliCounter := 0\<rparr>) = Inr s1
        \<and> update_lfo example_settings example_inputs 1 s1 = Inr s2
        \<and> update_lfo example_settings example_inputs 2 s2 = Inr s3
        \<and> update_lfo example_settings example_inputs 3 s3 = Inr s4
        \<and> wave_ok s4 \<and> waveNum s4 = [1, 0, 0, 0]
        \<and> update_lfo example_settings example_inputs 4 s4 = Inl (OutOfBounds ''waveCtrl'' 4))
   \<and> loop example_settings example_inputs
       ((ISR example_pgm ^^ 3276) (boot example_settings example_inputs))
       = Inl (OutOfBounds ''waveCtrl'' 4)"
proof -
  define b where "b = (ISR example_pgm ^^ 3276) (boot example_settings example_inputs)"
  define s0 where "s0 = (sync_loop example_settings example_inputs 0 b)\<lparr>fourMilliCounter := 0\<rparr>"
  note bt = wave_ok_boot [of example_settings example_inputs]
  have w: "waveNum (boot example_settings example_inputs) = [0, 0, 0, 0]"
    by (simp add: boot_def)
  have okb: "quad_ok b"
    using bt by (simp add: b_def ISR_funpow_ok)
  have wb: "wave_ok b"
    using bt by (simp add: b_def wave_ok_ISR_funpow)
  have "tickCounter (boot example_settings example_inputs) = 0"
    "fourMilliCounter (boot example_settings example_inputs) = 0"
    by (simp_all add: boot_def)
  then have fb: "fourMilliCounter b = 26"
    using ISR_slow_ticks [where s = "boot example_settings example_inputs"
        and pgm = example_pgm and k = 26]
    by (simp add: b_def)
  have ok: "quad_ok s0"
    using sync_loop_ok [OF okb, of example_settings example_inputs]
    by (simp add: s0_def quad_ok_def)
  have wn: "waveNum s0 = [0, 0, 0, 0]"
    by (simp add: s0_def sync_loop_unroll b_def ISR_funpow_waveNum w)
  have w0: "wave_ok s0"
    using wb wave_ok_sync_loop [of example_settings example_inputs b]
    by (simp add: s0_def wave_ok_def)
  have len: "length (waveCtrl example_inputs) = NUM_LFO"
    "length (freqCtrl example_inputs) = NUM_LFO"
    by (simp_all add: example_inputs_def NUM_LFO_def)
  have lt: "0 < NUM_LFO" "1 < NUM_LFO" "2 < NUM_LFO" "3 < NUM_LFO"
    by (simp_all add: NUM_LFO_def)
  have one: "next_wave 0 = 1"
    by (simp add: word_unat_eq_iff unat_next_wave NUM_WAVES_9)
  obtain s1 s2 s3 s4 where
    s: "update_lfo example_settings example_inputs 0 s0 = Inr s1"
      "update_lfo example_settings example_inputs 1 s1 = Inr s2"
      "update_lfo example_settings example_inputs 2 s2 = Inr s3"
      "update_lfo example_settings example_inputs 3 s3 = Inr s4"
    and oks: "quad_ok s1" "quad_ok s2" "quad_ok s3" "quad_ok s4"
    and over: "update_lfo example_settings example_inputs 4 s4 = Inl (OutOfBounds ''waveCtrl'' 4)"
    using update_loop_prefix [OF ok len example_tunings] by blast
  have k1: "wave_ok s1"
    using update_lfo_ok [OF ok w0 lt(1) len(1) s(1)] by simp
  have k2: "wave_ok s2"
    using update_lfo_ok [OF oks(1) k1 lt(2) len(1) s(2)] by simp
  have k3: "wave_ok s3"
    using update_lfo_ok [OF oks(2) k2 lt(3) len(1) s(3)] by simp
  have k4: "wave_ok s4"
    using update_lfo_ok [OF oks(3) k3 lt(4) len(1) s(4)] by simp
  have n1: "waveNum s1 = [1, 0, 0, 0]"
    using update_lfo_waves [OF ok lt(1) len(1) s(1)] by (simp add: wn one example_inputs_def)
  have n2: "waveNum s2 = [1, 0, 0, 0]"
    using update_lfo_waves [OF oks(1) lt(2) len(1) s(2)] by (simp add: n1 example_inputs_def)
  have n3: "waveNum s3 = [1, 0, 0, 0]"
    using update_lfo_waves [OF oks(2) lt(3) len(1) s(3)] by (simp add: n2 example_inputs_def)
  have n4: "waveNum s4 = [1, 0, 0, 0]"
    using update_lfo_waves [OF oks(3) lt(4) len(1) s(4)] by (simp add: n3 example_inputs_def)
  have "25 < fourMilliCounter b"
    by (simp add: fb)
  from loop_overrun [OF okb len example_tunings this]
  have l: "loop example_settings example_inputs b = Inl (OutOfBounds ''waveCtrl'' 4)"
    by (simp add: NUM_LFO_def)
  show ?thesis
    unfolding b_def [symmetric] s0_def [symmetric]
    using w bt wb fb s k4 n4 over l by blast
qed

section \<open>The depth reading\<close>

text \<open>
  Claim C9. In the two-channel sketch the pass over the knobs stores each depth reading
  as it is; when the readings are between 0 and 1023, every value the sample scaling can
  produce from the stored depth is at most 254, and so is every value the interrupt
  routine writes to the two output registers from then on.
\<close>

theorem depth_reading_below_full_scale:
  assumes "0 \<le> LFO1_DepthKnob inp" and "LFO1_DepthKnob inp \<le> 1023"
    and "0 \<le> LFO2_DepthKnob inp" and "LFO2_DepthKnob inp \<le> 1023"
    and "knobs2 cfg inp s = Inr s'"
  shows "uint (LFO1_Depth s') = LFO1_DepthKnob inp \<and> uint (LFO2_Depth s') = LFO2_DepthKnob inp
       \<and> unat (depth_scale sample (LFO1_Depth s')) \<le> 254
       \<and> unat (depth_scale sample (LFO2_Depth s')) \<le> 254
       \<and> unat (OCR2A ((ISR2 pgm ^^ Suc k) s')) \<le> 254
       \<and> unat (OCR2B ((ISR2 pgm ^^ Suc k) s')) \<le> 254"
proof -
  have u1: "uint (LFO1_Depth s') = LFO1_DepthKnob inp"
    using assms(1,2) by (simp add: knobs2_Inr(3) [OF assms(5)] uint_word_of_int)
  have u2: "uint (LFO2_Depth s') = LFO2_DepthKnob inp"
    using assms(3,4) by (simp add: knobs2_Inr(4) [OF assms(5)] uint_word_of_int)
  have n1: "unat (LFO1_Depth s') \<le> 1023"
    using u1 assms(2) by (simp add: unat_eq_nat_uint)
  have n2: "unat (LFO2_Depth s') \<le> 1023"
    using u2 assms(4) by (simp add: unat_eq_nat_uint)
  have "unat (OCR2A ((ISR2 pgm ^^ Suc k) s')) \<le> 254"
    using n1 by (simp add: ISR2_out ISR2_funpow_depth depth_scale_254)
  moreover have "unat (OCR2B ((ISR2 pgm ^^ Suc k) s')) \<le> 254"
    using n2 by (simp add: ISR2_out ISR2_funpow_depth depth_scale_254)
  ultimately show ?thesis
    using u1 u2 n1 n2 by (simp add: depth_scale_254)
qed

theorem depth_reading_below_full_scale_witness:
  "(0 :: int) \<le> LFO1_DepthKnob example_inputs2 \<and> LFO1_DepthKnob example_inputs2 \<le> 1023
   \<and> 0 \<le> LFO2_DepthKnob example_inputs2 \<and> LFO2_DepthKnob example_inputs2 \<le> 1023
   \<and> knobs2 example_settings2 example_inputs2 example_dual
       = Inr (example_dual\<lparr>LFO1_TuningWord := 1369020, LFO1_Depth := 1023,
                LFO2_TuningWord := 13690, LFO2_Depth := 512\<rparr>)
   \<and> unat (depth_scale 255 1023) \<le> 254
   \<and> unat (OCR2A (ISR2 example_pgm (example_dual\<lparr>LFO1_TuningWord := 1369020,
        LFO1_Depth := 1023, LFO2_TuningWord := 13690, LFO2_Depth := 512\<rparr>))) \<le> 254"
proof -
  have r: "(0 :: int) \<le> LFO1_DepthKnob example_inputs2" "LFO1_DepthKnob example_inputs2 \<le> 1023"
    "0 \<le> LFO2_DepthKnob example_inputs2" "LFO2_DepthKnob example_inputs2 \<le> 1023"
    by (simp_all add: example_inputs2_def)
  have k: "knobs2 example_settings2 example_inputs2 example_dual
       = Inr (example_dual\<lparr>LFO1_TuningWord := 1369020, LFO1_Depth := 1023,
                LFO2_TuningWord := 13690, LFO2_Depth := 512\<rparr>)"
    by (simp add: knobs2_def example_FREQ Let_def example_inputs2_def tuning_0 tuning_1023)
  show ?thesis
    using r k depth_reading_below_full_scale [OF r k, where sample = 255 and pgm = example_pgm and k = 0]
    by simp
qed

end
